(* ===== verification/Prelude.thy ===== *)
theory Prelude
  imports Main "HOL-Library.Sublist" "HOL-Library.Multiset"
begin

text \<open>
  Shared vocabulary of the kube-booster development.

  The program is written in Go. A Go \<^verbatim>\<open>string\<close> and a Go \<^verbatim>\<open>[]byte\<close> are sequences of
  bytes, which is what HOL's \<open>string\<close> is (one \<open>char\<close> per byte). A Go \<^verbatim>\<open>int\<close> is 64 bits
  wide on every platform the program is built for: it is modelled by \<open>int\<close>, and the places where
  an addition can leave the range apply \<open>wrap64\<close>. A \<^verbatim>\<open>time.Duration\<close> is a number of
  nanoseconds, a \<^verbatim>\<open>time.Time\<close> a number of nanoseconds on the monotonic clock.

  The theory holds the collections of facts the components add to, the integer and list lemmas
  they share, and nothing that is particular to one component.
\<close>

section \<open>Collections of facts\<close>

named_theorems go_const \<open>definitions of the program's named constants\<close>

section \<open>Types\<close>

type_synonym duration = int
type_synonym instant = int

text \<open>\<^verbatim>\<open>time.Nanosecond\<close> to \<^verbatim>\<open>time.Hour\<close>.\<close>

abbreviation Millisecond :: duration where "Millisecond \<equiv> 1000000"
abbreviation Second :: duration where "Second \<equiv> 1000000000"
abbreviation Minute :: duration where "Minute \<equiv> 60000000000"

section \<open>Fixed-width integers\<close>

abbreviation max_int64 :: int where "max_int64 \<equiv> 9223372036854775807"
abbreviation min_int64 :: int where "min_int64 \<equiv> - 9223372036854775808"

definition wrap64 :: "int \<Rightarrow> int" where
  "wrap64 x = (x + 9223372036854775808) mod 18446744073709551616 - 9223372036854775808"

definition in_int64 :: "int \<Rightarrow> bool" where
  "in_int64 x \<longleftrightarrow> min_int64 \<le> x \<and> x \<le> max_int64"

lemma wrap64_in_range [simp]: "in_int64 (wrap64 x)"
  unfolding in_int64_def wrap64_def by auto

lemma wrap64_id [simp]: "in_int64 x \<Longrightarrow> wrap64 x = x"
  by (simp add: in_int64_def wrap64_def)

section \<open>Options\<close>

fun the_default :: "'a \<Rightarrow> 'a option \<Rightarrow> 'a" where
  "the_default d None = d"
| "the_default d (Some x) = x"

section \<open>Lists\<close>

lemma find_append:
  "find P (xs @ ys) = (case find P xs of None \<Rightarrow> find P ys | Some x \<Rightarrow> Some x)"
  by (induction xs) auto

lemma map_of_distinct_perm:
  assumes "distinct (map fst xs)" and "mset xs = mset ys"
  shows "map_of xs = map_of ys"
proof -
  from assms(2) have "mset (map fst xs) = mset (map fst ys)" by simp
  with assms(1) have d: "distinct (map fst ys)" by (metis mset_eq_imp_distinct_iff)
  from assms(2) have "set xs = set ys" by (rule mset_eq_setD)
  with assms(1) d show ?thesis by (rule map_of_inject_set [THEN iffD2])
qed

lemma length_filter_split:
  "length (filter P xs) + length (filter (\<lambda>x. \<not> P x) xs) = length xs"
  by (rule sum_length_filter_compl)

end
