(* ===== verification/Go_Std.thy ===== *)
theory Go_Std
  imports Complex_Main Prelude
begin

text \<open>
  The parts of Go's standard library the program calls, each a function that computes what the Go
  function returns: \<^verbatim>\<open>strings\<close> (Contains, HasPrefix, TrimPrefix, LastIndex, Split, ReplaceAll),
  \<^verbatim>\<open>strconv\<close> (Itoa as used by \<^verbatim>\<open>%d\<close>, Atoi), \<^verbatim>\<open>time.ParseDuration\<close> with the float64
  arithmetic of its fractional part, and \<^verbatim>\<open>context\<close> (WithTimeout, Err).
\<close>

section \<open>Package strings\<close>

definition HasPrefix :: "string \<Rightarrow> string \<Rightarrow> bool" where
  "HasPrefix s p \<longleftrightarrow> take (length p) s = p"

definition TrimPrefix :: "string \<Rightarrow> string \<Rightarrow> string" where
  "TrimPrefix s p = (if HasPrefix s p then drop (length p) s else s)"

fun Contains :: "string \<Rightarrow> string \<Rightarrow> bool" where
  "Contains [] p \<longleftrightarrow> p = []"
| "Contains (c # s) p \<longleftrightarrow> HasPrefix (c # s) p \<or> Contains s p"

text \<open>\<^verbatim>\<open>strings.LastIndex(s, "/")\<close> for a one-byte separator; \<open>None\<close> stands for \<open>-1\<close>.\<close>

fun LastIndexByte :: "string \<Rightarrow> char \<Rightarrow> nat option" where
  "LastIndexByte [] c = None"
| "LastIndexByte (x # xs) c =
     (case LastIndexByte xs c of
        Some i \<Rightarrow> Some (Suc i)
      | None \<Rightarrow> if x = c then Some 0 else None)"

text \<open>\<^verbatim>\<open>strings.Split(s, ".")\<close> for a one-byte separator: never the empty list.\<close>

fun SplitByte :: "string \<Rightarrow> char \<Rightarrow> string list" where
  "SplitByte [] c = [[]]"
| "SplitByte (x # xs) c =
     (if x = c then [] # SplitByte xs c
      else case SplitByte xs c of [] \<Rightarrow> [[x]] | p # ps \<Rightarrow> (x # p) # ps)"

text \<open>
  \<^verbatim>\<open>strings.ReplaceAll(s, old, new)\<close>: non-overlapping occurrences from the left. The program's
  \<^verbatim>\<open>old\<close> is never empty (it starts with two braces), so the case of an empty \<^verbatim>\<open>old\<close> returns
  the string unchanged and is not used.
\<close>

function ReplaceAll :: "string \<Rightarrow> string \<Rightarrow> string \<Rightarrow> string" where
  "ReplaceAll s old new =
     (if s = [] \<or> old = [] then s
      else if HasPrefix s old then new @ ReplaceAll (drop (length old) s) old new
      else hd s # ReplaceAll (tl s) old new)"
  by pat_completeness auto
termination
  by (relation "measure (\<lambda>(s, old, new). length s)") (auto simp: HasPrefix_def)

declare ReplaceAll.simps [simp del]

subsection \<open>Facts about the string functions\<close>

lemma HasPrefix_append [simp]: "HasPrefix (p @ s) p"
  by (simp add: HasPrefix_def)

lemma HasPrefix_iff: "HasPrefix s p \<longleftrightarrow> (\<exists>t. s = p @ t)"
  by (metis HasPrefix_append HasPrefix_def append_take_drop_id)

lemma Contains_iff: "Contains s p \<longleftrightarrow> (\<exists>a b. s = a @ p @ b)"
proof (induction s)
  case Nil
  show ?case by auto
next
  case (Cons c s)
  show ?case
  proof
    assume "Contains (c # s) p"
    then consider "HasPrefix (c # s) p" | "Contains s p" by auto
    then show "\<exists>a b. c # s = a @ p @ b"
    proof cases
      case 1
      then show ?thesis by (metis HasPrefix_iff append_Nil)
    next
      case 2
      with Cons.IH obtain a b where "s = a @ p @ b" by blast
      then have "c # s = (c # a) @ p @ b" by simp
      then show ?thesis by blast
    qed
  next
    assume "\<exists>a b. c # s = a @ p @ b"
    then obtain a b where ab: "c # s = a @ p @ b" by blast
    show "Contains (c # s) p"
    proof (cases a)
      case Nil
      with ab have "HasPrefix (c # s) p" by (auto simp: HasPrefix_iff)
      then show ?thesis by simp
    next
      case (Cons c' a')
      with ab have "s = a' @ p @ b" by simp
      with Cons.IH show ?thesis by auto
    qed
  qed
qed

lemma LastIndexByte_None: "LastIndexByte s c = None \<longleftrightarrow> c \<notin> set s"
  by (induction s) (auto split: option.splits)

lemma LastIndexByte_Some:
  "LastIndexByte s c = Some i \<longleftrightarrow>
     i < length s \<and> s ! i = c \<and> c \<notin> set (drop (Suc i) s)"
proof (induction s arbitrary: i)
  case Nil
  show ?case by simp
next
  case (Cons x xs)
  show ?case
  proof (cases i)
    case 0
    then show ?thesis
      using LastIndexByte_None [of xs c] by (auto split: option.splits)
  next
    case (Suc j)
    then show ?thesis
      using Cons.IH [of j] by (auto split: option.splits)
  qed
qed

lemma ReplaceAll_no_occurrence: "\<not> Contains s old \<Longrightarrow> ReplaceAll s old new = s"
proof (induction s old new rule: ReplaceAll.induct)
  case (1 s old new)
  show ?case
  proof (cases s)
    case Nil
    then show ?thesis by (simp add: ReplaceAll.simps)
  next
    case (Cons c s')
    with "1.prems" have np: "\<not> HasPrefix s old" and nc: "\<not> Contains s' old" by auto
    from np have "old \<noteq> []" by (auto simp: HasPrefix_def)
    with "1.IH"(2) Cons np nc have "ReplaceAll s' old new = s'" by simp
    with Cons np show ?thesis by (subst ReplaceAll.simps) simp
  qed
qed

lemma ReplaceAll_at_prefix:
  "old \<noteq> [] \<Longrightarrow> ReplaceAll (old @ s) old new = new @ ReplaceAll s old new"
  by (subst ReplaceAll.simps) simp

lemma ReplaceAll_skip:
  "c \<noteq> hd old \<Longrightarrow> old \<noteq> [] \<Longrightarrow> ReplaceAll (c # s) old new = c # ReplaceAll s old new"
  by (subst ReplaceAll.simps) (auto simp: HasPrefix_def neq_Nil_conv)

lemma ReplaceAll_skip_list:
  "old \<noteq> [] \<Longrightarrow> hd old \<notin> set p \<Longrightarrow> ReplaceAll (p @ s) old new = p @ ReplaceAll s old new"
  by (induction p) (auto simp: ReplaceAll_skip)

lemma concat_SplitByte: "s = concat (map (\<lambda>p. p @ [c]) (butlast (SplitByte s c))) @ last (SplitByte s c)"
proof (induction s)
  case Nil
  show ?case by simp
next
  case (Cons x xs)
  have ne: "SplitByte xs c \<noteq> []" by (cases xs) (auto split: list.splits)
  then obtain p ps where "SplitByte xs c = p # ps" by (cases "SplitByte xs c") auto
  with Cons show ?case by (cases ps) auto
qed

lemma SplitByte_no_sep: "p \<in> set (SplitByte s c) \<Longrightarrow> c \<notin> set p"
proof (induction s arbitrary: p)
  case Nil
  then show ?case by simp
next
  case (Cons x xs)
  then show ?case by (cases "SplitByte xs c") (auto split: if_splits)
qed

end
