(* ===== verification/Go_Num.thy ===== *)
theory Go_Num
  imports Go_Std
begin

text \<open>
  Numbers as text: \<^verbatim>\<open>%d\<close>, \<^verbatim>\<open>strconv.Atoi\<close> and \<^verbatim>\<open>time.ParseDuration\<close>, and the float64
  rounding that the last one uses (in \<^verbatim>\<open>Go_Time\<close>). A float64 is the rational number it denotes;
  infinities and NaN do not arise at the program's call sites.
\<close>

section \<open>Decimal digits\<close>

definition is_digit :: "char \<Rightarrow> bool" where
  "is_digit c \<longleftrightarrow> (48 :: nat) \<le> of_char c \<and> of_char c \<le> (57 :: nat)"

definition digit_val :: "char \<Rightarrow> int" where
  "digit_val c = int (of_char c) - 48"

definition digit_char :: "nat \<Rightarrow> char" where
  "digit_char n = char_of (48 + n)"

fun dec_nat :: "nat \<Rightarrow> string" where
  "dec_nat n = (if n < 10 then [digit_char n] else dec_nat (n div 10) @ [digit_char (n mod 10)])"

declare dec_nat.simps [simp del]

text \<open>The same digits of an \<open>int\<close> that is not negative, which evaluates on binary numerals.\<close>

function dec_int :: "int \<Rightarrow> string" where
  "dec_int i =
     (if i < 10 then [digit_char (nat i)] else dec_int (i div 10) @ [digit_char (nat (i mod 10))])"
  by pat_completeness auto
termination
  by (relation "measure nat") auto

declare dec_int.simps [simp del]

text \<open>The text \<^verbatim>\<open>%d\<close> prints.\<close>

definition Itoa :: "int \<Rightarrow> string" where
  "Itoa i = (if i < 0 then CHR ''-'' # dec_int (- i) else dec_int i)"

lemma is_digit_digit_char [simp]: "n < 10 \<Longrightarrow> is_digit (digit_char n)"
  by (simp add: is_digit_def digit_char_def)

lemma digit_val_digit_char [simp]: "n < 10 \<Longrightarrow> digit_val (digit_char n) = int n"
  by (simp add: digit_val_def digit_char_def)

lemma digit_val_bounds: "is_digit c \<Longrightarrow> 0 \<le> digit_val c \<and> digit_val c \<le> 9"
proof -
  assume "is_digit c"
  then have "(48 :: nat) \<le> of_char c" and "of_char c \<le> (57 :: nat)" by (simp_all add: is_digit_def)
  then show ?thesis by (simp add: digit_val_def)
qed

lemma dec_nat_induct [case_names small large]:
  assumes "\<And>n. n < 10 \<Longrightarrow> P n" and "\<And>n. \<not> n < 10 \<Longrightarrow> P (n div 10) \<Longrightarrow> P n"
  shows "P (n :: nat)"
  using assms by (induction n rule: dec_nat.induct) blast

lemma dec_nat_small: "n < 10 \<Longrightarrow> dec_nat n = [digit_char n]"
  by (simp add: dec_nat.simps)

lemma dec_nat_large: "\<not> n < 10 \<Longrightarrow> dec_nat n = dec_nat (n div 10) @ [digit_char (n mod 10)]"
  by (subst dec_nat.simps) simp

lemma dec_nat_nonempty [simp]: "dec_nat n \<noteq> []"
  by (cases "n < 10") (simp_all add: dec_nat_small dec_nat_large)

lemma dec_nat_digits: "list_all is_digit (dec_nat n)"
  by (induction n rule: dec_nat_induct) (simp_all add: dec_nat_small dec_nat_large)

lemma dec_int_nat: "dec_int (int n) = dec_nat n"
proof (induction n rule: dec_nat_induct)
  case (small n)
  then show ?case by (simp add: dec_nat_small dec_int.simps)
next
  case (large n)
  have "int n div 10 = int (n div 10)" and "nat (int n mod 10) = n mod 10"
    by (simp_all add: zdiv_int nat_mod_distrib)
  with large show ?case
    by (subst dec_int.simps) (simp add: dec_nat_large)
qed

lemma Itoa_dec_nat: "Itoa i = (if i < 0 then CHR ''-'' # dec_nat (nat (- i)) else dec_nat (nat i))"
  using dec_int_nat [of "nat i"] dec_int_nat [of "nat (- i)"]
  by (cases "i < 0") (simp_all add: Itoa_def)

section \<open>strconv.Atoi\<close>

datatype num_error = ErrSyntax | ErrRange

text \<open>The digit loop of \<^verbatim>\<open>ParseUint(s, 10, 64)\<close>.\<close>

fun parse_uint :: "string \<Rightarrow> int \<Rightarrow> num_error + int" where
  "parse_uint [] n = Inr n"
| "parse_uint (c # cs) n =
     (if \<not> is_digit c then Inl ErrSyntax
      else if n \<ge> 1844674407370955162 then Inl ErrRange
      else if n * 10 + digit_val c > 18446744073709551615 then Inl ErrRange
      else parse_uint cs (n * 10 + digit_val c))"

definition Atoi :: "string \<Rightarrow> num_error + int" where
  "Atoi s =
     (if s = [] then Inl ErrSyntax
      else let neg = (hd s = CHR ''-'');
               body = (if hd s = CHR ''-'' \<or> hd s = CHR ''+'' then tl s else s)
           in if body = [] then Inl ErrSyntax
              else case parse_uint body 0 of
                     Inl e \<Rightarrow> Inl e
                   | Inr u \<Rightarrow>
                       if \<not> neg \<and> u \<ge> 9223372036854775808 then Inl ErrRange
                       else if neg \<and> u > 9223372036854775808 then Inl ErrRange
                       else Inr (if neg then - u else u))"

lemma parse_uint_snoc:
  "parse_uint (s @ [c]) n = (case parse_uint s n of Inl e \<Rightarrow> Inl e | Inr v \<Rightarrow> parse_uint [c] v)"
  by (induction s n rule: parse_uint.induct) simp_all

lemma parse_uint_nonneg: "parse_uint s n = Inr v \<Longrightarrow> 0 \<le> n \<Longrightarrow> 0 \<le> v"
proof (induction s n rule: parse_uint.induct)
  case (1 n)
  then show ?case by simp
next
  case (2 c cs n)
  then have "is_digit c" by (auto split: if_splits)
  with 2 show ?case using digit_val_bounds [of c] by (auto split: if_splits)
qed

lemma parse_uint_dec_nat:
  "int n \<le> 18446744073709551615 \<Longrightarrow> parse_uint (dec_nat n) 0 = Inr (int n)"
proof (induction n rule: dec_nat_induct)
  case (small n)
  then show ?case by (simp add: dec_nat_small)
next
  case (large n)
  then have "int (n div 10) \<le> 1844674407370955161" by simp
  with large have IH: "parse_uint (dec_nat (n div 10)) 0 = Inr (int (n div 10))" by simp
  have split10: "int (n div 10) * 10 + int (n mod 10) = int n"
    by (metis div_mult_mod_eq mult.commute of_nat_add of_nat_mult of_nat_numeral)
  from large IH split10 show ?case
    by (simp add: dec_nat_large parse_uint_snoc)
qed

lemma Atoi_in_int64: "Atoi s = Inr n \<Longrightarrow> in_int64 n"
  unfolding Atoi_def in_int64_def Let_def
  by (auto split: if_splits sum.splits dest!: parse_uint_nonneg)

lemma digit_not_sign: "is_digit c \<Longrightarrow> c \<noteq> CHR ''-'' \<and> c \<noteq> CHR ''+''"
  by (auto simp: is_digit_def)

lemma hd_dec_nat: "is_digit (hd (dec_nat n))"
  using dec_nat_digits [of n] by (cases "dec_nat n") auto

theorem Atoi_Itoa: "in_int64 n \<Longrightarrow> Atoi (Itoa n) = Inr n"
proof (cases "n < 0")
  case True
  assume "in_int64 n"
  with True show ?thesis
    using parse_uint_dec_nat [of "nat (- n)"] by (simp add: Atoi_def Itoa_dec_nat in_int64_def)
next
  case False
  assume "in_int64 n"
  with False show ?thesis
    using parse_uint_dec_nat [of "nat n"] digit_not_sign [OF hd_dec_nat [of "nat n"]]
    by (simp add: Atoi_def Itoa_dec_nat in_int64_def)
qed

lemma Atoi_empty [simp]: "Atoi [] = Inl ErrSyntax"
  by (simp add: Atoi_def)

lemma Itoa_nonempty [simp]: "Itoa n \<noteq> []"
  by (simp add: Itoa_dec_nat)

lemma Itoa_inj: "in_int64 a \<Longrightarrow> in_int64 b \<Longrightarrow> Itoa a = Itoa b \<Longrightarrow> a = b"
  by (metis Atoi_Itoa sum.inject(2))

end
