(* ===== verification/Go_Time.thy ===== *)
theory Go_Time
  imports Go_Num
begin

text \<open>
  Package \<^verbatim>\<open>time\<close> (ParseDuration, with the float64 arithmetic of its fractional part) and package
  \<^verbatim>\<open>context\<close>. A context is what the program can learn of it: whether it will ever be done, at
  which instant, and with which error. The instant at which a parent is cancelled is chosen by the
  environment; every theorem holds for every choice of it.
\<close>

section \<open>Rounding to float64\<close>

definition half_even :: "rat \<Rightarrow> int" where
  "half_even x =
     (let f = \<lfloor>x\<rfloor>; r = x - of_int f
      in if r < 1 / 2 then f else if r > 1 / 2 then f + 1 else if even f then f else f + 1)"

function ilog2 :: "int \<Rightarrow> int" where
  "ilog2 n = (if n < 2 then 0 else 1 + ilog2 (n div 2))"
  by pat_completeness auto
termination
  by (relation "measure nat") auto

declare ilog2.simps [simp del]

definition pow2 :: "int \<Rightarrow> rat" where
  "pow2 e = (if 0 \<le> e then 2 ^ nat e else 1 / 2 ^ nat (- e))"

text \<open>The exponent of a positive rational: the greatest \<open>e\<close> with \<open>pow2 e \<le> q\<close>.\<close>

definition exp2_of :: "rat \<Rightarrow> int" where
  "exp2_of q =
     (let (n, d) = quotient_of q; e = ilog2 n - ilog2 d
      in if q < pow2 e then e - 1 else e)"

text \<open>
  Round to nearest, ties to even, with a 53-bit significand and the subnormal spacing below; for a
  value that is not negative.
\<close>

definition rnd64 :: "rat \<Rightarrow> rat" where
  "rnd64 q =
     (if q \<le> 0 then 0
      else let u = pow2 (max (exp2_of q - 52) (- 1074)) in of_int (half_even (q / u)) * u)"

section \<open>time.ParseDuration\<close>

datatype dur_error = InvalidDuration | MissingUnit | UnknownUnit string

fun leadingInt :: "string \<Rightarrow> int \<Rightarrow> (int \<times> string) option" where
  "leadingInt [] x = Some (x, [])"
| "leadingInt (c # cs) x =
     (if \<not> is_digit c then Some (x, c # cs)
      else if x > 922337203685477580 then None
      else if x * 10 + digit_val c > 9223372036854775808 then None
      else leadingInt cs (x * 10 + digit_val c))"

fun leadingFraction :: "string \<Rightarrow> int \<Rightarrow> int \<Rightarrow> bool \<Rightarrow> int \<times> int \<times> string" where
  "leadingFraction [] x scale overflow = (x, scale, [])"
| "leadingFraction (c # cs) x scale overflow =
     (if \<not> is_digit c then (x, scale, c # cs)
      else if overflow then leadingFraction cs x scale True
      else if x > 922337203685477580 then leadingFraction cs x scale True
      else if x * 10 + digit_val c > 9223372036854775808 then leadingFraction cs x scale True
      else leadingFraction cs (x * 10 + digit_val c) (scale * 10) False)"

definition unit_byte :: "char \<Rightarrow> bool" where
  "unit_byte c \<longleftrightarrow> \<not> (c = CHR ''.'' \<or> is_digit c)"

text \<open>The two micro signs are written with their UTF-8 bytes.\<close>

definition unitMap :: "string \<Rightarrow> int option" where
  "unitMap =
     map_of [(''ns'', 1), (''us'', 1000),
       ([CHR 0xC2, CHR 0xB5, CHR ''s''], 1000), ([CHR 0xCE, CHR 0xBC, CHR ''s''], 1000),
       (''ms'', 1000000), (''s'', 1000000000), (''m'', 60000000000), (''h'', 3600000000000)]"

text \<open>\<^verbatim>\<open>uint64(float64(f) * (float64(unit) / scale))\<close>\<close>

definition frac_part :: "int \<Rightarrow> int \<Rightarrow> int \<Rightarrow> int" where
  "frac_part f unit scale =
     \<lfloor>rnd64 (rnd64 (of_int f) * rnd64 (of_int unit / of_int scale))\<rfloor>"

lemma leadingInt_length: "leadingInt s x = Some (v, s') \<Longrightarrow> length s' \<le> length s"
  by (induction s x rule: leadingInt.induct) (auto split: if_splits)

lemma leadingFraction_length:
  "leadingFraction s x sc ov = (f, sc', s') \<Longrightarrow> length s' \<le> length s"
  by (induction s x sc ov rule: leadingFraction.induct) (auto split: if_splits)

text \<open>One round of the loop: the number before the unit, then the unit.\<close>

definition dur_number :: "string \<Rightarrow> (int \<times> int \<times> int \<times> string) option" where
  "dur_number s =
     (if \<not> (hd s = CHR ''.'' \<or> is_digit (hd s)) then None
      else case leadingInt s 0 of
        None \<Rightarrow> None
      | Some (v, s1) \<Rightarrow>
          let pre = (length s1 \<noteq> length s)
          in if s1 \<noteq> [] \<and> hd s1 = CHR ''.'' then
               case leadingFraction (tl s1) 0 1 False of
                 (f, scale, s2) \<Rightarrow>
                   let post = (length s2 \<noteq> length (tl s1))
                   in if \<not> pre \<and> \<not> post then None else Some (v, f, scale, s2)
             else if \<not> pre then None
             else Some (v, 0, 1, s1))"

definition dur_item :: "string \<Rightarrow> dur_error + (int \<times> string)" where
  "dur_item s =
     (case dur_number s of
        None \<Rightarrow> Inl InvalidDuration
      | Some (v, f, scale, s2) \<Rightarrow>
          let u = takeWhile unit_byte s2; s3 = dropWhile unit_byte s2
          in if u = [] then Inl MissingUnit
             else case unitMap u of
               None \<Rightarrow> Inl (UnknownUnit u)
             | Some unit \<Rightarrow>
                 if v > 9223372036854775808 div unit then Inl InvalidDuration
                 else let v' = v * unit + (if f > 0 then frac_part f unit scale else 0)
                      in if f > 0 \<and> v' > 9223372036854775808 then Inl InvalidDuration
                         else Inr (v', s3))"

lemma dur_number_length: "dur_number s = Some (v, f, scale, s') \<Longrightarrow> length s' \<le> length s"
  unfolding dur_number_def Let_def
  by (auto split: if_splits option.splits prod.splits
      dest!: leadingInt_length leadingFraction_length)

lemma dur_item_decreases:
  assumes "dur_item s = Inr (v, s')"
  shows "length s' < length s"
proof -
  from assms obtain w f sc s2 where n: "dur_number s = Some (w, f, sc, s2)"
    and u: "takeWhile unit_byte s2 \<noteq> []" and s': "s' = dropWhile unit_byte s2"
    by (auto simp: dur_item_def Let_def split: option.splits if_splits)
  have "length s2 = length (takeWhile unit_byte s2) + length s'"
    unfolding s' by (metis length_append takeWhile_dropWhile_id)
  with u dur_number_length [OF n] show ?thesis by (cases "takeWhile unit_byte s2") auto
qed

text \<open>The sum is a uint64, so it is taken modulo \<open>2^64\<close> before it is compared with \<open>2^63\<close>.\<close>

function dur_loop :: "string \<Rightarrow> int \<Rightarrow> dur_error + int" where
  "dur_loop s d =
     (if s = [] then Inr d
      else case dur_item s of
        Inl e \<Rightarrow> Inl e
      | Inr (v, s') \<Rightarrow>
          let d' = (d + v) mod 18446744073709551616
          in if d' > 9223372036854775808 then Inl InvalidDuration else dur_loop s' d')"
  by pat_completeness auto
termination
  by (relation "measure (\<lambda>(s, d). length s)") (auto dest: dur_item_decreases)

declare dur_loop.simps [simp del]

definition ParseDuration :: "string \<Rightarrow> dur_error + duration" where
  "ParseDuration orig =
     (let signed = (orig \<noteq> [] \<and> (hd orig = CHR ''-'' \<or> hd orig = CHR ''+''));
          neg = (orig \<noteq> [] \<and> hd orig = CHR ''-'');
          s = (if signed then tl orig else orig)
      in if s = ''0'' then Inr 0
         else if s = [] then Inl InvalidDuration
         else case dur_loop s 0 of
           Inl e \<Rightarrow> Inl e
         | Inr d \<Rightarrow>
             if neg then Inr (wrap64 (- d))
             else if d > max_int64 then Inl InvalidDuration
             else Inr d)"

section \<open>Package context\<close>

datatype ctx_err = Canceled | DeadlineExceeded

datatype go_ctx = Background | DoneAt instant ctx_err

fun ctx_Err :: "go_ctx \<Rightarrow> instant \<Rightarrow> ctx_err option" where
  "ctx_Err Background t = None"
| "ctx_Err (DoneAt d e) t = (if d \<le> t then Some e else None)"

text \<open>
  \<^verbatim>\<open>context.WithTimeout(ctx, d)\<close> called at instant \<open>t\<close>: the child is done when the parent is, or
  when the timeout has passed, whichever is first. Its own \<^verbatim>\<open>cancel\<close> is called only when the
  function that created it returns.
\<close>

fun WithTimeout :: "go_ctx \<Rightarrow> instant \<Rightarrow> duration \<Rightarrow> go_ctx" where
  "WithTimeout Background t d = DoneAt (t + d) DeadlineExceeded"
| "WithTimeout (DoneAt p e) t d =
     (if p \<le> t + d then DoneAt p e else DoneAt (t + d) DeadlineExceeded)"

text \<open>The instant by which a context is done, if there is one.\<close>

fun ctx_end :: "go_ctx \<Rightarrow> instant option" where
  "ctx_end Background = None"
| "ctx_end (DoneAt d e) = Some d"

lemma ctx_Err_mono: "ctx_Err c t = Some e \<Longrightarrow> t \<le> t' \<Longrightarrow> ctx_Err c t' = Some e"
  by (cases c) (auto split: if_splits)

lemma WithTimeout_end_le: "\<exists>e. ctx_end (WithTimeout c t d) = Some e \<and> e \<le> t + d"
  by (cases c) auto

lemma WithTimeout_Err_after: "t + d \<le> t' \<Longrightarrow> ctx_Err (WithTimeout c t d) t' \<noteq> None"
  by (cases c) auto

lemma WithTimeout_parent: "ctx_Err c t' = Some e \<Longrightarrow> ctx_Err (WithTimeout c t d) t' \<noteq> None"
  by (cases c) (auto split: if_splits)

lemma WithTimeout_child_le:
  "ctx_end c = Some p \<Longrightarrow> \<exists>e. ctx_end (WithTimeout c t d) = Some e \<and> e \<le> p"
  by (cases c) auto

section \<open>Whole numbers of seconds\<close>

lemma leadingInt_snoc:
  assumes "list_all is_digit s" and "leadingInt s x = Some (v, r)"
  shows "r = []" and "leadingInt (s @ t) x = leadingInt t v"
  using assms by (induction s x rule: leadingInt.induct) (auto split: if_splits)

lemma leadingInt_dec_nat:
  "int n \<le> 9223372036854775808 \<Longrightarrow> leadingInt (dec_nat n) 0 = Some (int n, [])"
proof (induction n rule: dec_nat_induct)
  case (small n)
  then show ?case by (simp add: dec_nat_small)
next
  case (large n)
  then have "int (n div 10) \<le> 922337203685477580" by simp
  with large have IH: "leadingInt (dec_nat (n div 10)) 0 = Some (int (n div 10), [])" by simp
  have "int (n div 10) * 10 + int (n mod 10) = int n"
    by (metis div_mult_mod_eq mult.commute of_nat_add of_nat_mult of_nat_numeral)
  with large leadingInt_snoc(2) [OF dec_nat_digits IH] show ?case
    by (simp add: dec_nat_large)
qed

lemma dur_item_seconds:
  assumes "int n \<le> 9223372036"
  shows "dur_item (dec_nat n @ ''s'') = Inr (int n * Second, [])"
proof -
  have li: "leadingInt (dec_nat n @ ''s'') 0 = Some (int n, ''s'')"
    using leadingInt_snoc(2) [OF dec_nat_digits leadingInt_dec_nat] assms
    by (simp add: is_digit_def)
  have "is_digit (hd (dec_nat n @ ''s''))" using hd_dec_nat [of n] by simp
  moreover have "length ''s'' \<noteq> length (dec_nat n @ ''s'')" by simp
  ultimately show ?thesis
    using assms by (simp add: dur_item_def dur_number_def li unit_byte_def is_digit_def unitMap_def)
qed

lemma ParseDuration_seconds:
  assumes "int n \<le> 9223372036"
  shows "ParseDuration (dec_nat n @ ''s'') = Inr (int n * Second)"
proof -
  have h: "hd (dec_nat n @ ''s'') \<noteq> CHR ''-'' \<and> hd (dec_nat n @ ''s'') \<noteq> CHR ''+''"
    using digit_not_sign [OF hd_dec_nat [of n]] by simp
  have z: "dec_nat n @ ''s'' \<noteq> ''0''" by (cases "dec_nat n") auto
  have "(int n * Second) mod 18446744073709551616 = int n * Second" using assms by simp
  then have "dur_loop (dec_nat n @ ''s'') 0 = Inr (int n * Second)"
    using assms
    by (simp add: dur_loop.simps [of "dec_nat n @ ''s''"] dur_loop.simps [of "[]"]
        dur_item_seconds)
  with h z assms show ?thesis by (simp add: ParseDuration_def)
qed

lemma ParseDuration_empty [simp]: "ParseDuration [] = Inl InvalidDuration"
  by (simp add: ParseDuration_def)

end
