(* ===== verification/Api_Types.thy ===== *)
theory Api_Types
  imports Go_Time
begin

text \<open>
  Data the components exchange: the WarmupConfig resource (pkg/api/v1alpha1/types.go) and the fields
  of a Kubernetes Pod the program reads or writes. A Go map whose iteration order the program can
  observe is a list of key/value pairs with distinct keys, in the order of that iteration; every
  theorem is about all such orders. A Go map that is only looked up is a partial function, with
  \<open>None\<close> for the nil map.
\<close>

section \<open>The WarmupConfig resource\<close>

type_synonym string_map = "(string \<times> string) list"

record WarmupRequest =
  wr_Name :: string
  wr_Protocol :: string
  wr_Endpoint :: string
  wr_Method :: string
  wr_Headers :: string_map
  wr_Body :: string
  wr_GRPCMethod :: string
  wr_GRPCPayload :: string
  wr_Count :: int
  wr_Extract :: string_map
  wr_ExpectedStatus :: int

record WarmupStep =
  ws_Name :: string
  ws_Requests :: "WarmupRequest list"
  ws_Timeout :: string

record WarmupConfigSpec =
  spec_Steps :: "WarmupStep list"
  spec_Timeout :: string

record WarmupConfig =
  wc_Namespace :: string
  wc_Name :: string
  wc_Spec :: WarmupConfigSpec

text \<open>The zero value of a request: every field that the manifest leaves out.\<close>

definition zero_request :: WarmupRequest where
  "zero_request =
     \<lparr>wr_Name = [], wr_Protocol = [], wr_Endpoint = [], wr_Method = [], wr_Headers = [],
      wr_Body = [], wr_GRPCMethod = [], wr_GRPCPayload = [], wr_Count = 0, wr_Extract = [],
      wr_ExpectedStatus = 0\<rparr>"

section \<open>Pods\<close>

record container =
  ctr_Name :: string
  ctr_Ports :: "int list"

record pod_condition =
  cond_Type :: string
  cond_Status :: string
  cond_LastTransitionTime :: instant
  cond_Reason :: string
  cond_Message :: string

record container_status =
  cs_Name :: string
  cs_Ready :: bool

record pod =
  pod_Name :: string
  pod_Namespace :: string
  pod_Annotations :: "(string \<Rightarrow> string option) option"
  pod_ReadinessGates :: "string list"
  pod_Containers :: "container list"
  pod_NodeName :: string
  pod_Phase :: string
  pod_PodIP :: string
  pod_Conditions :: "pod_condition list"
  pod_ContainerStatuses :: "container_status list"

text \<open>\<^verbatim>\<open>v, ok := annotations[key]\<close>, on a nil map too.\<close>

definition annotation :: "pod \<Rightarrow> string \<Rightarrow> string option" where
  "annotation p k = (case pod_Annotations p of None \<Rightarrow> None | Some m \<Rightarrow> m k)"

text \<open>\<^verbatim>\<open>annotations[key]\<close>: the empty string when the key is missing.\<close>

definition annotation_or_empty :: "pod \<Rightarrow> string \<Rightarrow> string" where
  "annotation_or_empty p k = (case annotation p k of None \<Rightarrow> [] | Some v \<Rightarrow> v)"

text \<open>The guard \<^verbatim>\<open>ok && v != ""\<close> that every optional annotation is read with.\<close>

definition annotation_set :: "pod \<Rightarrow> string \<Rightarrow> string option" where
  "annotation_set p k =
     (case annotation p k of None \<Rightarrow> None | Some v \<Rightarrow> if v = [] then None else Some v)"

lemma annotation_set_nil [simp]: "pod_Annotations p = None \<Longrightarrow> annotation_set p k = None"
  by (simp add: annotation_set_def annotation_def)

lemma annotation_set_nonempty: "annotation_set p k = Some v \<Longrightarrow> v \<noteq> []"
  by (auto simp: annotation_set_def split: option.splits if_splits)

end
