(* ===== verification/Webhook.thy ===== *)
theory Webhook
  imports Api_Types
begin

text \<open>
  The mutating admission webhook (pkg/webhook): the annotation names and \<^verbatim>\<open>PodMutator.Handle\<close>. The
  admission decoder of controller-runtime and the JSON encoding of a pod are parameters of
  \<open>Handle\<close>.
\<close>

section \<open>Constants\<close>

definition AnnotationWarmupEnabled :: string where [go_const]:
  "AnnotationWarmupEnabled = ''kube-booster.io/warmup''"
definition AnnotationWarmupEndpoint :: string where [go_const]:
  "AnnotationWarmupEndpoint = ''kube-booster.io/warmup-endpoint''"
definition AnnotationWarmupRequests :: string where [go_const]:
  "AnnotationWarmupRequests = ''kube-booster.io/warmup-requests''"
definition AnnotationWarmupTimeout :: string where [go_const]:
  "AnnotationWarmupTimeout = ''kube-booster.io/warmup-timeout''"
definition AnnotationWarmupPort :: string where [go_const]:
  "AnnotationWarmupPort = ''kube-booster.io/warmup-port''"
definition AnnotationWarmupProtocol :: string where [go_const]:
  "AnnotationWarmupProtocol = ''kube-booster.io/warmup-protocol''"
definition AnnotationWarmupGRPCMethod :: string where [go_const]:
  "AnnotationWarmupGRPCMethod = ''kube-booster.io/warmup-grpc-method''"
definition AnnotationWarmupGRPCPayload :: string where [go_const]:
  "AnnotationWarmupGRPCPayload = ''kube-booster.io/warmup-grpc-payload''"
definition ReadinessGateName :: string where [go_const]:
  "ReadinessGateName = ''kube-booster.io/warmup-ready''"
definition ConditionTypeWarmupReady :: string where [go_const]:
  "ConditionTypeWarmupReady = ''kube-booster.io/warmup-ready''"
definition AnnotationWarmupConfig :: string where [go_const]:
  "AnnotationWarmupConfig = ''kube-booster.io/warmup-config''"
definition WarmupEnabledValue :: string where [go_const]:
  "WarmupEnabledValue = ''enabled''"

section \<open>The handler\<close>

datatype 'e admission_response =
    Errored int 'e
  | Allowed string
  | PatchResponseFromRaw string string

definition gate_present :: "pod \<Rightarrow> bool" where
  "gate_present p \<longleftrightarrow> list_ex (\<lambda>gate. gate = ReadinessGateName) (pod_ReadinessGates p)"

definition inject_gate :: "pod \<Rightarrow> pod" where
  "inject_gate p = p\<lparr>pod_ReadinessGates := pod_ReadinessGates p @ [ReadinessGateName]\<rparr>"

definition Handle ::
  "(string \<Rightarrow> 'e + pod) \<Rightarrow> (pod \<Rightarrow> 'e + string) \<Rightarrow> string \<Rightarrow> 'e admission_response" where
  "Handle decode marshal raw =
     (case decode raw of
        Inl err \<Rightarrow> Errored 400 err
      | Inr p \<Rightarrow>
          if annotation_or_empty p AnnotationWarmupEnabled \<noteq> WarmupEnabledValue
          then Allowed ''warmup not enabled''
          else if gate_present p then Allowed ''readiness gate already present''
          else case marshal (inject_gate p) of
                 Inl err \<Rightarrow> Errored 500 err
               | Inr m \<Rightarrow> PatchResponseFromRaw raw m)"

text \<open>
  The struct: what matters of it is the decoder, which can be replaced. \<open>NewDecoder\<close> stands for the one that
  controller-runtime builds from a scheme.
\<close>

record 'e PodMutator =
  pm_decoder :: "string \<Rightarrow> 'e + pod"

definition NewPodMutator :: "('s \<Rightarrow> string \<Rightarrow> 'e + pod) \<Rightarrow> 's \<Rightarrow> 'e PodMutator" where
  "NewPodMutator NewDecoder scheme = \<lparr>pm_decoder = NewDecoder scheme\<rparr>"

definition InjectDecoder :: "(string \<Rightarrow> 'e + pod) \<Rightarrow> 'e PodMutator \<Rightarrow> 'e PodMutator" where
  "InjectDecoder d pm = pm\<lparr>pm_decoder := d\<rparr>"

definition PodMutator_Handle :: "'e PodMutator \<Rightarrow> (pod \<Rightarrow> 'e + string) \<Rightarrow> string \<Rightarrow> 'e admission_response" where
  "PodMutator_Handle pm marshal raw = Handle (pm_decoder pm) marshal raw"

section \<open>The readiness-gate interface\<close>

text \<open>
  The webhook and the controller agree on one contract: a gate can be tested for and added, and
  after adding it the test succeeds. What both sides need follows from it.
\<close>

locale readiness_gate =
  fixes has :: "'p \<Rightarrow> bool" and add :: "'p \<Rightarrow> 'p"
  assumes has_add: "has (add p)"
begin

definition ensure :: "'p \<Rightarrow> 'p" where
  "ensure p = (if has p then p else add p)"

lemma has_ensure: "has (ensure p)"
  by (simp add: ensure_def has_add)

lemma ensure_fixed: "has p \<Longrightarrow> ensure p = p"
  by (simp add: ensure_def)

lemma ensure_idem: "ensure (ensure p) = ensure p"
  by (rule ensure_fixed) (rule has_ensure)

end

interpretation gate: readiness_gate gate_present inject_gate
  by unfold_locales (simp add: gate_present_def inject_gate_def)

section \<open>Lemmas\<close>

lemma gate_present_iff: "gate_present p \<longleftrightarrow> ReadinessGateName \<in> set (pod_ReadinessGates p)"
  by (auto simp: gate_present_def list_ex_iff)

lemma count_gate_inject:
  "\<not> gate_present p \<Longrightarrow> count_list (pod_ReadinessGates (inject_gate p)) ReadinessGateName = 1"
  by (simp add: inject_gate_def gate_present_iff count_notin)

lemma annotation_inject [simp]: "annotation (inject_gate p) k = annotation p k"
  by (simp add: annotation_def inject_gate_def)

lemma annotation_or_empty_inject [simp]:
  "annotation_or_empty (inject_gate p) k = annotation_or_empty p k"
  by (simp add: annotation_or_empty_def)

lemma Handle_patch_iff:
  "Handle decode marshal raw = PatchResponseFromRaw raw' m \<longleftrightarrow>
     raw' = raw \<and>
     (\<exists>p. decode raw = Inr p \<and> annotation_or_empty p AnnotationWarmupEnabled = WarmupEnabledValue \<and>
          \<not> gate_present p \<and> marshal (inject_gate p) = Inr m)"
  by (auto simp: Handle_def split: sum.splits)

section \<open>Properties\<close>


text \<open>
  C22. Admission is idempotent. When the decoder reads back what the encoder wrote, the webhook leaves
  the pod it has patched as it is: a second admission of the patched object is allowed without a
  patch.
\<close>

theorem Handle_idempotent:
  assumes decode_marshal: "\<And>p m. marshal p = Inr m \<Longrightarrow> decode m = Inr p"
    and patched: "Handle decode marshal raw = PatchResponseFromRaw raw m"
  shows "Handle decode marshal m = Allowed ''readiness gate already present''"
proof -
  from patched obtain p where p: "annotation_or_empty p AnnotationWarmupEnabled = WarmupEnabledValue"
      "marshal (inject_gate p) = Inr m"
    by (auto simp: Handle_patch_iff)
  from decode_marshal [OF p(2)] have "decode m = Inr (inject_gate p)" .
  with p(1) gate.has_add [of p] show ?thesis by (simp add: Handle_def)
qed

text \<open>A codec that stores exactly one pod, used to apply the property to a concrete pod.\<close>

definition sample_pod :: pod where
  "sample_pod =
     \<lparr>pod_Name = ''app-0'', pod_Namespace = ''default'',
      pod_Annotations = Some [AnnotationWarmupEnabled \<mapsto> WarmupEnabledValue],
      pod_ReadinessGates = [''other''],
      pod_Containers = [\<lparr>ctr_Name = ''app'', ctr_Ports = [8080]\<rparr>],
      pod_NodeName = ''node-1'', pod_Phase = ''Running'', pod_PodIP = ''10.0.0.7'',
      pod_Conditions = [], pod_ContainerStatuses = []\<rparr>"

definition sample_decode :: "string \<Rightarrow> unit + pod" where
  "sample_decode raw =
     (if raw = ''patched'' then Inr (inject_gate sample_pod)
      else if raw = ''original'' then Inr sample_pod else Inl ())"

definition sample_marshal :: "pod \<Rightarrow> unit + string" where
  "sample_marshal p =
     (if pod_ReadinessGates p = pod_ReadinessGates (inject_gate sample_pod) \<and>
         p = inject_gate sample_pod then Inr ''patched'' else Inl ())"

theorem Handle_idempotent_witness:
  "Handle sample_decode sample_marshal ''original'' = PatchResponseFromRaw ''original'' ''patched'' \<and>
   Handle sample_decode sample_marshal ''patched'' = Allowed ''readiness gate already present''"
proof -
  have c: "\<And>p m. sample_marshal p = Inr m \<Longrightarrow> sample_decode m = Inr p"
    by (auto simp: sample_marshal_def sample_decode_def split: if_splits)
  have p: "Handle sample_decode sample_marshal ''original'' =
      PatchResponseFromRaw ''original'' ''patched''"
    by (simp add: Handle_def sample_decode_def sample_marshal_def sample_pod_def inject_gate_def
        gate_present_def annotation_or_empty_def annotation_def go_const)
  from Handle_idempotent [of sample_marshal sample_decode, OF c p] p show ?thesis by blast
qed

end
