(* ===== verification/Go_Json.thy ===== *)
theory Go_Json
  imports Go_Time "HOL-Library.List_Lexorder" "HOL-Library.Char_ord"
begin

text \<open>
  Package \<^verbatim>\<open>encoding/json\<close> as the program uses it (\<^verbatim>\<open>json.Valid\<close> and \<^verbatim>\<open>json.Unmarshal\<close> into a
  \<^verbatim>\<open>map[string]any\<close>) and the text \<^verbatim>\<open>fmt.Sprintf("%v", x)\<close> prints for a decoded value. The parser
  follows RFC 8259 the way Go's scanner does; its fuel is the length of the text plus one, and
  \<open>json_value_fuel\<close> shows that more fuel changes nothing.
\<close>

section \<open>Values\<close>

text \<open>A number keeps its literal: \<open>json_float\<close> is the float64 it decodes to.\<close>

datatype json =
    JNull
  | JBool bool
  | JNum string
  | JStr string
  | JArr "json list"
  | JObj "(string \<times> json) list"

section \<open>UTF-8\<close>

definition byte :: "char \<Rightarrow> nat" where
  "byte c = of_char c"

definition byte_at :: "string \<Rightarrow> nat \<Rightarrow> nat" where
  "byte_at s i = (if i < length s then byte (s ! i) else 0)"

definition cont :: "nat \<Rightarrow> nat \<Rightarrow> nat \<Rightarrow> bool" where
  "cont lo hi b \<longleftrightarrow> lo \<le> b \<and> b \<le> hi"

text \<open>\<^verbatim>\<open>utf8.DecodeRune\<close>: the rune and its width; an invalid sequence is U+FFFD of width 1.\<close>

definition decode_rune :: "string \<Rightarrow> nat \<times> nat" where
  "decode_rune s =
     (let b0 = byte_at s 0; b1 = byte_at s 1; b2 = byte_at s 2; b3 = byte_at s 3
      in if b0 < 128 then (b0, 1)
         else if cont 194 223 b0 \<and> cont 128 191 b1 then ((b0 - 192) * 64 + (b1 - 128), 2)
         else if cont 224 239 b0 \<and> cont 128 191 b1 \<and> cont 128 191 b2 \<and>
                 (b0 = 224 \<longrightarrow> 160 \<le> b1) \<and> (b0 = 237 \<longrightarrow> b1 \<le> 159)
           then ((b0 - 224) * 4096 + (b1 - 128) * 64 + (b2 - 128), 3)
         else if cont 240 244 b0 \<and> cont 128 191 b1 \<and> cont 128 191 b2 \<and> cont 128 191 b3 \<and>
                 (b0 = 240 \<longrightarrow> 144 \<le> b1) \<and> (b0 = 244 \<longrightarrow> b1 \<le> 143)
           then ((b0 - 240) * 262144 + (b1 - 128) * 4096 + (b2 - 128) * 64 + (b3 - 128), 4)
         else (65533, 1))"

definition encode_rune :: "nat \<Rightarrow> string" where
  "encode_rune r =
     map char_of
       (if r < 128 then [r]
        else if r < 2048 then [192 + r div 64, 128 + r mod 64]
        else if r < 65536 then [224 + r div 4096, 128 + r div 64 mod 64, 128 + r mod 64]
        else [240 + r div 262144, 128 + r div 4096 mod 64, 128 + r div 64 mod 64, 128 + r mod 64])"

section \<open>Scanner\<close>

definition is_ws :: "char \<Rightarrow> bool" where
  "is_ws c \<longleftrightarrow> byte c = 32 \<or> byte c = 9 \<or> byte c = 13 \<or> byte c = 10"

definition skip_ws :: "string \<Rightarrow> string" where
  "skip_ws s = dropWhile is_ws s"

definition hex_val :: "char \<Rightarrow> nat option" where
  "hex_val c =
     (let b = byte c
      in if cont 48 57 b then Some (b - 48)
         else if cont 97 102 b then Some (b - 87)
         else if cont 65 70 b then Some (b - 55) else None)"

text \<open>\<^verbatim>\<open>getu4\<close>: the value of \<^verbatim>\<open>\uXXXX\<close> at the start of the text.\<close>

definition getu4 :: "string \<Rightarrow> nat option" where
  "getu4 s =
     (if length s < 6 \<or> byte_at s 0 \<noteq> 92 \<or> byte_at s 1 \<noteq> 117 then None
      else case (hex_val (s ! 2), hex_val (s ! 3), hex_val (s ! 4), hex_val (s ! 5)) of
        (Some a, Some b, Some c, Some d) \<Rightarrow> Some (a * 4096 + b * 256 + c * 16 + d)
      | _ \<Rightarrow> None)"

text \<open>The text up to the closing quote, with its escapes checked but not decoded.\<close>

function scan_string :: "string \<Rightarrow> (string \<times> string) option" where
  "scan_string s =
     (if s = [] then None
      else if byte (hd s) = 34 then Some ([], tl s)
      else if byte (hd s) < 32 then None
      else if byte (hd s) = 92 then
        (if getu4 s \<noteq> None
         then map_option (\<lambda>(a, r). (take 6 s @ a, r)) (scan_string (drop 6 s))
         else if length s \<ge> 2 \<and> s ! 1 \<in> set ''bfnrt/'' \<union> {CHR 92, CHR 34}
         then map_option (\<lambda>(a, r). (take 2 s @ a, r)) (scan_string (drop 2 s))
         else None)
      else map_option (\<lambda>(a, r). (hd s # a, r)) (scan_string (tl s)))"
  by pat_completeness auto
termination
  by (relation "measure length") auto

declare scan_string.simps [simp del]

definition simple_escape :: "char \<Rightarrow> char" where
  "simple_escape c =
     (if c = CHR ''b'' then CHR 8 else if c = CHR ''f'' then CHR 12
      else if c = CHR ''n'' then CHR 10 else if c = CHR ''r'' then CHR 13
      else if c = CHR ''t'' then CHR 9 else c)"

text \<open>
  \<^verbatim>\<open>unquote\<close>: surrogate pairs are joined, a lone surrogate and an invalid byte become U+FFFD.
\<close>

function unquote :: "string \<Rightarrow> string" where
  "unquote s =
     (if s = [] then []
      else if byte (hd s) = 92 then
        (case getu4 s of
           Some r \<Rightarrow>
             (if cont 55296 57343 r then
                (case getu4 (drop 6 s) of
                   Some r2 \<Rightarrow>
                     (if cont 55296 56319 r \<and> cont 56320 57343 r2
                      then encode_rune ((r - 55296) * 1024 + (r2 - 56320) + 65536) @
                           unquote (drop 12 s)
                      else encode_rune 65533 @ unquote (drop 6 s))
                 | None \<Rightarrow> encode_rune 65533 @ unquote (drop 6 s))
              else encode_rune r @ unquote (drop 6 s))
         | None \<Rightarrow> simple_escape (char_of (byte_at s 1)) # unquote (drop 2 s))
      else let (r, w) = decode_rune s in encode_rune r @ unquote (drop (max 1 w) s))"
  by pat_completeness auto
termination
  by (relation "measure length") auto

declare unquote.simps [simp del]


text \<open>\<^verbatim>\<open>-?(0|[1-9][0-9]*)(\.[0-9]+)?([eE][+-]?[0-9]+)?\<close>: the parts of the literal and the rest.\<close>

record num_lit =
  nl_neg :: bool
  nl_int :: string
  nl_frac :: string
  nl_exp_neg :: bool
  nl_exp :: string

definition scan_int :: "string \<Rightarrow> (string \<times> string) option" where
  "scan_int s =
     (if s = [] \<or> \<not> is_digit (hd s) then None
      else if hd s = CHR ''0'' then Some (''0'', tl s)
      else Some (takeWhile is_digit s, dropWhile is_digit s))"

definition scan_frac :: "string \<Rightarrow> (string \<times> string) option" where
  "scan_frac s =
     (if s \<noteq> [] \<and> hd s = CHR ''.'' then
        (if takeWhile is_digit (tl s) = [] then None
         else Some (takeWhile is_digit (tl s), dropWhile is_digit (tl s)))
      else Some ([], s))"

definition scan_exp :: "string \<Rightarrow> ((bool \<times> string) \<times> string) option" where
  "scan_exp s =
     (if s \<noteq> [] \<and> (hd s = CHR ''e'' \<or> hd s = CHR ''E'') then
        (let t = tl s;
             neg = (t \<noteq> [] \<and> hd t = CHR ''-'');
             u = (if t \<noteq> [] \<and> (hd t = CHR ''+'' \<or> hd t = CHR ''-'') then tl t else t)
         in if takeWhile is_digit u = [] then None
            else Some ((neg, takeWhile is_digit u), dropWhile is_digit u))
      else Some ((False, []), s))"

definition scan_number :: "string \<Rightarrow> (num_lit \<times> string) option" where
  "scan_number s =
     (let neg = (s \<noteq> [] \<and> hd s = CHR ''-''); s1 = (if neg then tl s else s)
      in case scan_int s1 of
           None \<Rightarrow> None
         | Some (i, s2) \<Rightarrow>
             (case scan_frac s2 of
                None \<Rightarrow> None
              | Some (f, s3) \<Rightarrow>
                  (case scan_exp s3 of
                     None \<Rightarrow> None
                   | Some ((eneg, ed), s4) \<Rightarrow>
                       Some (\<lparr>nl_neg = neg, nl_int = i, nl_frac = f, nl_exp_neg = eneg,
                               nl_exp = ed\<rparr>, s4))))"

section \<open>Parser\<close>

definition expect :: "char \<Rightarrow> string \<Rightarrow> string option" where
  "expect c s = (case skip_ws s of [] \<Rightarrow> None | d # r \<Rightarrow> if d = c then Some r else None)"

fun json_value :: "nat \<Rightarrow> string \<Rightarrow> (json \<times> string) option"
and json_elems :: "nat \<Rightarrow> string \<Rightarrow> (json list \<times> string) option"
and json_members :: "nat \<Rightarrow> string \<Rightarrow> ((string \<times> json) list \<times> string) option" where
  "json_value 0 s = None"
| "json_value (Suc n) s =
     (let t = skip_ws s
      in if t = [] then None
         else if hd t = CHR 123 then
           (case expect (CHR 125) (tl t) of
              Some r \<Rightarrow> Some (JObj [], r)
            | None \<Rightarrow> map_option (\<lambda>(ms, r). (JObj ms, r)) (json_members n (tl t)))
         else if hd t = CHR 91 then
           (case expect (CHR 93) (tl t) of
              Some r \<Rightarrow> Some (JArr [], r)
            | None \<Rightarrow> map_option (\<lambda>(vs, r). (JArr vs, r)) (json_elems n (tl t)))
         else if hd t = CHR 34 then
           map_option (\<lambda>(raw, r). (JStr (unquote raw), r)) (scan_string (tl t))
         else if take 4 t = ''true'' then Some (JBool True, drop 4 t)
         else if take 5 t = ''false'' then Some (JBool False, drop 5 t)
         else if take 4 t = ''null'' then Some (JNull, drop 4 t)
         else map_option (\<lambda>(_, r). (JNum (take (length t - length r) t), r)) (scan_number t))"
| "json_elems 0 s = None"
| "json_elems (Suc n) s =
     (case json_value n s of
        None \<Rightarrow> None
      | Some (v, r) \<Rightarrow>
          (case expect (CHR 44) r of
             Some r' \<Rightarrow> map_option (\<lambda>(vs, q). (v # vs, q)) (json_elems n r')
           | None \<Rightarrow> map_option (\<lambda>q. ([v], q)) (expect (CHR 93) r)))"
| "json_members 0 s = None"
| "json_members (Suc n) s =
     (case Option.bind (expect (CHR 34) s) scan_string of
        None \<Rightarrow> None
      | Some (raw, r) \<Rightarrow>
          (case Option.bind (expect (CHR 58) r) (json_value n) of
             None \<Rightarrow> None
           | Some (v, r1) \<Rightarrow>
               (case expect (CHR 44) r1 of
                  Some r2 \<Rightarrow>
                    map_option (\<lambda>(ms, q). ((unquote raw, v) # ms, q)) (json_members n r2)
                | None \<Rightarrow> map_option (\<lambda>q. ([(unquote raw, v)], q)) (expect (CHR 125) r1))))"

text \<open>Go's scanner refuses texts nested deeper than 10000.\<close>

fun json_depth :: "json \<Rightarrow> nat" where
  "json_depth (JArr vs) = Suc (fold max (map json_depth vs) 0)"
| "json_depth (JObj ms) = Suc (fold max (map (\<lambda>(k, v). json_depth v) ms) 0)"
| "json_depth _ = 0"

definition json_parse :: "string \<Rightarrow> json option" where
  "json_parse s =
     (case json_value (2 * length s + 2) s of
        Some (v, r) \<Rightarrow> if skip_ws r = [] \<and> json_depth v \<le> 10000 then Some v else None
      | None \<Rightarrow> None)"

definition json_Valid :: "string \<Rightarrow> bool" where
  "json_Valid s \<longleftrightarrow> json_parse s \<noteq> None"

section \<open>Numbers\<close>

fun digits_val :: "string \<Rightarrow> int \<Rightarrow> int" where
  "digits_val [] n = n"
| "digits_val (c # cs) n = digits_val cs (n * 10 + digit_val c)"

definition pow10 :: "int \<Rightarrow> rat" where
  "pow10 e = (if 0 \<le> e then 10 ^ nat e else 1 / 10 ^ nat (- e))"

text \<open>The float64 nearest to the absolute value of the literal.\<close>

definition num_abs :: "num_lit \<Rightarrow> rat" where
  "num_abs l =
     (let e = digits_val (nl_exp l) 0; e' = (if nl_exp_neg l then - e else e)
      in rnd64 (of_int (digits_val (nl_int l @ nl_frac l) 0) * pow10 (e' - int (length (nl_frac l)))))"

text \<open>\<^verbatim>\<open>strconv.ParseFloat\<close> reports a range error when the value rounds to \<open>2^1024\<close> or more.\<close>

definition num_in_range :: "num_lit \<Rightarrow> bool" where
  "num_in_range l \<longleftrightarrow> num_abs l < pow2 1024"

fun json_nums_ok :: "json \<Rightarrow> bool" where
  "json_nums_ok (JNum s) =
     (case scan_number s of None \<Rightarrow> False | Some (l, r) \<Rightarrow> num_in_range l)"
| "json_nums_ok (JArr vs) = list_all json_nums_ok vs"
| "json_nums_ok (JObj ms) = list_all (\<lambda>(k, v). json_nums_ok v) ms"
| "json_nums_ok _ = True"

section \<open>json.Unmarshal into a map\<close>

text \<open>
  The members of the object, the last of several equal keys winning; \<^verbatim>\<open>null\<close> leaves the nil map, in
  which no key is found. Any other top-level value is a type error.
\<close>

definition unmarshal_map :: "string \<Rightarrow> (string \<times> json) list option" where
  "unmarshal_map body =
     (case json_parse body of
        Some (JObj ms) \<Rightarrow> if json_nums_ok (JObj ms) then Some ms else None
      | Some JNull \<Rightarrow> Some []
      | _ \<Rightarrow> None)"

definition obj_lookup :: "(string \<times> json) list \<Rightarrow> string \<Rightarrow> json option" where
  "obj_lookup ms k = map_of (rev ms) k"

section \<open>The text of a value\<close>

text \<open>The greatest \<open>x\<close> with \<open>10^x \<le> q\<close>, searched from an estimate.\<close>

definition log10_of :: "rat \<Rightarrow> int" where
  "log10_of q =
     (let x = exp2_of q * 30103 div 100000
      in if pow10 (x + 1) \<le> q then x + 1 else if pow10 x \<le> q then x else x - 1)"

text \<open>
  The shortest digits that read back as the same float64: digits (without trailing zeros, since a
  shorter string was tried first) and the decimal exponent of the first digit. Seventeen digits
  always suffice for a float64.
\<close>

definition digits_k :: "rat \<Rightarrow> int \<Rightarrow> nat \<Rightarrow> int" where
  "digits_k q x k = half_even (q * pow10 (int k - 1 - x))"

fun shortest :: "rat \<Rightarrow> int \<Rightarrow> nat \<Rightarrow> nat \<Rightarrow> int \<times> nat" where
  "shortest q x k 0 = (digits_k q x k, k)"
| "shortest q x k (Suc n) =
     (if rnd64 (of_int (digits_k q x k) * pow10 (x - int k + 1)) = q then (digits_k q x k, k)
      else shortest q x (Suc k) n)"

definition pad2 :: "nat \<Rightarrow> string" where
  "pad2 n = (if n < 10 then CHR ''0'' # dec_nat n else dec_nat n)"

text \<open>
  The format \<^verbatim>\<open>%g\<close> with the shortest digits: the exponent form is used when the decimal
  exponent is below \<open>-4\<close> or at least 6 (\<^verbatim>\<open>strconv\<close> takes 6 when the digits are the shortest ones).
\<close>

definition fmt_abs :: "rat \<Rightarrow> string" where
  "fmt_abs q =
     (if q = 0 then ''0''
      else let (d0, k0) = shortest q (log10_of q) 1 16;
               carry = (d0 = 10 ^ k0);
               ds = (if carry then ''1'' else dec_int d0);
               x = log10_of q + (if carry then 1 else 0);
               nd = length ds
           in if x < - 4 \<or> 6 \<le> x then
                hd ds # (if nd > 1 then CHR ''.'' # tl ds else []) @ ''e'' @
                (if x < 0 then ''-'' else ''+'') @ pad2 (nat \<bar>x\<bar>)
              else if x < 0 then ''0.'' @ replicate (nat (- x - 1)) (CHR ''0'') @ ds
              else if nd \<le> nat x + 1 then ds @ replicate (nat x + 1 - nd) (CHR ''0'')
              else take (nat x + 1) ds @ ''.'' @ drop (nat x + 1) ds)"

definition fmt_num :: "string \<Rightarrow> string" where
  "fmt_num s =
     (case scan_number s of
        None \<Rightarrow> []
      | Some (l, r) \<Rightarrow> (if nl_neg l then ''-'' else []) @ fmt_abs (num_abs l))"

fun join_with :: "string \<Rightarrow> string list \<Rightarrow> string" where
  "join_with sep [] = []"
| "join_with sep [x] = x"
| "join_with sep (x # xs) = x @ sep @ join_with sep xs"

text \<open>\<^verbatim>\<open>fmt.Sprintf("%v", x)\<close>; the entries of a map are printed in the order of their keys.\<close>

fun fmt_v :: "json \<Rightarrow> string" where
  "fmt_v JNull = ''<nil>''"
| "fmt_v (JBool b) = (if b then ''true'' else ''false'')"
| "fmt_v (JNum s) = fmt_num s"
| "fmt_v (JStr s) = s"
| "fmt_v (JArr vs) = ''['' @ join_with '' '' (map fmt_v vs) @ '']''"
| "fmt_v (JObj ms) =
     (let texts = rev (map (\<lambda>(k, v). (k, fmt_v v)) ms);
          entry = (\<lambda>k. k @ '':'' @ (case map_of texts k of None \<Rightarrow> [] | Some t \<Rightarrow> t))
      in ''map['' @ join_with '' '' (map entry (sort (remdups (map fst ms)))) @ '']'')"

section \<open>The fuel of the parser suffices\<close>

lemma skip_ws_length: "length (skip_ws s) \<le> length s"
  by (simp add: skip_ws_def length_dropWhile_le)

lemma expect_length: "expect c s = Some r \<Longrightarrow> length r < length s"
  using skip_ws_length [of s] by (auto simp: expect_def split: list.splits if_splits)

lemma scan_string_length: "scan_string s = Some (a, r) \<Longrightarrow> length r < length s"
proof (induction s arbitrary: a rule: scan_string.induct)
  case (1 s)
  show ?case
  proof (cases "s = [] \<or> byte (hd s) = 34 \<or> byte (hd s) < 32")
    case True
    with "1.prems" show ?thesis
      by (subst (asm) scan_string.simps) (auto split: if_splits)
  next
    case False
    have shorter: "length r < length (drop k s) \<Longrightarrow> length r < length s" for k by simp
    from False "1.prems" consider
        (u4) a' where "byte (hd s) = 92" "getu4 s \<noteq> None" "scan_string (drop 6 s) = Some (a', r)"
      | (esc) a' where "byte (hd s) = 92" "getu4 s = None"
          "length s \<ge> 2 \<and> s ! 1 \<in> set ''bfnrt/'' \<union> {CHR 92, CHR 34}"
          "scan_string (drop 2 s) = Some (a', r)"
      | (plain) a' where "byte (hd s) \<noteq> 92" "scan_string (drop 1 s) = Some (a', r)"
      by (subst (asm) scan_string.simps) (auto split: if_splits simp: drop_Suc)
    then show ?thesis
    proof cases
      case u4
      with "1.IH"(1) False have "length r < length (drop 6 s)" by auto
      then show ?thesis by (rule shorter)
    next
      case esc
      with "1.IH"(2) False have "length r < length (drop 2 s)" by auto
      then show ?thesis by (rule shorter)
    next
      case plain
      with "1.IH"(3) False have "length r < length (drop 1 s)" by (auto simp: drop_Suc)
      then show ?thesis by (rule shorter)
    qed
  qed
qed

lemma length_dropWhile_tl: "length (dropWhile P (tl s)) \<le> length s"
  using length_dropWhile_le [of P "tl s"] by simp

lemma scan_int_length: "scan_int s = Some (i, r) \<Longrightarrow> length r < length s"
  by (cases s) (auto simp: scan_int_def le_imp_less_Suc [OF length_dropWhile_le] split: if_splits)

lemma scan_frac_length: "scan_frac s = Some (f, r) \<Longrightarrow> length r \<le> length s"
  by (auto simp: scan_frac_def length_dropWhile_tl split: if_splits)

lemma scan_exp_length: "scan_exp s = Some (e, r) \<Longrightarrow> length r \<le> length s"
  using length_dropWhile_tl [of is_digit "tl s"] length_dropWhile_tl [of is_digit s]
  by (auto simp: scan_exp_def Let_def split: if_splits)

lemma scan_number_length: "scan_number s = Some (l, r) \<Longrightarrow> length r < length s"
  by (fastforce simp: scan_number_def Let_def split: option.splits if_splits
      dest: scan_int_length scan_frac_length scan_exp_length)

lemma json_rest_length:
  "json_value n s = Some (v, r) \<Longrightarrow> length r < length s"
  "json_elems n s = Some (vs, r) \<Longrightarrow> length r < length s"
  "json_members n s = Some (ms, r) \<Longrightarrow> length r < length s"
proof (induction n s and n s and n s arbitrary: v r and vs r and ms r
    rule: json_value_json_elems_json_members.induct)
  case (2 n s)
  have t: "length (skip_ws s) \<le> length s" by (rule skip_ws_length)
  have tt: "skip_ws s \<noteq> [] \<Longrightarrow> length (tl (skip_ws s)) < length s"
    using t by (cases "skip_ws s") auto
  have dk: "take k (skip_ws s) = k' \<Longrightarrow> k' \<noteq> [] \<Longrightarrow> 0 < k \<Longrightarrow>
      length (drop k (skip_ws s)) < length s" for k k'
    using t by (cases "skip_ws s") auto
  have M: "length r < length (tl (skip_ws s))"
    if "skip_ws s \<noteq> []" "hd (skip_ws s) = CHR 123" "expect (CHR 125) (tl (skip_ws s)) = None"
       "json_members n (tl (skip_ws s)) = Some (ms, r)" for ms r
    using that "2.IH"(1) by auto
  have E: "length r < length (tl (skip_ws s))"
    if "skip_ws s \<noteq> []" "hd (skip_ws s) = CHR 91" "expect (CHR 93) (tl (skip_ws s)) = None"
       "json_elems n (tl (skip_ws s)) = Some (vs, r)" for vs r
    using that "2.IH"(2) by auto
  from "2.prems" show ?case
    by (auto simp: Let_def split: if_splits option.splits
        dest: less_trans [OF M tt] less_trans [OF E tt]
        dest!: scan_string_length expect_length scan_number_length
        dest: less_trans [OF _ tt] less_le_trans [OF _ t] dk)
next
  case (4 n s)
  then show ?case
    by (auto split: option.splits if_splits dest!: expect_length) fastforce+
next
  case (6 n s)
  from "6.prems" obtain raw q q' w r1 where
      key: "expect (CHR 34) s = Some q" "scan_string q = Some (raw, q')"
    and val: "Option.bind (expect (CHR 58) q') (json_value n) = Some (w, r1)"
    and rest: "expect (CHR 125) r1 = Some r \<or>
      (\<exists>r2 ms'. expect (CHR 44) r1 = Some r2 \<and> json_members n r2 = Some (ms', r))"
    by (auto simp: bind_eq_Some_conv split: option.splits)
  have bound: "Option.bind (expect (CHR 34) s) scan_string = Some (raw, q')" using key by simp
  from val obtain q'' where q'': "expect (CHR 58) q' = Some q''" "json_value n q'' = Some (w, r1)"
    by (auto simp: bind_eq_Some_conv)
  have "length r1 < length q''" using "6.IH"(1) [OF bound] q'' by blast
  then have r1: "length r1 < length s"
    using expect_length [OF key(1)] scan_string_length [OF key(2)] expect_length [OF q''(1)] by simp
  from rest show ?case
  proof
    assume "expect (CHR 125) r1 = Some r"
    with r1 show ?thesis using expect_length by fastforce
  next
    assume "\<exists>r2 ms'. expect (CHR 44) r1 = Some r2 \<and> json_members n r2 = Some (ms', r)"
    then obtain r2 ms' where r2: "expect (CHR 44) r1 = Some r2" "json_members n r2 = Some (ms', r)"
      by blast
    have "length r < length r2" using "6.IH"(2) [OF bound _ val] r2 by blast
    with expect_length [OF r2(1)] r1 show ?thesis by simp
  qed
qed auto

lemma json_fuel_step:
  "2 * length s < n \<Longrightarrow> json_value (Suc n) s = json_value n s"
  "2 * length s + 1 < n \<Longrightarrow> json_elems (Suc n) s = json_elems n s"
  "2 * length s + 1 < n \<Longrightarrow> json_members (Suc n) s = json_members n s"
proof (induction n s and n s and n s rule: json_value_json_elems_json_members.induct)
  case (2 n s)
  have len: "skip_ws s \<noteq> [] \<Longrightarrow> 2 * length (tl (skip_ws s)) + 1 < n"
    using "2.prems" skip_ws_length [of s] by (cases "skip_ws s") auto
  have M: "json_members (Suc n) (tl (skip_ws s)) = json_members n (tl (skip_ws s))"
    if "skip_ws s \<noteq> []" "hd (skip_ws s) = CHR 123" "expect (CHR 125) (tl (skip_ws s)) = None"
    using that "2.IH"(1) len by auto
  have E: "json_elems (Suc n) (tl (skip_ws s)) = json_elems n (tl (skip_ws s))"
    if "skip_ws s \<noteq> []" "hd (skip_ws s) = CHR 91" "expect (CHR 93) (tl (skip_ws s)) = None"
    using that "2.IH"(2) len by auto
  show ?case
    unfolding json_value.simps(2) [of "Suc n"] json_value.simps(2) [of n] Let_def
    using M E by (auto split: option.splits)
next
  case (4 n s)
  have V: "json_value (Suc n) s = json_value n s" using "4.IH"(1) "4.prems" by simp
  have E: "json_elems (Suc n) r' = json_elems n r'"
    if "json_value n s = Some (v, r)" "expect (CHR 44) r = Some r'" for v r r'
  proof -
    have "length r' + 2 \<le> length s"
      using json_rest_length(1) [OF that(1)] expect_length [OF that(2)] by simp
    with that "4.IH"(2) "4.prems" show ?thesis by simp
  qed
  show ?case
    unfolding json_elems.simps(2) [of "Suc n"] json_elems.simps(2) [of n] V
    using E by (auto split: option.splits)
next
  case (6 n s)
  have V: "json_value (Suc n) q = json_value n q"
    if "Option.bind (expect (CHR 34) s) scan_string = Some (raw, r)" "expect (CHR 58) r = Some q"
    for raw r q
  proof -
    have "length q < length s"
      using that by (auto simp: bind_eq_Some_conv dest!: expect_length scan_string_length)
    with that "6.IH"(1) "6.prems" show ?thesis by simp
  qed
  have M: "json_members (Suc n) r2 = json_members n r2"
    if "Option.bind (expect (CHR 34) s) scan_string = Some (raw, r)"
       "Option.bind (expect (CHR 58) r) (json_value n) = Some (v, r1)" "expect (CHR 44) r1 = Some r2"
    for raw r v r1 r2
  proof -
    have "length r2 + 2 \<le> length s"
      using that
      by (auto simp: bind_eq_Some_conv dest!: expect_length scan_string_length json_rest_length(1))
    with that "6.IH"(2) "6.prems" show ?thesis by simp
  qed
  have B: "Option.bind (expect (CHR 58) r) (json_value (Suc n)) =
      Option.bind (expect (CHR 58) r) (json_value n)"
    if "Option.bind (expect (CHR 34) s) scan_string = Some (raw, r)" for raw r
    using V [OF that] by (cases "expect (CHR 58) r") auto
  show ?case
    unfolding json_members.simps(2) [of "Suc n"] json_members.simps(2) [of n]
    using B M by (auto split: option.splits)
qed auto

text \<open>More fuel than \<open>json_parse\<close> gives never changes what the parser returns.\<close>

lemma json_value_fuel: "json_value (2 * length s + 2 + k) s = json_value (2 * length s + 2) s"
  by (induction k) (simp_all only: add_0_right add_Suc_right, subst json_fuel_step(1), simp_all)

end
