(* ===== verification/Go_Fmt.thy ===== *)
theory Go_Fmt
  imports Go_Json
begin

text \<open>
  The texts the program prints: \<^verbatim>\<open>%v\<close> of a duration, \<^verbatim>\<open>%q\<close> of a string, \<^verbatim>\<open>%.1f%%\<close> of a
  success rate, \<^verbatim>\<open>Duration.Round\<close>, and \<^verbatim>\<open>net.SplitHostPort\<close>, which reads the addresses the
  program prints back when they are dialled.
\<close>

section \<open>Durations\<close>

definition pad_left :: "nat \<Rightarrow> string \<Rightarrow> string" where
  "pad_left n s = replicate (n - length s) (CHR ''0'') @ s"

definition trim_zeros :: "string \<Rightarrow> string" where
  "trim_zeros s = rev (dropWhile (\<lambda>c. c = CHR ''0'') (rev s))"

text \<open>\<^verbatim>\<open>fmtFrac\<close>: the point and the digits of \<open>u / 10^prec\<close>, trailing zeros left out.\<close>

definition fmtFrac :: "int \<Rightarrow> nat \<Rightarrow> string" where
  "fmtFrac u prec =
     (let ds = trim_zeros (pad_left prec (dec_int (u mod 10 ^ prec)))
      in if ds = [] then [] else CHR ''.'' # ds)"

definition dur_abs_String :: "int \<Rightarrow> string" where
  "dur_abs_String u =
     (if u = 0 then ''0s''
      else if u < 1000 then dec_int u @ ''ns''
      else if u < Millisecond then
        dec_int (u div 1000) @ fmtFrac u 3 @ [CHR 0xC2, CHR 0xB5, CHR ''s'']
      else if u < Second then dec_int (u div Millisecond) @ fmtFrac u 6 @ ''ms''
      else let secs = u div Second; mins = secs div 60; hours = mins div 60
           in (if hours > 0 then dec_int hours @ ''h'' else []) @
              (if mins > 0 then dec_int (mins mod 60) @ ''m'' else []) @
              dec_int (secs mod 60) @ fmtFrac u 9 @ ''s'')"

definition dur_String :: "duration \<Rightarrow> string" where
  "dur_String d = (if d < 0 then CHR ''-'' # dur_abs_String (- d) else dur_abs_String d)"

text \<open>\<^verbatim>\<open>d.Round(m)\<close> for \<open>m > 0\<close>, halves away from zero, the extreme duration when that overflows.\<close>

definition dur_Round :: "duration \<Rightarrow> duration \<Rightarrow> duration" where
  "dur_Round d m =
     (let r = \<bar>d\<bar> mod m
      in if d < 0
         then if r + r < m then d + r else if in_int64 (d - m + r) then d - m + r else min_int64
         else if r + r < m then d - r else if in_int64 (d + m - r) then d + m - r else max_int64)"

section \<open>Quoted strings\<close>

definition hex_digit :: "nat \<Rightarrow> char" where
  "hex_digit n = char_of (if n < 10 then 48 + n else 87 + n)"

fun hex_digits :: "nat \<Rightarrow> nat \<Rightarrow> string" where
  "hex_digits 0 n = []"
| "hex_digits (Suc k) n = hex_digits k (n div 16) @ [hex_digit (n mod 16)]"

text \<open>
  \<^verbatim>\<open>strconv.Quote\<close>. Which code points above U+00FF print is a table of the Unicode database, the
  parameter \<open>wide_print\<close>.
\<close>

definition rune_print :: "(nat \<Rightarrow> bool) \<Rightarrow> nat \<Rightarrow> bool" where
  "rune_print wide_print r \<longleftrightarrow>
     (if r \<le> 255 then cont 32 126 r \<or> 161 \<le> r \<and> r \<noteq> 173 else wide_print r)"

definition quote_rune :: "(nat \<Rightarrow> bool) \<Rightarrow> nat \<Rightarrow> string" where
  "quote_rune wide_print r =
     (if r = 34 \<or> r = 92 then [CHR 92, char_of r]
      else if rune_print wide_print r then encode_rune r
      else if r = 7 then [CHR 92, CHR ''a''] else if r = 8 then [CHR 92, CHR ''b'']
      else if r = 12 then [CHR 92, CHR ''f''] else if r = 10 then [CHR 92, CHR ''n'']
      else if r = 13 then [CHR 92, CHR ''r''] else if r = 9 then [CHR 92, CHR ''t'']
      else if r = 11 then [CHR 92, CHR ''v'']
      else if r < 32 \<or> r = 127 then [CHR 92, CHR ''x''] @ hex_digits 2 r
      else if r < 65536 then [CHR 92, CHR ''u''] @ hex_digits 4 r
      else [CHR 92, CHR ''U''] @ hex_digits 8 r)"

function quote_body :: "(nat \<Rightarrow> bool) \<Rightarrow> string \<Rightarrow> string" where
  "quote_body wp s =
     (if s = [] then []
      else let (r, w) = decode_rune s
           in if w = 1 \<and> r = 65533 then [CHR 92, CHR ''x''] @ hex_digits 2 (byte (hd s)) @ quote_body wp (tl s)
              else quote_rune wp r @ quote_body wp (drop (max 1 w) s))"
  by pat_completeness auto
termination
  by (relation "measure (\<lambda>(wp, s). length s)") auto

declare quote_body.simps [simp del]

definition Quote :: "(nat \<Rightarrow> bool) \<Rightarrow> string \<Rightarrow> string" where
  "Quote wide_print s = CHR 34 # quote_body wide_print s @ [CHR 34]"

section \<open>Percentages\<close>

text \<open>
  \<^verbatim>\<open>float64(a) / float64(b) * 100\<close> for counts that are not negative, and its text with one decimal
  (the exact value of the float rounded half to even, as \<^verbatim>\<open>strconv\<close> does). \<open>fmt_rate\<close> is the text for all
  ints: division by zero gives an infinity or NaN, and a negative quotient (also of zero) has a sign.
\<close>

definition percent64 :: "int \<Rightarrow> int \<Rightarrow> rat" where
  "percent64 a b = rnd64 (rnd64 (rnd64 (of_int a) / rnd64 (of_int b)) * 100)"

definition fmt_1f :: "rat \<Rightarrow> string" where
  "fmt_1f q = (let t = half_even (q * 10) in dec_int (t div 10) @ ''.'' @ dec_int (t mod 10))"

definition fmt_rate :: "int \<Rightarrow> int \<Rightarrow> string" where
  "fmt_rate a b =
     (if b = 0 then (if a = 0 then ''NaN'' else if a > 0 then ''+Inf'' else ''-Inf'')
      else (if (a < 0) \<noteq> (b < 0) then ''-'' else []) @ fmt_1f (percent64 \<bar>a\<bar> \<bar>b\<bar>))"

section \<open>net.SplitHostPort\<close>

datatype addr_error = MissingPort | TooManyColons | UnexpectedBracket

text \<open>The case of an address without brackets, which are the only ones the program prints.\<close>

definition SplitHostPort :: "string \<Rightarrow> addr_error + (string \<times> string)" where
  "SplitHostPort hp =
     (case LastIndexByte hp (CHR '':'') of
        None \<Rightarrow> Inl MissingPort
      | Some i \<Rightarrow>
          if CHR '':'' \<in> set (take i hp) then Inl TooManyColons
          else if CHR ''['' \<in> set hp \<or> CHR '']'' \<in> set hp then Inl UnexpectedBracket
          else Inr (take i hp, drop (Suc i) hp))"

end
