(* ===== verification/Config.thy ===== *)
theory Config
  imports Webhook Go_Fmt
begin

text \<open>
  Warmup configuration (pkg/warmup/config.go and parseGRPCMethod of pkg/warmup/grpc_sender.go): the
  annotations of a pod are read one after the other, the first bad one ends the parse with an error
  and the configuration read so far. Each stage of \<^verbatim>\<open>ParseConfig\<close> is one definition; they are
  chained by \<open>and_then\<close>, which is the early return.
\<close>

section \<open>Constants and types\<close>

definition DefaultRequestCount :: int where [go_const]: "DefaultRequestCount = 3"
definition MaxRequestCount :: int where [go_const]: "MaxRequestCount = 12000"
definition DefaultTimeout :: duration where [go_const]: "DefaultTimeout = 30 * Second"
definition MaxTimeout :: duration where [go_const]: "MaxTimeout = 5 * Minute"
definition DefaultEndpointPath :: string where [go_const]: "DefaultEndpointPath = ''/''"
definition ProtocolHTTP :: string where [go_const]: "ProtocolHTTP = ''http''"
definition ProtocolGRPC :: string where [go_const]: "ProtocolGRPC = ''grpc''"
definition DefaultGRPCPayload :: string where [go_const]: "DefaultGRPCPayload = ''{}''"

record config =
  cfg_Endpoint :: string
  cfg_RequestCount :: int
  cfg_Timeout :: duration
  cfg_PodIP :: string
  cfg_PodName :: string
  cfg_PodNamespace :: string
  cfg_Port :: int
  cfg_Protocol :: string
  cfg_GRPCMethod :: string
  cfg_GRPCPayload :: string
  cfg_WarmupConfigName :: string

datatype cfg_error =
    PodIsNil
  | InvalidRequests string num_error
  | RequestsTooFew int
  | RequestsTooMany int
  | InvalidTimeout string dur_error
  | TimeoutTooShort duration
  | TimeoutTooLong duration
  | InvalidProtocol string
  | InvalidGRPCMethod string
  | InvalidGRPCPayload
  | GRPCMethodRequired
  | InvalidPort string num_error
  | PortOutOfRange int
  | MultiplePorts string
  | MultipleContainers
  | NoPortFound

section \<open>parseGRPCMethod\<close>

text \<open>\<open>None\<close> is the error "invalid gRPC method".\<close>

definition parseGRPCMethod :: "string \<Rightarrow> (string \<times> string) option" where
  "parseGRPCMethod fullMethod =
     (case LastIndexByte fullMethod (CHR ''/'') of
        None \<Rightarrow> None
      | Some idx \<Rightarrow>
          if idx = 0 \<or> idx = length fullMethod - 1 then None
          else Some (take idx fullMethod, drop (idx + 1) fullMethod))"

section \<open>ParseConfig\<close>

type_synonym parse_result = "config \<times> cfg_error option"

fun and_then :: "parse_result \<Rightarrow> (config \<Rightarrow> parse_result) \<Rightarrow> parse_result" where
  "and_then (c, None) f = f c"
| "and_then (c, Some e) f = (c, Some e)"

definition default_config :: config where
  "default_config =
     \<lparr>cfg_Endpoint = DefaultEndpointPath, cfg_RequestCount = DefaultRequestCount,
      cfg_Timeout = DefaultTimeout, cfg_PodIP = [], cfg_PodName = [], cfg_PodNamespace = [],
      cfg_Port = 0, cfg_Protocol = ProtocolHTTP, cfg_GRPCMethod = [],
      cfg_GRPCPayload = DefaultGRPCPayload, cfg_WarmupConfigName = []\<rparr>"

definition parse_endpoint :: "pod \<Rightarrow> config \<Rightarrow> parse_result" where
  "parse_endpoint p c =
     (case annotation_set p AnnotationWarmupEndpoint of
        None \<Rightarrow> (c, None)
      | Some endpoint \<Rightarrow> (c\<lparr>cfg_Endpoint := endpoint\<rparr>, None))"

definition parse_requests :: "pod \<Rightarrow> config \<Rightarrow> parse_result" where
  "parse_requests p c =
     (case annotation_set p AnnotationWarmupRequests of
        None \<Rightarrow> (c, None)
      | Some s \<Rightarrow>
          (case Atoi s of
             Inl err \<Rightarrow> (c, Some (InvalidRequests s err))
           | Inr reqCount \<Rightarrow>
               if reqCount < 1 then (c, Some (RequestsTooFew reqCount))
               else if reqCount > MaxRequestCount then (c, Some (RequestsTooMany reqCount))
               else (c\<lparr>cfg_RequestCount := reqCount\<rparr>, None)))"

definition parse_timeout :: "pod \<Rightarrow> config \<Rightarrow> parse_result" where
  "parse_timeout p c =
     (case annotation_set p AnnotationWarmupTimeout of
        None \<Rightarrow> (c, None)
      | Some s \<Rightarrow>
          (case ParseDuration s of
             Inl err \<Rightarrow> (c, Some (InvalidTimeout s err))
           | Inr timeout \<Rightarrow>
               if timeout < Second then (c, Some (TimeoutTooShort timeout))
               else if timeout > MaxTimeout then (c, Some (TimeoutTooLong timeout))
               else (c\<lparr>cfg_Timeout := timeout\<rparr>, None)))"

definition parse_protocol :: "pod \<Rightarrow> config \<Rightarrow> parse_result" where
  "parse_protocol p c =
     (case annotation_set p AnnotationWarmupProtocol of
        None \<Rightarrow> (c, None)
      | Some protocol \<Rightarrow>
          if protocol = ProtocolHTTP \<or> protocol = ProtocolGRPC
          then (c\<lparr>cfg_Protocol := protocol\<rparr>, None)
          else (c, Some (InvalidProtocol protocol)))"

definition parse_grpc_method :: "pod \<Rightarrow> config \<Rightarrow> parse_result" where
  "parse_grpc_method p c =
     (case annotation_set p AnnotationWarmupGRPCMethod of
        None \<Rightarrow> (c, None)
      | Some method \<Rightarrow>
          if parseGRPCMethod method = None then (c, Some (InvalidGRPCMethod method))
          else (c\<lparr>cfg_GRPCMethod := method\<rparr>, None))"

definition parse_grpc_payload :: "pod \<Rightarrow> config \<Rightarrow> parse_result" where
  "parse_grpc_payload p c =
     (case annotation_set p AnnotationWarmupGRPCPayload of
        None \<Rightarrow> (c, None)
      | Some payload \<Rightarrow>
          if \<not> json_Valid payload then (c, Some InvalidGRPCPayload)
          else (c\<lparr>cfg_GRPCPayload := payload\<rparr>, None))"

definition check_grpc :: "config \<Rightarrow> parse_result" where
  "check_grpc c =
     (if cfg_Protocol c = ProtocolGRPC \<and> cfg_GRPCMethod c = [] then (c, Some GRPCMethodRequired)
      else (c, None))"

definition parse_config_name :: "pod \<Rightarrow> config \<Rightarrow> parse_result" where
  "parse_config_name p c =
     (case annotation_set p AnnotationWarmupConfig of
        None \<Rightarrow> (c, None)
      | Some name \<Rightarrow> (c\<lparr>cfg_WarmupConfigName := name\<rparr>, None))"

definition detect_port :: "pod \<Rightarrow> config \<Rightarrow> parse_result" where
  "detect_port p c =
     (case pod_Containers p of
        [] \<Rightarrow> (c, Some NoPortFound)
      | [container] \<Rightarrow>
          (case ctr_Ports container of
             [] \<Rightarrow> (c, Some NoPortFound)
           | [port] \<Rightarrow> (c\<lparr>cfg_Port := port\<rparr>, None)
           | _ \<Rightarrow> (c, Some (MultiplePorts (ctr_Name container))))
      | _ \<Rightarrow> (c, Some MultipleContainers))"

definition parse_port :: "pod \<Rightarrow> config \<Rightarrow> parse_result" where
  "parse_port p c =
     (case annotation_set p AnnotationWarmupPort of
        None \<Rightarrow> detect_port p c
      | Some s \<Rightarrow>
          (case Atoi s of
             Inl err \<Rightarrow> (c, Some (InvalidPort s err))
           | Inr port \<Rightarrow>
               if port < 1 \<or> port > 65535 then (c, Some (PortOutOfRange port))
               else (c\<lparr>cfg_Port := port\<rparr>, None)))"

definition parse_annotations :: "pod \<Rightarrow> config \<Rightarrow> parse_result" where
  "parse_annotations p c =
     and_then (and_then (and_then (and_then (and_then (and_then (and_then (and_then
       (parse_endpoint p c) (parse_requests p)) (parse_timeout p)) (parse_protocol p))
       (parse_grpc_method p)) (parse_grpc_payload p)) check_grpc) (parse_config_name p))
       (parse_port p)"

definition ParseConfig :: "pod option \<Rightarrow> parse_result" where
  "ParseConfig pod =
     (case pod of
        None \<Rightarrow> (default_config, Some PodIsNil)
      | Some p \<Rightarrow>
          if pod_Annotations p \<noteq> None then parse_annotations p default_config
          else detect_port p default_config)"

section \<open>Addresses\<close>

definition BuildGRPCAddress :: "config \<Rightarrow> string" where
  "BuildGRPCAddress c = cfg_PodIP c @ '':'' @ Itoa (cfg_Port c)"

definition BuildEndpointURL :: "config \<Rightarrow> string" where
  "BuildEndpointURL c =
     (let endpoint = (if length (cfg_Endpoint c) = 0 \<or> cfg_Endpoint c ! 0 \<noteq> CHR ''/''
                      then ''/'' @ cfg_Endpoint c else cfg_Endpoint c)
      in ''http://'' @ cfg_PodIP c @ '':'' @ Itoa (cfg_Port c) @ endpoint)"

definition BuildEndpointURLFor :: "config \<Rightarrow> string \<Rightarrow> string" where
  "BuildEndpointURLFor c endpoint0 =
     (let endpoint1 = (if endpoint0 = [] then ''/'' else endpoint0);
          endpoint = (if endpoint1 ! 0 \<noteq> CHR ''/'' then ''/'' @ endpoint1 else endpoint1)
      in ''http://'' @ cfg_PodIP c @ '':'' @ Itoa (cfg_Port c) @ endpoint)"

section \<open>Abstract specification of the parse\<close>

text \<open>
  What a pod asks for, field by field: a field that is not annotated has its default, an annotated
  one has the value its text reads as, and the whole is defined only if every field is. Nothing here
  mentions the order of the checks or the partial configuration an error returns.
\<close>

definition field :: "string option \<Rightarrow> 'a \<Rightarrow> (string \<Rightarrow> 'a option) \<Rightarrow> 'a option" where
  "field ann dflt read = (case ann of None \<Rightarrow> Some dflt | Some s \<Rightarrow> read s)"

definition read_int :: "int \<Rightarrow> int \<Rightarrow> string \<Rightarrow> int option" where
  "read_int lo hi s =
     (case Atoi s of Inl _ \<Rightarrow> None | Inr n \<Rightarrow> if lo \<le> n \<and> n \<le> hi then Some n else None)"

definition read_dur :: "duration \<Rightarrow> duration \<Rightarrow> string \<Rightarrow> duration option" where
  "read_dur lo hi s =
     (case ParseDuration s of
        Inl _ \<Rightarrow> None | Inr d \<Rightarrow> if lo \<le> d \<and> d \<le> hi then Some d else None)"

definition read_if :: "(string \<Rightarrow> bool) \<Rightarrow> string \<Rightarrow> string option" where
  "read_if ok s = (if ok s then Some s else None)"

definition only_port :: "pod \<Rightarrow> int option" where
  "only_port p =
     (case pod_Containers p of
        [c] \<Rightarrow> (case ctr_Ports c of [port] \<Rightarrow> Some port | _ \<Rightarrow> None)
      | _ \<Rightarrow> None)"

definition wanted_port :: "pod \<Rightarrow> int option" where
  "wanted_port p =
     (case annotation_set p AnnotationWarmupPort of
        None \<Rightarrow> only_port p
      | Some s \<Rightarrow> read_int 1 65535 s)"

definition config_spec :: "pod \<Rightarrow> config option" where
  "config_spec p =
     Option.bind (field (annotation_set p AnnotationWarmupRequests) 3 (read_int 1 12000)) (\<lambda>n.
     Option.bind (field (annotation_set p AnnotationWarmupTimeout) (30 * Second)
                    (read_dur Second (300 * Second))) (\<lambda>t.
     Option.bind (field (annotation_set p AnnotationWarmupProtocol) ''http''
                    (read_if (\<lambda>s. s = ''http'' \<or> s = ''grpc''))) (\<lambda>proto.
     Option.bind (field (annotation_set p AnnotationWarmupGRPCMethod) []
                    (read_if (\<lambda>s. parseGRPCMethod s \<noteq> None))) (\<lambda>m.
     Option.bind (field (annotation_set p AnnotationWarmupGRPCPayload) ''{}'' (read_if json_Valid))
       (\<lambda>payload.
     if proto = ''grpc'' \<and> m = [] then None
     else Option.bind (wanted_port p) (\<lambda>port.
       Some \<lparr>cfg_Endpoint = the_default ''/'' (annotation_set p AnnotationWarmupEndpoint),
             cfg_RequestCount = n, cfg_Timeout = t, cfg_PodIP = [], cfg_PodName = [],
             cfg_PodNamespace = [], cfg_Port = port, cfg_Protocol = proto, cfg_GRPCMethod = m,
             cfg_GRPCPayload = payload,
             cfg_WarmupConfigName = the_default [] (annotation_set p AnnotationWarmupConfig)\<rparr>))))))"

section \<open>Lemmas\<close>

definition ok :: "parse_result \<Rightarrow> config option" where
  "ok r = (if snd r = None then Some (fst r) else None)"

lemma ok_and_then: "ok (and_then r f) = Option.bind (ok r) (\<lambda>c. ok (f c))"
  by (cases "(r, f)" rule: and_then.cases) (simp_all add: ok_def)

lemma ok_parse_endpoint:
  "ok (parse_endpoint p c) =
     Some (c\<lparr>cfg_Endpoint := the_default (cfg_Endpoint c) (annotation_set p AnnotationWarmupEndpoint)\<rparr>)"
  by (simp add: parse_endpoint_def ok_def split: option.split)

lemma ok_parse_requests:
  "ok (parse_requests p c) =
     map_option (\<lambda>n. c\<lparr>cfg_RequestCount := n\<rparr>)
       (field (annotation_set p AnnotationWarmupRequests) (cfg_RequestCount c) (read_int 1 12000))"
  by (auto simp: parse_requests_def ok_def field_def read_int_def MaxRequestCount_def
      split: option.split sum.split)

lemma ok_parse_timeout:
  "ok (parse_timeout p c) =
     map_option (\<lambda>t. c\<lparr>cfg_Timeout := t\<rparr>)
       (field (annotation_set p AnnotationWarmupTimeout) (cfg_Timeout c)
          (read_dur Second (300 * Second)))"
  by (auto simp: parse_timeout_def ok_def field_def read_dur_def MaxTimeout_def
      split: option.split sum.split)

lemma ok_parse_protocol:
  "ok (parse_protocol p c) =
     map_option (\<lambda>s. c\<lparr>cfg_Protocol := s\<rparr>)
       (field (annotation_set p AnnotationWarmupProtocol) (cfg_Protocol c)
          (read_if (\<lambda>s. s = ''http'' \<or> s = ''grpc'')))"
  by (auto simp: parse_protocol_def ok_def field_def read_if_def ProtocolHTTP_def ProtocolGRPC_def
      split: option.split)

lemma ok_parse_grpc_method:
  "ok (parse_grpc_method p c) =
     map_option (\<lambda>s. c\<lparr>cfg_GRPCMethod := s\<rparr>)
       (field (annotation_set p AnnotationWarmupGRPCMethod) (cfg_GRPCMethod c)
          (read_if (\<lambda>s. parseGRPCMethod s \<noteq> None)))"
  by (auto simp: parse_grpc_method_def ok_def field_def read_if_def split: option.split)

lemma ok_parse_grpc_payload:
  "ok (parse_grpc_payload p c) =
     map_option (\<lambda>s. c\<lparr>cfg_GRPCPayload := s\<rparr>)
       (field (annotation_set p AnnotationWarmupGRPCPayload) (cfg_GRPCPayload c)
          (read_if json_Valid))"
  by (auto simp: parse_grpc_payload_def ok_def field_def read_if_def split: option.split)

lemma ok_check_grpc:
  "ok (check_grpc c) = (if cfg_Protocol c = ''grpc'' \<and> cfg_GRPCMethod c = [] then None else Some c)"
  by (auto simp: check_grpc_def ok_def ProtocolGRPC_def)

lemma ok_parse_config_name:
  "ok (parse_config_name p c) =
     Some (c\<lparr>cfg_WarmupConfigName :=
               the_default (cfg_WarmupConfigName c) (annotation_set p AnnotationWarmupConfig)\<rparr>)"
  by (simp add: parse_config_name_def ok_def split: option.split)

lemma ok_detect_port: "ok (detect_port p c) = map_option (\<lambda>n. c\<lparr>cfg_Port := n\<rparr>) (only_port p)"
  by (auto simp: detect_port_def ok_def only_port_def split: list.split)

lemma ok_parse_port: "ok (parse_port p c) = map_option (\<lambda>n. c\<lparr>cfg_Port := n\<rparr>) (wanted_port p)"
  by (auto simp: parse_port_def wanted_port_def ok_detect_port read_int_def split: option.split sum.split)
    (auto simp: ok_def)

lemmas ok_stages =
  ok_parse_endpoint ok_parse_requests ok_parse_timeout ok_parse_protocol ok_parse_grpc_method
  ok_parse_grpc_payload ok_check_grpc ok_parse_config_name ok_parse_port

lemma ok_parse_annotations: "ok (parse_annotations p default_config) = config_spec p"
  unfolding parse_annotations_def ok_and_then ok_stages config_spec_def
  by (auto simp: default_config_def go_const map_option_case bind_eq_None_conv
      split: option.split if_split)

lemma parse_annotations_nil:
  "pod_Annotations p = None \<Longrightarrow> parse_annotations p default_config = detect_port p default_config"
  by (simp add: parse_annotations_def parse_endpoint_def parse_requests_def parse_timeout_def
      parse_protocol_def parse_grpc_method_def parse_grpc_payload_def check_grpc_def
      parse_config_name_def parse_port_def default_config_def go_const)

lemma ParseConfig_annotations: "ParseConfig (Some p) = parse_annotations p default_config"
  by (simp add: ParseConfig_def parse_annotations_nil)

section \<open>The invariant of every parse\<close>

definition config_wf :: "config \<Rightarrow> bool" where
  "config_wf c \<longleftrightarrow>
     1 \<le> cfg_RequestCount c \<and> cfg_RequestCount c \<le> 12000 \<and>
     Second \<le> cfg_Timeout c \<and> cfg_Timeout c \<le> 5 * Minute \<and>
     cfg_Protocol c \<in> {''http'', ''grpc''} \<and>
     (cfg_GRPCMethod c = [] \<or> parseGRPCMethod (cfg_GRPCMethod c) \<noteq> None) \<and>
     json_Valid (cfg_GRPCPayload c) \<and> cfg_Endpoint c \<noteq> []"

named_theorems wf_stage \<open>stages of ParseConfig that preserve the invariant\<close>

lemma json_Valid_empty_object: "json_Valid ''{}''"
  by code_simp

lemma config_wf_default: "config_wf default_config"
  by (simp add: config_wf_def default_config_def go_const json_Valid_empty_object)

lemma config_wf_and_then [wf_stage]:
  "config_wf (fst r) \<Longrightarrow> (\<And>c. config_wf c \<Longrightarrow> config_wf (fst (f c))) \<Longrightarrow> config_wf (fst (and_then r f))"
  by (cases "(r, f)" rule: and_then.cases) auto

lemma wf_parse_endpoint [wf_stage]: "config_wf c \<Longrightarrow> config_wf (fst (parse_endpoint p c))"
  by (auto simp: parse_endpoint_def config_wf_def dest: annotation_set_nonempty split: option.split)

lemma wf_parse_requests [wf_stage]: "config_wf c \<Longrightarrow> config_wf (fst (parse_requests p c))"
  by (auto simp: parse_requests_def config_wf_def MaxRequestCount_def split: option.split sum.split)

lemma wf_parse_timeout [wf_stage]: "config_wf c \<Longrightarrow> config_wf (fst (parse_timeout p c))"
  by (auto simp: parse_timeout_def config_wf_def MaxTimeout_def split: option.split sum.split)

lemma wf_parse_protocol [wf_stage]: "config_wf c \<Longrightarrow> config_wf (fst (parse_protocol p c))"
  by (auto simp: parse_protocol_def config_wf_def ProtocolHTTP_def ProtocolGRPC_def split: option.split)

lemma wf_parse_grpc_method [wf_stage]: "config_wf c \<Longrightarrow> config_wf (fst (parse_grpc_method p c))"
  by (auto simp: parse_grpc_method_def config_wf_def split: option.split)

lemma wf_parse_grpc_payload [wf_stage]: "config_wf c \<Longrightarrow> config_wf (fst (parse_grpc_payload p c))"
  by (auto simp: parse_grpc_payload_def config_wf_def split: option.split)

lemma wf_check_grpc [wf_stage]: "config_wf c \<Longrightarrow> config_wf (fst (check_grpc c))"
  by (auto simp: check_grpc_def)

lemma wf_parse_config_name [wf_stage]: "config_wf c \<Longrightarrow> config_wf (fst (parse_config_name p c))"
  by (auto simp: parse_config_name_def config_wf_def split: option.split)

lemma wf_detect_port [wf_stage]: "config_wf c \<Longrightarrow> config_wf (fst (detect_port p c))"
  by (auto simp: detect_port_def config_wf_def split: list.split)

lemma wf_parse_port [wf_stage]: "config_wf c \<Longrightarrow> config_wf (fst (parse_port p c))"
  using wf_detect_port [of c p]
  by (auto simp: parse_port_def config_wf_def split: option.split sum.split)

lemma ParseConfig_wf: "config_wf (fst (ParseConfig pod))"
  by (auto simp: ParseConfig_def parse_annotations_def config_wf_default split: option.split
      intro!: wf_stage)

lemma LastIndexByte_append: "c \<notin> set b \<Longrightarrow> LastIndexByte (a @ c # b) c = Some (length a)"
  by (simp add: LastIndexByte_Some)

lemma set_digits: "list_all is_digit s \<Longrightarrow> c \<in> set s \<Longrightarrow> is_digit c"
  by (auto simp: list_all_iff)

lemma Itoa_no_byte: "\<not> is_digit c \<Longrightarrow> c \<noteq> CHR ''-'' \<Longrightarrow> c \<notin> set (Itoa n)"
  using set_digits [OF dec_nat_digits] by (auto simp: Itoa_dec_nat)

lemma Itoa_no_colon: "CHR '':'' \<notin> set (Itoa n)" and Itoa_no_bracket: "CHR ''['' \<notin> set (Itoa n)"
  "CHR '']'' \<notin> set (Itoa n)"
  by (rule Itoa_no_byte; simp add: is_digit_def)+

section \<open>Properties\<close>

text \<open>
  C7. ParseConfig implements its specification: it returns without an error exactly when every
  annotated field reads as a value in its range, a gRPC warmup names a method and a port is
  determined, and the configuration it then returns is the specified one, field by field. The order
  of the checks and the early returns do not show.
\<close>

theorem ParseConfig_refines_spec:
  "(case ParseConfig (Some p) of (c, None) \<Rightarrow> Some c | (c, Some e) \<Rightarrow> None) = config_spec p"
proof -
  have "(case r of (c, None) \<Rightarrow> Some c | (c, Some e) \<Rightarrow> None) = ok r" for r
    by (auto simp: ok_def split: prod.split option.split)
  then show ?thesis by (simp add: ParseConfig_annotations ok_parse_annotations)
qed

text \<open>
  C12. Every configuration ParseConfig returns is within its limits, also the partial one that comes
  with an error and the one for a nil pod: 1 to 12000 requests, a timeout of one second to five
  minutes, a known protocol, a method that splits into service and method, a valid JSON payload and
  a non-empty endpoint. Without an error a gRPC configuration has a method, and a port that was
  annotated is between 1 and 65535.
\<close>

theorem ParseConfig_within_limits:
  "config_wf (fst (ParseConfig pod)) \<and>
   (\<forall>p c. pod = Some p \<and> ParseConfig pod = (c, None) \<longrightarrow>
      (cfg_Protocol c = ''grpc'' \<longrightarrow> parseGRPCMethod (cfg_GRPCMethod c) \<noteq> None) \<and>
      (annotation_set p AnnotationWarmupPort \<noteq> None \<longrightarrow> 1 \<le> cfg_Port c \<and> cfg_Port c \<le> 65535))"
proof (intro conjI allI impI; (elim conjE)?)
  show "config_wf (fst (ParseConfig pod))" by (rule ParseConfig_wf)
next
  fix p c assume r: "pod = Some p" "ParseConfig pod = (c, None)"
  then have spec: "config_spec p = Some c"
    using ok_parse_annotations [of p] by (simp add: ParseConfig_annotations ok_def)
  have wf: "config_wf c" using ParseConfig_wf [of pod] r by simp
  { assume "cfg_Protocol c = ''grpc''"
    with spec have "cfg_GRPCMethod c \<noteq> []"
      by (auto simp: config_spec_def bind_eq_Some_conv split: if_splits)
    with wf show "parseGRPCMethod (cfg_GRPCMethod c) \<noteq> None" by (simp add: config_wf_def) }
  { assume "annotation_set p AnnotationWarmupPort \<noteq> None"
    with spec show "1 \<le> cfg_Port c" and "cfg_Port c \<le> 65535"
      by (auto simp: config_spec_def bind_eq_Some_conv wanted_port_def read_int_def
          split: if_splits sum.splits option.splits) }
qed

theorem ParseConfig_within_limits_witness:
  "ParseConfig (Some sample_pod) = (default_config\<lparr>cfg_Port := 8080\<rparr>, None) \<and>
   config_wf (default_config\<lparr>cfg_Port := 8080\<rparr>)"
proof -
  have r: "ParseConfig (Some sample_pod) = (default_config\<lparr>cfg_Port := 8080\<rparr>, None)"
    by (simp add: ParseConfig_annotations parse_annotations_def parse_endpoint_def
        parse_requests_def parse_timeout_def parse_protocol_def parse_grpc_method_def
        parse_grpc_payload_def check_grpc_def parse_config_name_def parse_port_def detect_port_def
        sample_pod_def annotation_set_def annotation_def default_config_def go_const)
  with ParseConfig_within_limits [of "Some sample_pod"] show ?thesis by simp
qed

text \<open>
  C34. parseGRPCMethod accepts exactly the texts of the form service, slash, method with both parts
  non-empty and no slash in the method, and returns these two parts.
\<close>

theorem parseGRPCMethod_iff:
  "parseGRPCMethod m = Some (svc, name) \<longleftrightarrow>
     m = svc @ ''/'' @ name \<and> svc \<noteq> [] \<and> name \<noteq> [] \<and> CHR ''/'' \<notin> set name"
proof
  assume "parseGRPCMethod m = Some (svc, name)"
  then obtain i where i: "LastIndexByte m (CHR ''/'') = Some i" "i \<noteq> 0" "i \<noteq> length m - 1"
    and parts: "svc = take i m" "name = drop (i + 1) m"
    by (auto simp: parseGRPCMethod_def split: option.splits if_splits)
  from i(1) have "i < length m" "m ! i = CHR ''/''" "CHR ''/'' \<notin> set (drop (Suc i) m)"
    by (simp_all add: LastIndexByte_Some)
  with i(2,3) parts show "m = svc @ ''/'' @ name \<and> svc \<noteq> [] \<and> name \<noteq> [] \<and> CHR ''/'' \<notin> set name"
    using id_take_nth_drop [of i m] by auto
next
  assume "m = svc @ ''/'' @ name \<and> svc \<noteq> [] \<and> name \<noteq> [] \<and> CHR ''/'' \<notin> set name"
  then show "parseGRPCMethod m = Some (svc, name)"
    by (simp add: parseGRPCMethod_def LastIndexByte_append)
qed

text \<open>
  C32. The request-count annotation is read back exactly: for every 64-bit integer printed in decimal
  the stage stores that number when it is between 1 and 12000, and otherwise returns the
  configuration unchanged with the error that says on which side the number is.
\<close>

theorem parse_requests_roundtrip:
  assumes ann: "annotation_set p AnnotationWarmupRequests = Some (Itoa n)" and "in_int64 n"
  shows "parse_requests p c =
    (if 1 \<le> n \<and> n \<le> 12000 then (c\<lparr>cfg_RequestCount := n\<rparr>, None)
     else if n < 1 then (c, Some (RequestsTooFew n)) else (c, Some (RequestsTooMany n)))"
  using assms by (simp add: parse_requests_def Atoi_Itoa MaxRequestCount_def)

theorem parse_requests_roundtrip_witness:
  "parse_requests (sample_pod\<lparr>pod_Annotations := Some [AnnotationWarmupRequests \<mapsto> Itoa 12000]\<rparr>)
     default_config = (default_config\<lparr>cfg_RequestCount := 12000\<rparr>, None)"
proof -
  have "annotation_set (sample_pod\<lparr>pod_Annotations := Some [AnnotationWarmupRequests \<mapsto> Itoa 12000]\<rparr>)
      AnnotationWarmupRequests = Some (Itoa 12000)"
    by (simp add: annotation_set_def annotation_def)
  from parse_requests_roundtrip [OF this, of default_config] show ?thesis
    by (simp add: in_int64_def)
qed

text \<open>
  C33. A timeout annotation of a whole number of seconds is accepted exactly from 1s to 300s, and then
  stored as that many seconds; below and above the stage reports the parsed duration as too short or
  too long.
\<close>

theorem parse_timeout_seconds:
  assumes ann: "annotation_set p AnnotationWarmupTimeout = Some (dec_nat n @ ''s'')"
    and "int n \<le> 9223372036"
  shows "parse_timeout p c =
    (if 1 \<le> n \<and> n \<le> 300 then (c\<lparr>cfg_Timeout := int n * Second\<rparr>, None)
     else if n < 1 then (c, Some (TimeoutTooShort (int n * Second)))
     else (c, Some (TimeoutTooLong (int n * Second))))"
proof -
  have "n < 1 \<longleftrightarrow> int n * Second < Second" by auto
  moreover have "300 < n \<longleftrightarrow> 5 * Minute < int n * Second" by auto
  ultimately show ?thesis
    using assms by (simp add: parse_timeout_def ParseDuration_seconds MaxTimeout_def)
qed

theorem parse_timeout_seconds_witness:
  "parse_timeout (sample_pod\<lparr>pod_Annotations := Some [AnnotationWarmupTimeout \<mapsto> ''301s'']\<rparr>)
     default_config = (default_config, Some (TimeoutTooLong (301 * Second)))"
proof -
  have "dec_nat 301 @ ''s'' = ''301s''" by code_simp
  then have "annotation_set (sample_pod\<lparr>pod_Annotations := Some [AnnotationWarmupTimeout \<mapsto> ''301s'']\<rparr>)
      AnnotationWarmupTimeout = Some (dec_nat 301 @ ''s'')"
    by (simp add: annotation_set_def annotation_def)
  from parse_timeout_seconds [OF this, of default_config] show ?thesis by simp
qed

text \<open>
  The two URL builders agree: the URL of the configured endpoint is the one BuildEndpointURLFor
  builds for it. Both always put exactly one authority, the pod address and port, before a path that
  starts with a slash and ends in the given endpoint.
\<close>

theorem BuildEndpointURL_agrees:
  "BuildEndpointURLFor c (cfg_Endpoint c) = BuildEndpointURL c \<and>
   (\<exists>path. BuildEndpointURL c = ''http://'' @ BuildGRPCAddress c @ ''/'' @ path \<and>
           (path = cfg_Endpoint c \<or> ''/'' @ path = cfg_Endpoint c))"
proof (cases "cfg_Endpoint c")
  case Nil
  then show ?thesis
    by (simp add: BuildEndpointURLFor_def BuildEndpointURL_def BuildGRPCAddress_def)
next
  case (Cons a as)
  then show ?thesis
    by (cases "a = CHR ''/''")
      (simp_all add: BuildEndpointURLFor_def BuildEndpointURL_def BuildGRPCAddress_def)
qed



end
