(* ===== verification/Sender.thy ===== *)
theory Sender
  imports Config
begin

text \<open>
  The sender interface and the HTTP sender (pkg/warmup/sender.go, pkg/warmup/http_sender.go), and the
  environment all senders and executors run in.

  Everything outside the program that it waits for is an operation of the record \<open>net\<close>: it takes
  the state \<open>'w\<close> of the outside world and returns an answer and the next state. Every reading of the
  clock is such an operation, so time may pass between any two statements. A theorem about a
  definition that takes a \<open>net\<close> holds for every behaviour of the outside world, unless it names a
  hypothesis about it.
\<close>

section \<open>Errors\<close>

datatype go_error = CtxError ctx_err | ErrNoPodIP | ErrText string

fun err_text :: "go_error \<Rightarrow> string" where
  "err_text (CtxError Canceled) = ''context canceled''"
| "err_text (CtxError DeadlineExceeded) = ''context deadline exceeded''"
| "err_text ErrNoPodIP = ''pod IP not set''"
| "err_text (ErrText s) = s"

section \<open>Targets and responses\<close>

record target =
  tgt_Address :: string
  tgt_Method :: string
  tgt_Headers :: string_map
  tgt_Payload :: string

record response =
  resp_StatusCode :: int
  resp_Duration :: duration
  resp_Body :: string
  resp_Error :: "go_error option"

text \<open>\<^verbatim>\<open>&Response{Error: err, Duration: d}\<close>\<close>

definition error_response :: "go_error \<Rightarrow> duration \<Rightarrow> response" where
  "error_response err d =
     \<lparr>resp_StatusCode = 0, resp_Duration = d, resp_Body = [], resp_Error = Some err\<rparr>"

section \<open>The environment\<close>

record http_request =
  hr_Method :: string
  hr_URL :: string
  hr_Header :: "string \<Rightarrow> string option"
  hr_Body :: string

record http_response =
  hresp_StatusCode :: int
  hresp_Stream :: nat

text \<open>A token-bucket limiter of golang.org/x/time/rate: its rate and its burst.\<close>

record limiter =
  rl_rps :: rat
  rl_burst :: int

text \<open>
  \<^item> \<open>net_now\<close>: \<^verbatim>\<open>time.Now\<close>;
  \<^item> \<open>net_new_request\<close>: what \<^verbatim>\<open>http.NewRequestWithContext\<close> objects to in a method and a URL;
  \<^item> \<open>net_do\<close>: \<^verbatim>\<open>http.Client.Do\<close> of a client with the given timeout;
  \<^item> \<open>net_body\<close>: the bytes a response body delivers until its end or an error;
  \<^item> \<open>net_wait\<close>: \<^verbatim>\<open>rate.Limiter.Wait\<close> of golang.org/x/time/rate for the given limiter;
  \<^item> \<open>net_print\<close>: which code points above U+00FF \<^verbatim>\<open>%q\<close> prints as they are;
  \<^item> \<open>net_range\<close>: the order in which a \<^verbatim>\<open>range\<close> statement visits the entries of a map the program built.
\<close>

record 'w net =
  net_now :: "'w \<Rightarrow> instant \<times> 'w"
  net_new_request :: "string \<Rightarrow> string \<Rightarrow> go_error option"
  net_do :: "go_ctx \<Rightarrow> duration \<Rightarrow> http_request \<Rightarrow> 'w \<Rightarrow> (go_error + http_response) \<times> 'w"
  net_body :: "http_response \<Rightarrow> 'w \<Rightarrow> string \<times> 'w"
  net_wait :: "limiter \<Rightarrow> go_ctx \<Rightarrow> 'w \<Rightarrow> go_error option \<times> 'w"
  net_print :: "nat \<Rightarrow> bool"
  net_range :: "string_map \<Rightarrow> 'w \<Rightarrow> string_map \<times> 'w"

text \<open>\<^verbatim>\<open>ctx.Err()\<close> at this moment.\<close>

definition check_ctx :: "('w, 'x) net_scheme \<Rightarrow> go_ctx \<Rightarrow> 'w \<Rightarrow> ctx_err option \<times> 'w" where
  "check_ctx E ctx w = (case net_now E w of (t, w') \<Rightarrow> (ctx_Err ctx t, w'))"

section \<open>Header keys\<close>

definition upper_byte :: "char \<Rightarrow> bool" where
  "upper_byte c \<longleftrightarrow> cont 65 90 (byte c)"
definition lower_byte :: "char \<Rightarrow> bool" where
  "lower_byte c \<longleftrightarrow> cont 97 122 (byte c)"

text \<open>\<^verbatim>\<open>textproto.CanonicalMIMEHeaderKey\<close>, applied by \<^verbatim>\<open>Header.Set\<close>.\<close>

definition token_byte :: "char \<Rightarrow> bool" where
  "token_byte c \<longleftrightarrow> upper_byte c \<or> lower_byte c \<or> is_digit c \<or> c \<in> set ''!#$%&*+-.^_`|~'' \<or> byte c = 39"

fun canon :: "bool \<Rightarrow> string \<Rightarrow> string" where
  "canon upper [] = []"
| "canon upper (c # cs) =
     (if upper \<and> lower_byte c then char_of (byte c - 32)
      else if \<not> upper \<and> upper_byte c then char_of (byte c + 32) else c) # canon (c = CHR ''-'') cs"

definition canonical_key :: "string \<Rightarrow> string" where
  "canonical_key s = (if list_all token_byte s then canon True s else s)"

text \<open>\<^verbatim>\<open>for k, v := range target.Headers { req.Header.Set(k, v) }\<close>\<close>

definition set_headers :: "string_map \<Rightarrow> (string \<Rightarrow> string option)" where
  "set_headers hs = foldl (\<lambda>h (k, v). h(canonical_key k \<mapsto> v)) Map.empty hs"

section \<open>The HTTP sender\<close>

definition maxResponseBodyBytes :: nat where [go_const]: "maxResponseBodyBytes = 1048576"

definition HTTPSender_Send ::
  "('w, 'x) net_scheme \<Rightarrow> duration \<Rightarrow> go_ctx \<Rightarrow> target \<Rightarrow> 'w \<Rightarrow> response \<times> 'w" where
  "HTTPSender_Send E client_timeout ctx tgt w =
     (let (start, w) = net_now E w;
          meth = (if tgt_Method tgt = [] then ''GET'' else tgt_Method tgt)
      in case net_new_request E meth (tgt_Address tgt) of
           Some err \<Rightarrow> (let (t, w) = net_now E w in (error_response err (t - start), w))
         | None \<Rightarrow>
             let req = \<lparr>hr_Method = meth, hr_URL = tgt_Address tgt,
                        hr_Header = set_headers (tgt_Headers tgt), hr_Body = tgt_Payload tgt\<rparr>;
                 (r, w) = net_do E ctx client_timeout req w;
                 (t, w) = net_now E w
             in case r of
                  Inl err \<Rightarrow> (error_response err (t - start), w)
                | Inr resp \<Rightarrow>
                    let (bytes, w) = net_body E resp w
                    in (\<lparr>resp_StatusCode = hresp_StatusCode resp, resp_Duration = t - start,
                         resp_Body = take maxResponseBodyBytes bytes, resp_Error = None\<rparr>, w))"

definition HTTPSender_Close :: "'w \<Rightarrow> go_error option \<times> 'w" where
  "HTTPSender_Close w = (None, w)"

section \<open>The interface Sender\<close>

text \<open>
  A sender keeps a state of its own between calls; \<open>None\<close> says that the call does not return (it can
  exhaust the stack, see the theory of the reflection client). What its clients rely on: a response that carries
  a transport error carries no status code and no body, so a status code alone tells a success.
\<close>

definition status_ok :: "response \<Rightarrow> bool" where
  "status_ok r \<longleftrightarrow> 200 \<le> resp_StatusCode r \<and> resp_StatusCode r < 400"

locale sender =
  fixes send :: "'s \<Rightarrow> go_ctx \<Rightarrow> target \<Rightarrow> 'w \<Rightarrow> (response \<times> 's \<times> 'w) option"
  assumes send_error:
    "send s ctx tgt w = Some (r, s', w') \<Longrightarrow> resp_Error r \<noteq> None \<Longrightarrow>
       resp_StatusCode r = 0 \<and> resp_Body r = []"
begin

lemma status_ok_no_error:
  "send s ctx tgt w = Some (r, s', w') \<Longrightarrow> status_ok r \<Longrightarrow> resp_Error r = None"
  using send_error [of s ctx tgt w r s' w'] by (cases "resp_Error r") (auto simp: status_ok_def)

lemma body_no_error:
  "send s ctx tgt w = Some (r, s', w') \<Longrightarrow> resp_Body r \<noteq> [] \<Longrightarrow> resp_Error r = None"
  using send_error [of s ctx tgt w r s' w'] by (cases "resp_Error r") auto

end

text \<open>The HTTP sender has no state of its own.\<close>

definition http_send ::
  "('w, 'x) net_scheme \<Rightarrow> duration \<Rightarrow> unit \<Rightarrow> go_ctx \<Rightarrow> target \<Rightarrow> 'w \<Rightarrow> (response \<times> unit \<times> 'w) option" where
  "http_send E client_timeout s ctx tgt w =
     (case HTTPSender_Send E client_timeout ctx tgt w of (r, w') \<Rightarrow> Some (r, (), w'))"

interpretation http: sender "http_send E client_timeout" for E client_timeout
  by unfold_locales
    (auto simp: http_send_def HTTPSender_Send_def error_response_def Let_def
      split: prod.splits option.splits sum.splits)

section \<open>Lemmas\<close>

lemma maxResponseBodyBytes_eq: "maxResponseBodyBytes = 2 ^ 20"
  by (simp add: maxResponseBodyBytes_def)

lemma set_headers_map_of:
  "set_headers hs = map_of (rev (map (\<lambda>(k, v). (canonical_key k, v)) hs))"
  by (induction hs rule: rev_induct) (auto simp: set_headers_def)

text \<open>
  A network for concrete runs: the clock ticks by one millisecond at every reading, every request
  is answered with status 200 and the body \<open>{}\<close>, and the rate limiter always grants a token.
\<close>

definition sample_net :: "int net" where
  "sample_net =
     \<lparr>net_now = (\<lambda>w. (w, w + Millisecond)), net_new_request = (\<lambda>_ _. None),
      net_do = (\<lambda>_ _ _ w. (Inr \<lparr>hresp_StatusCode = 200, hresp_Stream = 0\<rparr>, w + 5 * Millisecond)),
      net_body = (\<lambda>_ w. (''{}'', w)), net_wait = (\<lambda>_ _ w. (None, w)), net_print = (\<lambda>_. False),
      net_range = (\<lambda>m w. (m, w))\<rparr>"

definition sample_target :: target where
  "sample_target =
     \<lparr>tgt_Address = ''http://10.0.0.7:8080/'', tgt_Method = ''GET'', tgt_Headers = [],
      tgt_Payload = []\<rparr>"

section \<open>Properties\<close>

text \<open>
  C36. The HTTP sender never hands on more than one MiB of a response body, whatever the pod sends,
  and what it hands on is a prefix of what the pod sent, namely all of it when it is not longer.
\<close>

theorem HTTPSender_body_capped:
  assumes "HTTPSender_Send E to ctx tgt w = (r, w')"
  shows "length (resp_Body r) \<le> 2 ^ 20 \<and>
    (resp_Body r = [] \<or>
      (\<exists>resp v bytes. net_body E resp v = (bytes, w') \<and> prefix (resp_Body r) bytes \<and>
         (length bytes \<le> 2 ^ 20 \<longrightarrow> resp_Body r = bytes)))"
proof -
  have "resp_Body r = [] \<or> (\<exists>resp v bytes. net_body E resp v = (bytes, w') \<and>
      resp_Body r = take maxResponseBodyBytes bytes)"
    using assms
    by (fastforce simp: HTTPSender_Send_def error_response_def Let_def
        split: prod.splits option.splits sum.splits)
  moreover have "prefix (take maxResponseBodyBytes bytes) bytes" and
    "length bytes \<le> 2 ^ 20 \<Longrightarrow> take maxResponseBodyBytes bytes = bytes" for bytes :: string
    by (simp_all add: maxResponseBodyBytes_def take_is_prefix)
  ultimately show ?thesis
    by (metis length_take list.size(3) maxResponseBodyBytes_eq min.cobounded2 zero_le)
qed

theorem HTTPSender_body_capped_witness:
  "resp_Body (fst (HTTPSender_Send sample_net (10 * Second) Background sample_target 0)) =
     ''{}'' \<and> length ''{}'' \<le> (2 :: nat) ^ 20"
proof -
  obtain r w' where run:
      "HTTPSender_Send sample_net (10 * Second) Background sample_target 0 = (r, w')"
    and r: "resp_Body r = ''{}''"
    by (simp add: HTTPSender_Send_def sample_net_def sample_target_def maxResponseBodyBytes_def)
  from HTTPSender_body_capped [OF run] run r show ?thesis by simp
qed



end
