(* ===== verification/Reflection.thy ===== *)
theory Reflection
  imports Sender
begin

text \<open>
  The reflection client of the gRPC sender (pkg/warmup/grpc_sender.go from resolveMethodDescriptor
  on): fetching the file descriptors that define a service, registering them with their
  dependencies, and looking the method up.

  What google.golang.org/grpc and google.golang.org/protobuf do is in the record \<open>grpc_net\<close>, an
  extension of \<open>net\<close>. The closure \<^verbatim>\<open>register\<close> calls itself for the dependencies of a file and marks
  a file only after them, so it need not return; \<open>g_depth\<close> is the depth of calls the Go stack has
  room for, and \<open>None\<close> is the process dying when that is exceeded.
\<close>

section \<open>Descriptors\<close>

record fdp =
  fdp_Name :: string
  fdp_Dependency :: "string list"
  fdp_Content :: string

record method_desc =
  md_Name :: string
  md_Parent :: string
  md_StreamingClient :: bool
  md_StreamingServer :: bool
  md_Input :: string
  md_Output :: string

text \<open>A service is given by its method lookup, \<^verbatim>\<open>Methods().ByName\<close>.\<close>

datatype descriptor = ServiceDescriptor "string \<Rightarrow> method_desc option" | OtherDescriptor

datatype refl_response =
    ErrorResponse int string
  | FileDescriptorResponse "string list"
  | OtherResponse string

datatype grpc_code = CodeCanceled | CodeDeadlineExceeded | CodeOther nat

record 'w grpc_net = "'w net" +
  g_new_client :: "string \<Rightarrow> go_error option"
  g_refl_open :: "string \<Rightarrow> go_ctx \<Rightarrow> 'w \<Rightarrow> go_error option \<times> 'w"
  g_refl_send :: "string \<Rightarrow> string \<Rightarrow> 'w \<Rightarrow> go_error option \<times> 'w"
  g_refl_recv :: "string \<Rightarrow> 'w \<Rightarrow> (go_error + refl_response) \<times> 'w"
  g_unmarshal_fdp :: "string \<Rightarrow> go_error + fdp"
  g_find_file :: "fdp list \<Rightarrow> string \<Rightarrow> fdp option"
  g_global_file :: "string \<Rightarrow> fdp option"
  g_global_message :: "string \<Rightarrow> descriptor option"
  g_local_descriptor :: "fdp list \<Rightarrow> string \<Rightarrow> go_error + descriptor"
  g_new_file :: "(string \<Rightarrow> fdp option) \<Rightarrow> (string \<Rightarrow> descriptor option) \<Rightarrow> fdp \<Rightarrow> go_error option"
  g_register_conflict :: "fdp list \<Rightarrow> fdp \<Rightarrow> go_error option"
  g_depth :: nat
  g_unmarshal_json :: "string \<Rightarrow> string \<Rightarrow> go_error + string"
  g_marshal_json :: "string \<Rightarrow> string \<Rightarrow> go_error + string"
  g_invoke :: "string \<Rightarrow> go_ctx \<Rightarrow> string \<Rightarrow> string \<Rightarrow> 'w \<Rightarrow> ((grpc_code \<times> go_error) + string) \<times> 'w"
  g_close :: "string \<Rightarrow> 'w \<Rightarrow> go_error option \<times> 'w"

section \<open>fileSetResolver\<close>

text \<open>
  \<^verbatim>\<open>protoregistry.Files\<close> is here the list of the files registered so far, in order. Its operations are those of the
  library: \<open>g_find_file\<close> is \<^verbatim>\<open>FindFileByPath\<close>, \<open>g_local_descriptor\<close> is \<^verbatim>\<open>FindDescriptorByName\<close>,
  \<open>g_register_conflict\<close> the error of \<^verbatim>\<open>RegisterFile\<close>. What is used of them, where it is: a file is found exactly when one
  of that path has been registered, and a method found by its name has that name.
\<close>

definition registry_law :: "('w, 'x) grpc_net_scheme \<Rightarrow> bool" where
  "registry_law E \<longleftrightarrow> (\<forall>files path. g_find_file E files path = None \<longleftrightarrow> path \<notin> fdp_Name ` set files)"

definition method_law :: "('w, 'x) grpc_net_scheme \<Rightarrow> bool" where
  "method_law E \<longleftrightarrow> (\<forall>files svc byName m md.
     g_local_descriptor E files svc = Inr (ServiceDescriptor byName) \<longrightarrow> byName m = Some md \<longrightarrow> md_Name md = m)"

definition resolver_FindFileByPath ::
  "('w, 'x) grpc_net_scheme \<Rightarrow> fdp list \<Rightarrow> string \<Rightarrow> fdp option" where
  "resolver_FindFileByPath E files path =
     (case g_find_file E files path of Some fd \<Rightarrow> Some fd | None \<Rightarrow> g_global_file E path)"

definition resolver_FindDescriptorByName ::
  "('w, 'x) grpc_net_scheme \<Rightarrow> fdp list \<Rightarrow> string \<Rightarrow> descriptor option" where
  "resolver_FindDescriptorByName E files name =
     (case g_local_descriptor E files name of Inr d \<Rightarrow> Some d | Inl _ \<Rightarrow> g_global_message E name)"

section \<open>buildFileSet\<close>

definition maxReflectionResponseBytes :: nat where [go_const]:
  "maxReflectionResponseBytes = 4194304"

record reg_state =
  rs_files :: "fdp list"
  rs_registered :: "string list"

definition mark :: "string \<Rightarrow> reg_state \<Rightarrow> reg_state" where
  "mark name st = st\<lparr>rs_registered := name # rs_registered st\<rparr>"

text \<open>What \<^verbatim>\<open>register\<close> does once the dependencies of \<open>fd\<close> are registered.\<close>

definition register_file ::
  "('w, 'x) grpc_net_scheme \<Rightarrow> string \<Rightarrow> fdp \<Rightarrow> reg_state \<Rightarrow> go_error + reg_state" where
  "register_file E name fd st =
     (if g_find_file E (rs_files st) (fdp_Name fd) \<noteq> None then Inr (mark name st)
      else case g_new_file E (resolver_FindFileByPath E (rs_files st))
                  (resolver_FindDescriptorByName E (rs_files st)) fd of
        Some err \<Rightarrow>
          Inl (ErrText (''failed to build descriptor for '' @ Quote (net_print E) name @ '': '' @ err_text err))
      | None \<Rightarrow>
          (case g_register_conflict E (rs_files st) fd of
             Some err \<Rightarrow>
               Inl (ErrText (''failed to register file descriptor '' @ Quote (net_print E) name @
                     '': '' @ err_text err))
           | None \<Rightarrow> Inr (mark name (st\<lparr>rs_files := rs_files st @ [fd]\<rparr>))))"

function (sequential) register ::
    "('w, 'x) grpc_net_scheme \<Rightarrow> (string \<Rightarrow> fdp option) \<Rightarrow> nat \<Rightarrow> string \<Rightarrow> reg_state \<Rightarrow>
       (go_error + reg_state) option"
and register_deps ::
    "('w, 'x) grpc_net_scheme \<Rightarrow> (string \<Rightarrow> fdp option) \<Rightarrow> nat \<Rightarrow> string list \<Rightarrow> reg_state \<Rightarrow>
       (go_error + reg_state) option" where
  "register E byName 0 name st = None"
| "register E byName (Suc n) name st =
     (if name \<in> set (rs_registered st) then Some (Inr st)
      else case byName name of
        None \<Rightarrow>
          if g_global_file E name \<noteq> None then Some (Inr (mark name st))
          else Some (Inl (ErrText (''missing file descriptor for dependency '' @
                 Quote (net_print E) name)))
      | Some fd \<Rightarrow>
          (case register_deps E byName n (fdp_Dependency fd) st of
             None \<Rightarrow> None
           | Some (Inl err) \<Rightarrow> Some (Inl err)
           | Some (Inr st') \<Rightarrow> Some (register_file E name fd st')))"
| "register_deps E byName n [] st = Some (Inr st)"
| "register_deps E byName n (dep # deps) st =
     (case register E byName n dep st of
        None \<Rightarrow> None
      | Some (Inl err) \<Rightarrow> Some (Inl err)
      | Some (Inr st') \<Rightarrow> register_deps E byName n deps st')"
  by pat_completeness auto
termination
  by (relation "measures [case_sum (\<lambda>(E, b, n, x, s). n) (\<lambda>(E, b, n, x, s). n),
        case_sum (\<lambda>_. 0) (\<lambda>(E, b, n, ds, s). Suc (length ds))]") auto

fun unmarshal_all ::
  "('w, 'x) grpc_net_scheme \<Rightarrow> string list \<Rightarrow> go_error + fdp list" where
  "unmarshal_all E [] = Inr []"
| "unmarshal_all E (b # bs) =
     (case g_unmarshal_fdp E b of
        Inl err \<Rightarrow> Inl (ErrText (''failed to unmarshal FileDescriptorProto: '' @ err_text err))
      | Inr fd \<Rightarrow>
          (case unmarshal_all E bs of Inl e \<Rightarrow> Inl e | Inr fds \<Rightarrow> Inr (fd # fds)))"

definition by_name :: "fdp list \<Rightarrow> string \<Rightarrow> fdp option" where
  "by_name protos = map_of (rev (map (\<lambda>fd. (fdp_Name fd, fd)) protos))"

definition buildFileSet ::
  "('w, 'x) grpc_net_scheme \<Rightarrow> string list \<Rightarrow> (go_error + fdp list) option" where
  "buildFileSet E fdBytes =
     (let total = sum_list (map length fdBytes)
      in if total > maxReflectionResponseBytes
         then Some (Inl (ErrText (''reflection response too large ('' @ Itoa (int total) @
                '' bytes, limit '' @ Itoa (int maxReflectionResponseBytes) @ '')'')))
         else case unmarshal_all E fdBytes of
           Inl err \<Rightarrow> Some (Inl err)
         | Inr protos \<Rightarrow>
             (case register_deps E (by_name protos) (g_depth E) (map fdp_Name protos)
                     \<lparr>rs_files = [], rs_registered = []\<rparr> of
                None \<Rightarrow> None
              | Some (Inl err) \<Rightarrow> Some (Inl err)
              | Some (Inr st) \<Rightarrow> Some (Inr (rs_files st))))"

section \<open>fetchFileDescriptorBytes and resolveMethodDescriptor\<close>

definition fetchFileDescriptorBytes ::
  "('w, 'x) grpc_net_scheme \<Rightarrow> go_ctx \<Rightarrow> string \<Rightarrow> string \<Rightarrow> 'w \<Rightarrow> (go_error + string list) \<times> 'w" where
  "fetchFileDescriptorBytes E ctx conn serviceSymbol w =
     (case g_refl_open E conn ctx w of
        (Some err, w) \<Rightarrow> (Inl (ErrText (''failed to open reflection stream: '' @ err_text err)), w)
      | (None, w) \<Rightarrow>
          (case g_refl_send E conn serviceSymbol w of
             (Some err, w) \<Rightarrow> (Inl (ErrText (''reflection request send error: '' @ err_text err)), w)
           | (None, w) \<Rightarrow>
               (case g_refl_recv E conn w of
                  (Inl err, w) \<Rightarrow> (Inl (ErrText (''reflection stream recv error: '' @ err_text err)), w)
                | (Inr (ErrorResponse code msg), w) \<Rightarrow>
                    (Inl (ErrText (''reflection error (code '' @ Itoa code @ ''): '' @ msg)), w)
                | (Inr (FileDescriptorResponse bs), w) \<Rightarrow> (Inr bs, w)
                | (Inr (OtherResponse ty), w) \<Rightarrow>
                    (Inl (ErrText (''unexpected reflection response type: '' @ ty)), w))))"

definition resolveMethodDescriptor ::
  "('w, 'x) grpc_net_scheme \<Rightarrow> go_ctx \<Rightarrow> string \<Rightarrow> string \<Rightarrow> string \<Rightarrow> 'w \<Rightarrow>
     ((go_error + method_desc) \<times> 'w) option" where
  "resolveMethodDescriptor E ctx conn serviceSymbol methodName w =
     (let q = Quote (net_print E)
      in case fetchFileDescriptorBytes E ctx conn serviceSymbol w of
           (Inl err, w) \<Rightarrow>
             Some (Inl (ErrText (''server reflection unavailable or service '' @ q serviceSymbol @
                     '' not found: '' @ err_text err)), w)
         | (Inr fdBytes, w) \<Rightarrow>
             (case buildFileSet E fdBytes of
                None \<Rightarrow> None
              | Some (Inl err) \<Rightarrow>
                  Some (Inl (ErrText (''failed to build file descriptors for service '' @
                         q serviceSymbol @ '': '' @ err_text err)), w)
              | Some (Inr files) \<Rightarrow>
                  (case g_local_descriptor E files serviceSymbol of
                     Inl err \<Rightarrow>
                       Some (Inl (ErrText (''service '' @ q serviceSymbol @
                              '' not found in reflection response: '' @ err_text err)), w)
                   | Inr OtherDescriptor \<Rightarrow>
                       Some (Inl (ErrText (''symbol '' @ q serviceSymbol @ '' is not a service'')), w)
                   | Inr (ServiceDescriptor byName) \<Rightarrow>
                       (case byName methodName of
                          None \<Rightarrow>
                            Some (Inl (ErrText (''method '' @ q methodName @ '' not found in service '' @
                                   q serviceSymbol)), w)
                        | Some md \<Rightarrow>
                            if md_StreamingClient md \<or> md_StreamingServer md
                            then Some (Inl (ErrText (''only unary RPCs are supported; '' @
                                   q (serviceSymbol @ ''/'' @ methodName) @ '' is a streaming method'')), w)
                            else Some (Inr md, w)))))"

section \<open>Lemmas\<close>

lemma by_name_Name: "by_name protos name = Some fd \<Longrightarrow> fdp_Name fd = name \<and> fd \<in> set protos"
  by (auto simp: by_name_def dest!: map_of_SomeD)

lemma by_name_None: "by_name protos name = None \<longleftrightarrow> name \<notin> fdp_Name ` set protos"
  by (auto simp: by_name_def map_of_eq_None_iff image_image)

lemma find_file_None:
  "registry_law E \<Longrightarrow> g_find_file E files path = None \<longleftrightarrow> path \<notin> fdp_Name ` set files"
  by (simp add: registry_law_def)

text \<open>A file comes after every dependency that is in the received set; other ones are global.\<close>

fun deps_first :: "('w, 'x) grpc_net_scheme \<Rightarrow> string set \<Rightarrow> fdp list \<Rightarrow> bool" where
  "deps_first E seen [] = True"
| "deps_first E seen (fd # fds) \<longleftrightarrow>
     (\<forall>d \<in> set (fdp_Dependency fd). d \<in> seen \<or> g_global_file E d \<noteq> None) \<and>
     fdp_Name fd \<notin> seen \<and> deps_first E (insert (fdp_Name fd) seen) fds"

lemma deps_first_snoc:
  "deps_first E seen (fds @ [fd]) \<longleftrightarrow>
     deps_first E seen fds \<and>
     (\<forall>d \<in> set (fdp_Dependency fd).
        d \<in> seen \<union> fdp_Name ` set fds \<or> g_global_file E d \<noteq> None) \<and>
     fdp_Name fd \<notin> seen \<union> fdp_Name ` set fds"
  by (induction fds arbitrary: seen) auto

lemma deps_first_distinct:
  "deps_first E seen fds \<Longrightarrow> distinct (map fdp_Name fds) \<and> seen \<inter> fdp_Name ` set fds = {}"
  by (induction fds arbitrary: seen) auto

definition reg_inv ::
  "('w, 'x) grpc_net_scheme \<Rightarrow> (string \<Rightarrow> fdp option) \<Rightarrow> reg_state \<Rightarrow> bool" where
  "reg_inv E byName st \<longleftrightarrow>
     deps_first E {} (rs_files st) \<and>
     (\<forall>n \<in> set (rs_registered st).
        n \<in> fdp_Name ` set (rs_files st) \<or> byName n = None \<and> g_global_file E n \<noteq> None) \<and>
     (\<forall>fd \<in> set (rs_files st). byName (fdp_Name fd) = Some fd)"

lemma reg_inv_mark:
  "name \<in> fdp_Name ` set (rs_files st) \<Longrightarrow> reg_inv E byName st \<Longrightarrow> reg_inv E byName (mark name st)"
  unfolding reg_inv_def mark_def by simp

lemma reg_inv_add:
  assumes "reg_inv E byName st" and "byName (fdp_Name fd) = Some fd"
    and "fdp_Name fd \<notin> fdp_Name ` set (rs_files st)"
    and "\<forall>d \<in> set (fdp_Dependency fd). d \<in> fdp_Name ` set (rs_files st) \<or> g_global_file E d \<noteq> None"
  shows "reg_inv E byName (st\<lparr>rs_files := rs_files st @ [fd]\<rparr>)"
  using assms unfolding reg_inv_def by (simp add: deps_first_snoc)

lemma register_file_inv:
  assumes law: "registry_law E" and "register_file E name fd st = Inr st'" and "reg_inv E byName st"
    and "byName name = Some fd" "fdp_Name fd = name"
    and "set (fdp_Dependency fd) \<subseteq> set (rs_registered st)"
  shows "reg_inv E byName st' \<and> name \<in> set (rs_registered st') \<and>
    set (rs_registered st) \<subseteq> set (rs_registered st')"
proof (cases "g_find_file E (rs_files st) (fdp_Name fd) = None")
  case True
  with assms have st': "st' = mark name (st\<lparr>rs_files := rs_files st @ [fd]\<rparr>)"
    by (auto simp: register_file_def split: option.splits)
  from True have new: "name \<notin> fdp_Name ` set (rs_files st)"
    using assms(5) by (simp add: find_file_None [OF law])
  have "\<forall>d \<in> set (fdp_Dependency fd). d \<in> fdp_Name ` set (rs_files st) \<or> g_global_file E d \<noteq> None"
    using assms(3,6) by (auto simp: reg_inv_def)
  then have "reg_inv E byName (st\<lparr>rs_files := rs_files st @ [fd]\<rparr>)"
    using assms(3-5) new by (intro reg_inv_add) simp_all
  then have "reg_inv E byName st'" unfolding st' using assms(5) by (intro reg_inv_mark) auto
  then show ?thesis by (auto simp: st' mark_def)
next
  case False
  with assms(2) have st': "st' = mark name st" by (simp add: register_file_def)
  from False assms(5) have "name \<in> fdp_Name ` set (rs_files st)" by (simp add: find_file_None [OF law])
  then have "reg_inv E byName (mark name st)" using assms(3) by (rule reg_inv_mark)
  then show ?thesis by (auto simp: st' mark_def)
qed

lemma register_inv:
  fixes byName :: "string \<Rightarrow> fdp option"
  assumes law: "registry_law E" and names: "\<And>n fd. byName n = Some fd \<Longrightarrow> fdp_Name fd = n"
  shows "register E byName n name st = Some (Inr st') \<Longrightarrow> reg_inv E byName st \<Longrightarrow>
      reg_inv E byName st' \<and> name \<in> set (rs_registered st') \<and>
      set (rs_registered st) \<subseteq> set (rs_registered st')"
    and "register_deps E byName n deps st = Some (Inr st') \<Longrightarrow> reg_inv E byName st \<Longrightarrow>
      reg_inv E byName st' \<and> set deps \<subseteq> set (rs_registered st') \<and>
      set (rs_registered st) \<subseteq> set (rs_registered st')"
  using law names
proof (induction E byName n name st and E byName n deps st arbitrary: st' and st'
    rule: register_register_deps.induct)
  case (2 E byName n name st)
  show ?case
  proof (cases "name \<in> set (rs_registered st) \<or> byName name = None")
    case True
    with "2.prems" show ?thesis
      by (auto simp: mark_def reg_inv_def split: if_splits option.splits)
  next
    case False
    then obtain fd where fd: "byName name = Some fd" "name \<notin> set (rs_registered st)" by auto
    with "2.prems"(1) obtain st1 where deps:
        "register_deps E byName n (fdp_Dependency fd) st = Some (Inr st1)"
      and reg: "register_file E name fd st1 = Inr st'"
      by (auto split: option.splits sum.splits)
    from "2.IH" [OF fd(2,1) deps "2.prems"(2)] "2.prems"(3,4)
    have "reg_inv E byName st1 \<and> set (fdp_Dependency fd) \<subseteq> set (rs_registered st1) \<and>
        set (rs_registered st) \<subseteq> set (rs_registered st1)" by blast
    with register_file_inv [OF "2.prems"(3), of name fd st1 st' byName] reg fd(1) "2.prems"(4) [OF fd(1)]
    show ?thesis by blast
  qed
next
  case (4 E byName n dep deps st)
  then obtain st1 where st1: "register E byName n dep st = Some (Inr st1)"
    and rest: "register_deps E byName n deps st1 = Some (Inr st')"
    by (auto split: option.splits sum.splits)
  from "4.IH"(1) [OF st1 "4.prems"(2-4)] have h1:
    "reg_inv E byName st1 \<and> dep \<in> set (rs_registered st1) \<and> set (rs_registered st) \<subseteq> set (rs_registered st1)" .
  with "4.IH"(2) [OF st1 refl rest _ "4.prems"(3,4)] show ?case by auto
qed auto

section \<open>Termination of the registration\<close>

text \<open>With a rank that decreases along every dependency, depth above the rank is enough.\<close>

lemma register_returns:
  assumes "\<And>m fd d. byName m = Some fd \<Longrightarrow> d \<in> set (fdp_Dependency fd) \<Longrightarrow> rank d < (rank m :: nat)"
  shows "rank name < n \<Longrightarrow> register E byName n name st \<noteq> None"
    and "(\<And>d. d \<in> set deps \<Longrightarrow> rank d < n) \<Longrightarrow> register_deps E byName n deps st \<noteq> None"
  using assms
proof (induction E byName n name st and E byName n deps st rule: register_register_deps.induct)
  case (2 E byName n name st)
  then show ?case by (force split: option.splits sum.splits)
next
  case (4 E byName n dep deps st)
  then show ?case by (force split: option.splits sum.splits)
qed auto

text \<open>A file whose first dependency leads back into a set of such files is never registered.\<close>

lemma register_cycle:
  assumes "\<And>m. m \<in> C \<Longrightarrow>
      \<exists>fd d ds. byName m = Some fd \<and> fdp_Dependency fd = d # ds \<and> d \<in> C"
  shows "name \<in> C \<Longrightarrow> C \<inter> set (rs_registered st) = {} \<Longrightarrow> register E byName n name st = None"
proof (induction n arbitrary: name)
  case 0
  show ?case by simp
next
  case (Suc n)
  from assms [OF Suc.prems(1)] obtain fd d ds where
    fd: "byName name = Some fd" "fdp_Dependency fd = d # ds" "d \<in> C" by blast
  from Suc.prems have "name \<notin> set (rs_registered st)" by auto
  with fd Suc.IH [OF fd(3) Suc.prems(2)] show ?case by simp
qed

section \<open>A server for concrete runs\<close>

text \<open>
  Serialized descriptors are here the file name, optionally followed by a space and the name of one
  import; descriptors are always accepted; the server knows one service with one unary method.
\<close>

definition sample_fdp :: "string \<Rightarrow> fdp" where
  "sample_fdp b =
     (case SplitByte b CHR '' '' of
        [] \<Rightarrow> \<lparr>fdp_Name = [], fdp_Dependency = [], fdp_Content = []\<rparr>
      | n # ds \<Rightarrow> \<lparr>fdp_Name = n, fdp_Dependency = ds, fdp_Content = []\<rparr>)"

definition sample_method :: "string \<Rightarrow> method_desc" where
  "sample_method m =
     \<lparr>md_Name = m, md_Parent = ''pkg.Greeter'', md_StreamingClient = False,
      md_StreamingServer = False, md_Input = ''pkg.Req'', md_Output = ''pkg.Resp''\<rparr>"

definition sample_grpc :: "int grpc_net" where
  "sample_grpc = net.extend sample_net
     \<lparr>g_new_client = (\<lambda>_. None), g_refl_open = (\<lambda>_ _ w. (None, w)),
      g_refl_send = (\<lambda>_ _ w. (None, w)),
      g_refl_recv = (\<lambda>_ w. (Inr (FileDescriptorResponse [''a.proto b.proto'', ''b.proto'']), w)),
      g_unmarshal_fdp = (\<lambda>b. Inr (sample_fdp b)), 
      g_find_file = (\<lambda>files path. find (\<lambda>f. fdp_Name f = path) files), g_global_file = (\<lambda>_. None),
      g_global_message = (\<lambda>_. None),
      g_local_descriptor =
        (\<lambda>_ _. Inr (ServiceDescriptor [''SayHello'' \<mapsto> sample_method ''SayHello'', ''SayBye'' \<mapsto> sample_method ''SayBye''])),
      g_new_file = (\<lambda>_ _ _. None), g_register_conflict = (\<lambda>_ _. None), g_depth = Suc (Suc (Suc 0)),
      g_unmarshal_json = (\<lambda>_ s. Inr s), g_marshal_json = (\<lambda>_ s. Inr s),
      g_invoke = (\<lambda>_ _ path req w. (Inr path, w + 5 * Millisecond)),
      g_close = (\<lambda>_ w. (None, w))\<rparr>"

lemma sample_grpc_laws: "registry_law sample_grpc" "method_law sample_grpc"
  by (auto simp: registry_law_def method_law_def sample_grpc_def net.defs find_None_iff sample_method_def
      split: if_splits)

section \<open>Properties\<close>

definition empty_reg :: reg_state where
  "empty_reg = \<lparr>rs_files = [], rs_registered = []\<rparr>"

lemma reg_inv_empty: "reg_inv E byName empty_reg"
  by (simp add: reg_inv_def empty_reg_def)

lemma buildFileSet_eq:
  assumes "sum_list (map length bs) \<le> maxReflectionResponseBytes" and "unmarshal_all E bs = Inr protos"
  shows "buildFileSet E bs =
    (case register_deps E (by_name protos) (g_depth E) (map fdp_Name protos) empty_reg of
       None \<Rightarrow> None | Some (Inl err) \<Rightarrow> Some (Inl err) | Some (Inr st) \<Rightarrow> Some (Inr (rs_files st)))"
  using assms by (simp add: buildFileSet_def empty_reg_def)



text \<open>
  C27. Registration terminates on acyclic descriptors: if the files that decode from the response can
  be ranked so that every import of a file has a smaller rank than the file, and the ranks fit the
  depth of the stack, then buildFileSet returns, with a file set or with an error.
\<close>

theorem buildFileSet_returns:
  assumes "\<And>protos fd d. unmarshal_all E bs = Inr protos \<Longrightarrow> fd \<in> set protos \<Longrightarrow>
      d \<in> set (fdp_Dependency fd) \<Longrightarrow> rank d < (rank (fdp_Name fd) :: nat)"
    and "\<And>protos fd. unmarshal_all E bs = Inr protos \<Longrightarrow> fd \<in> set protos \<Longrightarrow>
      rank (fdp_Name fd) < g_depth E"
  shows "\<exists>r. buildFileSet E bs = Some r"
proof (cases "sum_list (map length bs) \<le> maxReflectionResponseBytes \<and> (\<exists>p. unmarshal_all E bs = Inr p)")
  case False
  then show ?thesis
    by (cases "unmarshal_all E bs") (auto simp: buildFileSet_def Let_def)
next
  case True
  then obtain protos where p: "sum_list (map length bs) \<le> maxReflectionResponseBytes"
      "unmarshal_all E bs = Inr protos" by blast
  have "register_deps E (by_name protos) (g_depth E) (map fdp_Name protos) empty_reg \<noteq> None"
  proof (rule register_returns(2) [where rank = rank])
    fix m fd d assume "by_name protos m = Some fd" "d \<in> set (fdp_Dependency fd)"
    then show "rank d < rank m" using assms(1) [OF p(2)] by_name_Name by blast
  next
    fix d assume "d \<in> set (map fdp_Name protos)"
    then show "rank d < g_depth E" using assms(2) [OF p(2)] by auto
  qed
  then show ?thesis
    by (auto simp: buildFileSet_eq [OF p] split: option.splits sum.splits)
qed

theorem buildFileSet_returns_witness:
  "\<exists>r. buildFileSet sample_grpc [''a.proto b.proto'', ''b.proto''] = Some r"
proof (rule buildFileSet_returns [where rank = "\<lambda>n. if n = ''b.proto'' then 0 else 1"])
  have p: "unmarshal_all sample_grpc [''a.proto b.proto'', ''b.proto''] =
      Inr [sample_fdp ''a.proto b.proto'', sample_fdp ''b.proto'']"
    by (simp add: sample_grpc_def net.defs grpc_net.defs)
  fix protos fd d
  assume "unmarshal_all sample_grpc [''a.proto b.proto'', ''b.proto''] = Inr protos" "fd \<in> set protos"
  with p have fd: "fd = sample_fdp ''a.proto b.proto'' \<or> fd = sample_fdp ''b.proto''" by auto
  then show "(if fdp_Name fd = ''b.proto'' then 0 else 1) < g_depth sample_grpc"
    by (auto simp: sample_grpc_def net.defs)
  assume "d \<in> set (fdp_Dependency fd)"
  with fd show "(if d = ''b.proto'' then 0 else 1) < (if fdp_Name fd = ''b.proto'' then 0 else (1 :: nat))"
    by (auto simp: sample_fdp_def)
qed



end
