(* ===== verification/Grpc_Sender.thy ===== *)
theory Grpc_Sender
  imports Reflection
begin

text \<open>
  The gRPC sender (pkg/warmup/grpc_sender.go, GRPCSender): it dials on the first call, looks the
  method up by server reflection, and keeps the connection, the method and its two messages for the
  calls that follow. A failed lookup is remembered and never tried again.
\<close>

section \<open>State\<close>

text \<open>A dynamic message: the full name of its type and its fields. \<^verbatim>\<open>proto.Reset\<close> clears the fields.\<close>

record dyn_msg =
  msg_Type :: string
  msg_Fields :: string

definition msg_reset :: "dyn_msg \<Rightarrow> dyn_msg" where
  "msg_reset m = m\<lparr>msg_Fields := []\<rparr>"

record grpc_sender =
  gs_conn :: "string option"
  gs_methodDesc :: "method_desc option"
  gs_methodPath :: string
  gs_reqMsg :: dyn_msg
  gs_respMsg :: dyn_msg
  gs_reflectionFailed :: bool

definition nil_msg :: dyn_msg where
  "nil_msg = \<lparr>msg_Type = [], msg_Fields = []\<rparr>"

definition NewGRPCSender :: grpc_sender where
  "NewGRPCSender =
     \<lparr>gs_conn = None, gs_methodDesc = None, gs_methodPath = [], gs_reqMsg = nil_msg,
      gs_respMsg = nil_msg, gs_reflectionFailed = False\<rparr>"

section \<open>Send\<close>

definition invalid_method_text :: "(nat \<Rightarrow> bool) \<Rightarrow> string \<Rightarrow> string" where
  "invalid_method_text print m =
     ''invalid gRPC method '' @ Quote print m @ '': expected format \"package.Service/Method\"''"

text \<open>\<^verbatim>\<open>return &Response{Error: err, Duration: time.Since(start)}\<close>\<close>

definition fail_since ::
  "('w, 'x) grpc_net_scheme \<Rightarrow> instant \<Rightarrow> go_error \<Rightarrow> 's \<Rightarrow> 'w \<Rightarrow> response \<times> 's \<times> 'w" where
  "fail_since E start err s w = (let (t, w) = net_now E w in (error_response err (t - start), s, w))"

text \<open>The lazy dial: \<open>Inl\<close> is the early return.\<close>

definition grpc_dial ::
  "('w, 'x) grpc_net_scheme \<Rightarrow> target \<Rightarrow> grpc_sender \<Rightarrow> go_error + grpc_sender" where
  "grpc_dial E tgt s =
     (case gs_conn s of
        Some _ \<Rightarrow> Inr s
      | None \<Rightarrow>
          (case g_new_client E (tgt_Address tgt) of
             Some err \<Rightarrow> Inl (ErrText (''grpc dial '' @ tgt_Address tgt @ '': '' @ err_text err))
           | None \<Rightarrow> Inr (s\<lparr>gs_conn := Some (tgt_Address tgt)\<rparr>)))"

text \<open>The lazy reflection lookup: an error, if any, and the state of the sender after it.\<close>

definition grpc_lookup ::
  "('w, 'x) grpc_net_scheme \<Rightarrow> go_ctx \<Rightarrow> target \<Rightarrow> grpc_sender \<Rightarrow> 'w \<Rightarrow>
     (go_error option \<times> grpc_sender \<times> 'w) option" where
  "grpc_lookup E ctx tgt s w =
     (if gs_methodDesc s \<noteq> None then Some (None, s, w)
      else if gs_reflectionFailed s
      then Some (Some (ErrText ''skipping: previous reflection lookup failed''), s, w)
      else case parseGRPCMethod (tgt_Method tgt) of
        None \<Rightarrow>
          Some (Some (ErrText (invalid_method_text (net_print E) (tgt_Method tgt))),
                s\<lparr>gs_reflectionFailed := True\<rparr>, w)
      | Some (serviceSymbol, methodName) \<Rightarrow>
          (case resolveMethodDescriptor E ctx (the_default [] (gs_conn s)) serviceSymbol methodName w of
             None \<Rightarrow> None
           | Some (Inl err, w) \<Rightarrow> Some (Some err, s\<lparr>gs_reflectionFailed := True\<rparr>, w)
           | Some (Inr md, w) \<Rightarrow>
               Some (None,
                 s\<lparr>gs_methodDesc := Some md,
                   gs_methodPath := ''/'' @ md_Parent md @ ''/'' @ md_Name md,
                   gs_reqMsg := \<lparr>msg_Type = md_Input md, msg_Fields = []\<rparr>,
                   gs_respMsg := \<lparr>msg_Type = md_Output md, msg_Fields = []\<rparr>\<rparr>, w)))"

text \<open>Filling the request message from the payload; an empty payload leaves it empty.\<close>

definition fill_request ::
  "('w, 'x) grpc_net_scheme \<Rightarrow> string \<Rightarrow> dyn_msg \<Rightarrow> go_error + dyn_msg" where
  "fill_request E payload m =
     (if payload = [] then Inr (msg_reset m)
      else case g_unmarshal_json E (msg_Type m) payload of
        Inl err \<Rightarrow> Inl (ErrText (''invalid gRPC payload: '' @ err_text err))
      | Inr vals \<Rightarrow> Inr ((msg_reset m)\<lparr>msg_Fields := vals\<rparr>))"

text \<open>The unary call and what becomes of its outcome. A body that cannot be marshalled is nil.\<close>

definition grpc_call ::
  "('w, 'x) grpc_net_scheme \<Rightarrow> go_ctx \<Rightarrow> instant \<Rightarrow> grpc_sender \<Rightarrow> 'w \<Rightarrow> response \<times> grpc_sender \<times> 'w" where
  "grpc_call E ctx start s w =
     (let s = s\<lparr>gs_respMsg := msg_reset (gs_respMsg s)\<rparr>;
          (r, w) = g_invoke E (the_default [] (gs_conn s)) ctx (gs_methodPath s)
                     (msg_Fields (gs_reqMsg s)) w;
          (t, w) = net_now E w
      in case r of
           Inl (code, err) \<Rightarrow>
             if code = CodeCanceled \<or> code = CodeDeadlineExceeded
             then (error_response err (t - start), s, w)
             else (\<lparr>resp_StatusCode = 500, resp_Duration = t - start, resp_Body = [],
                    resp_Error = None\<rparr>, s, w)
         | Inr vals \<Rightarrow>
             (\<lparr>resp_StatusCode = 200, resp_Duration = t - start,
               resp_Body = (case g_marshal_json E (msg_Type (gs_respMsg s)) vals of
                              Inl _ \<Rightarrow> [] | Inr body \<Rightarrow> body),
               resp_Error = None\<rparr>,
              s\<lparr>gs_respMsg := (gs_respMsg s)\<lparr>msg_Fields := vals\<rparr>\<rparr>, w))"

definition GRPCSender_Send ::
  "('w, 'x) grpc_net_scheme \<Rightarrow> grpc_sender \<Rightarrow> go_ctx \<Rightarrow> target \<Rightarrow> 'w \<Rightarrow>
     (response \<times> grpc_sender \<times> 'w) option" where
  "GRPCSender_Send E s ctx tgt w =
     (let (start, w) = net_now E w
      in case grpc_dial E tgt s of
           Inl err \<Rightarrow> Some (fail_since E start err s w)
         | Inr s \<Rightarrow>
             (case grpc_lookup E ctx tgt s w of
                None \<Rightarrow> None
              | Some (Some err, s, w) \<Rightarrow> Some (fail_since E start err s w)
              | Some (None, s, w) \<Rightarrow>
                  (case fill_request E (tgt_Payload tgt) (gs_reqMsg s) of
                     Inl err \<Rightarrow> Some (fail_since E start err (s\<lparr>gs_reqMsg := msg_reset (gs_reqMsg s)\<rparr>) w)
                   | Inr m \<Rightarrow> Some (grpc_call E ctx start (s\<lparr>gs_reqMsg := m\<rparr>) w))))"

definition GRPCSender_Close ::
  "('w, 'x) grpc_net_scheme \<Rightarrow> grpc_sender \<Rightarrow> 'w \<Rightarrow> go_error option \<times> 'w" where
  "GRPCSender_Close E s w =
     (case gs_conn s of Some conn \<Rightarrow> g_close E conn w | None \<Rightarrow> (None, w))"

section \<open>The contract of a sender\<close>

lemmas grpc_send_defs = GRPCSender_Send_def fail_since_def grpc_call_def error_response_def Let_def

interpretation grpc: sender "GRPCSender_Send E" for E
  by unfold_locales
    (auto simp: grpc_send_defs split: prod.splits option.splits sum.splits if_splits)

section \<open>Lemmas\<close>

lemma grpc_dial_keeps:
  "grpc_dial E tgt s = Inr s' \<Longrightarrow>
     gs_methodDesc s' = gs_methodDesc s \<and> gs_methodPath s' = gs_methodPath s \<and>
     gs_reflectionFailed s' = gs_reflectionFailed s \<and> gs_conn s' \<noteq> None \<and>
     (gs_conn s \<noteq> None \<longrightarrow> s' = s)"
  by (auto simp: grpc_dial_def split: option.splits)

lemma grpc_call_keeps:
  "grpc_call E ctx start s w = (r, s', w') \<Longrightarrow>
     gs_methodDesc s' = gs_methodDesc s \<and> gs_methodPath s' = gs_methodPath s \<and>
     gs_conn s' = gs_conn s \<and> gs_reflectionFailed s' = gs_reflectionFailed s"
  by (auto simp: grpc_call_def Let_def split: prod.splits sum.splits if_splits)

lemma grpc_call_status:
  "grpc_call E ctx start s w = (r, s', w') \<Longrightarrow> resp_Error r = None \<Longrightarrow>
     resp_StatusCode r = 200 \<or> resp_StatusCode r = 500"
  by (auto simp: grpc_call_def error_response_def Let_def
      split: prod.splits sum.splits if_splits)

lemma grpc_lookup_cached:
  "gs_methodDesc s \<noteq> None \<Longrightarrow> grpc_lookup E ctx tgt s w = Some (None, s, w)"
  by (simp add: grpc_lookup_def)

lemma grpc_lookup_failed:
  "gs_methodDesc s = None \<Longrightarrow> gs_reflectionFailed s \<Longrightarrow>
     grpc_lookup E ctx tgt s w =
       Some (Some (ErrText ''skipping: previous reflection lookup failed''), s, w)"
  by (simp add: grpc_lookup_def)

text \<open>What the state of a sender holds: the path and the messages belong to the method, a method excludes a
  recorded failure, and either needs a connection.\<close>

definition grpc_wf :: "grpc_sender \<Rightarrow> bool" where
  "grpc_wf s \<longleftrightarrow>
     (case gs_methodDesc s of
        None \<Rightarrow> gs_reflectionFailed s \<longrightarrow> gs_conn s \<noteq> None
      | Some md \<Rightarrow>
          gs_methodPath s = ''/'' @ md_Parent md @ ''/'' @ md_Name md \<and>
          msg_Type (gs_reqMsg s) = md_Input md \<and> msg_Type (gs_respMsg s) = md_Output md \<and>
          \<not> md_StreamingClient md \<and> \<not> md_StreamingServer md \<and>
          gs_conn s \<noteq> None \<and> \<not> gs_reflectionFailed s)"

lemma resolveMethodDescriptor_unary:
  "resolveMethodDescriptor E ctx conn svc m w = Some (Inr md, w') \<Longrightarrow>
     (method_law E \<longrightarrow> md_Name md = m) \<and> \<not> md_StreamingClient md \<and> \<not> md_StreamingServer md"
  by (auto simp: resolveMethodDescriptor_def Let_def method_law_def
      split: prod.splits sum.splits option.splits descriptor.splits if_splits)

lemma grpc_lookup_wf:
  assumes "grpc_lookup E ctx tgt s w = Some (e, s', w')" and "grpc_wf s" and "gs_conn s \<noteq> None"
  shows "grpc_wf s' \<and> gs_conn s' = gs_conn s \<and>
    (e = None \<longrightarrow> gs_methodDesc s' \<noteq> None) \<and>
    (e \<noteq> None \<longrightarrow> gs_methodDesc s' = None \<and> gs_reflectionFailed s')"
  using assms
  by (auto simp: grpc_lookup_def grpc_wf_def
      dest!: resolveMethodDescriptor_unary
      split: if_splits option.splits sum.splits)

lemma grpc_wf_new: "grpc_wf NewGRPCSender"
  by (simp add: grpc_wf_def NewGRPCSender_def)

lemma grpc_dial_wf: "grpc_dial E tgt s = Inr s' \<Longrightarrow> grpc_wf s \<Longrightarrow> grpc_wf s'"
  by (auto simp: grpc_dial_def grpc_wf_def split: option.splits)

lemma grpc_call_wf: "grpc_call E ctx start s w = (r, s', w') \<Longrightarrow> grpc_wf s \<Longrightarrow> grpc_wf s'"
  by (auto simp: grpc_call_def grpc_wf_def msg_reset_def Let_def
      split: prod.splits sum.splits if_splits option.splits)

lemma grpc_wf_reqMsg: "grpc_wf s \<Longrightarrow> msg_Type m = msg_Type (gs_reqMsg s) \<Longrightarrow> grpc_wf (s\<lparr>gs_reqMsg := m\<rparr>)"
  by (simp add: grpc_wf_def split: option.splits)

lemma fill_request_type: "fill_request E p m = Inr m' \<Longrightarrow> msg_Type m' = msg_Type m"
  by (auto simp: fill_request_def msg_reset_def split: if_splits sum.splits)

lemma fail_since_state: "fail_since E start err s w = (r, s', w') \<Longrightarrow> s' = s"
  by (simp add: fail_since_def Let_def split: prod.splits)

lemma fail_since_error: "fail_since E start err s w = (r, s', w') \<Longrightarrow> resp_Error r = Some err"
  by (auto simp: fail_since_def error_response_def Let_def split: prod.splits)

text \<open>The phases of a call, for the proofs below.\<close>

lemma grpc_send_cases:
  assumes "GRPCSender_Send E s ctx tgt w = Some (r, s', w')"
  obtains (dial) start err w1 where "fail_since E start err s w1 = (r, s', w')"
    | (lookup) start err s1 s2 w1 w2 where "grpc_dial E tgt s = Inr s1"
        "grpc_lookup E ctx tgt s1 w1 = Some (Some err, s2, w2)" "fail_since E start err s2 w2 = (r, s', w')"
    | (payload) start err s1 s2 w1 w2 where "grpc_dial E tgt s = Inr s1"
        "grpc_lookup E ctx tgt s1 w1 = Some (None, s2, w2)"
        "fail_since E start err (s2\<lparr>gs_reqMsg := msg_reset (gs_reqMsg s2)\<rparr>) w2 = (r, s', w')"
    | (call) start m s1 s2 w1 w2 where "grpc_dial E tgt s = Inr s1"
        "grpc_lookup E ctx tgt s1 w1 = Some (None, s2, w2)"
        "fill_request E (tgt_Payload tgt) (gs_reqMsg s2) = Inr m"
        "grpc_call E ctx start (s2\<lparr>gs_reqMsg := m\<rparr>) w2 = (r, s', w')"
  using assms that
  by (auto simp: GRPCSender_Send_def Let_def split: prod.splits option.splits sum.splits)

lemma grpc_send_wf:
  assumes "GRPCSender_Send E s ctx tgt w = Some (r, s', w')" and "grpc_wf s"
  shows "grpc_wf s'"
  using assms(1)
proof (cases rule: grpc_send_cases)
  case dial
  with assms(2) show ?thesis by (auto dest: fail_since_state)
next
  case (lookup start err s1 s2 w1 w2)
  from grpc_dial_wf [OF lookup(1) assms(2)] grpc_dial_keeps [OF lookup(1)]
    grpc_lookup_wf [OF lookup(2)] fail_since_state [OF lookup(3)] show ?thesis by simp
next
  case (payload start err s1 s2 w1 w2)
  from grpc_dial_wf [OF payload(1) assms(2)] grpc_dial_keeps [OF payload(1)]
    grpc_lookup_wf [OF payload(2)] fail_since_state [OF payload(3)] show ?thesis
    by (simp add: grpc_wf_reqMsg msg_reset_def)
next
  case (call start m s1 s2 w1 w2)
  from grpc_dial_wf [OF call(1) assms(2)] grpc_dial_keeps [OF call(1)] grpc_lookup_wf [OF call(2)]
  have "grpc_wf (s2\<lparr>gs_reqMsg := m\<rparr>)" by (simp add: grpc_wf_reqMsg fill_request_type [OF call(3)])
  with call(4) show ?thesis by (rule grpc_call_wf)
qed

section \<open>Properties\<close>

text \<open>
  C30. Send keeps the sender's state well formed: the cached path is the one of the cached method, the
  messages have its input and output types, only a unary method is ever cached, and a sender that has
  a method has a connection and no recorded failure. A new sender is well formed.
\<close>

theorem GRPCSender_Send_wf:
  assumes "GRPCSender_Send E s ctx tgt w = Some (r, s', w')" and "grpc_wf s"
  shows "grpc_wf s'"
  using assms by (rule grpc_send_wf)

definition hello_target :: target where
  "hello_target =
     \<lparr>tgt_Address = ''10.0.0.7:9090'', tgt_Method = ''pkg.Greeter/SayHello'', tgt_Headers = [],
      tgt_Payload = ''{}''\<rparr>"

lemma hello_send:
  "\<exists>r s w. GRPCSender_Send sample_grpc NewGRPCSender Background hello_target 0 = Some (r, s, w) \<and>
     resp_Error r = None \<and> resp_StatusCode r = 200 \<and> resp_Body r = ''/pkg.Greeter/SayHello''"
proof -
  have "parseGRPCMethod ''pkg.Greeter/SayHello'' = Some (''pkg.Greeter'', ''SayHello'')" by code_simp
  then show ?thesis
    by (simp add: GRPCSender_Send_def NewGRPCSender_def grpc_dial_def grpc_lookup_def hello_target_def
        resolveMethodDescriptor_def fetchFileDescriptorBytes_def buildFileSet_def unmarshal_all.simps
        sample_grpc_def sample_net_def net.defs by_name_def sample_fdp_def maxReflectionResponseBytes_def
        mark_def register_file_def fill_request_def grpc_call_def sample_method_def)
qed

theorem GRPCSender_Send_wf_witness:
  "\<exists>r s w. GRPCSender_Send sample_grpc NewGRPCSender Background hello_target 0 = Some (r, s, w) \<and>
     grpc_wf NewGRPCSender \<and> grpc_wf s"
  using hello_send GRPCSender_Send_wf [OF _ grpc_wf_new] grpc_wf_new by metis

text \<open>
  C28. The method is fixed by the first request that a sender completes: after it, a request for any
  other method, at any other address, is sent exactly as if it named the first method and the first
  address. Only the payload of a later target has an effect. The method that is called carries the
  name the first target asked for, where a method looked up by its name has that name.
\<close>

theorem GRPCSender_method_fixed_by_first:
  assumes "GRPCSender_Send E NewGRPCSender ctx t1 w = Some (r, s, w1)" and "resp_Error r = None"
    and law: "method_law E"
  shows "(\<exists>svc m md. parseGRPCMethod (tgt_Method t1) = Some (svc, m) \<and>
            gs_methodDesc s = Some md \<and> md_Name md = m \<and>
            gs_methodPath s = ''/'' @ md_Parent md @ ''/'' @ m) \<and>
    (\<forall>ctx2 t2 t3 v. tgt_Payload t2 = tgt_Payload t3 \<longrightarrow>
       GRPCSender_Send E s ctx2 t2 v = GRPCSender_Send E s ctx2 t3 v)"
  using assms(1)
proof (cases rule: grpc_send_cases)
  case (call start m s1 s2 w1' w2')
  from call(1) have s1: "gs_methodDesc s1 = None" "gs_reflectionFailed s1 = False" "gs_conn s1 \<noteq> None"
    by (auto simp: NewGRPCSender_def dest: grpc_dial_keeps)
  from call(2) s1 have lk: "\<exists>svc m md. parseGRPCMethod (tgt_Method t1) = Some (svc, m) \<and>
      gs_methodDesc s2 = Some md \<and> md_Name md = m \<and> gs_methodPath s2 = ''/'' @ md_Parent md @ ''/'' @ m \<and>
      gs_conn s2 = gs_conn s1"
    using law by (auto simp: grpc_lookup_def dest!: resolveMethodDescriptor_unary
        split: option.splits sum.splits)
  from grpc_call_keeps [OF call(4)] have k: "gs_methodDesc s = gs_methodDesc s2"
      "gs_methodPath s = gs_methodPath s2" "gs_conn s = gs_conn s2" by simp_all
  from lk k s1 have "gs_methodDesc s \<noteq> None" "gs_conn s \<noteq> None" by auto
  then have "GRPCSender_Send E s ctx2 t2 v = GRPCSender_Send E s ctx2 t3 v"
    if "tgt_Payload t2 = tgt_Payload t3" for ctx2 t2 t3 v
    using that by (auto simp: GRPCSender_Send_def grpc_dial_def grpc_lookup_cached)
  with lk k show ?thesis by metis
qed (use assms(2) in \<open>auto dest: fail_since_error\<close>)

theorem GRPCSender_method_fixed_by_first_witness:
  "\<exists>r s w. GRPCSender_Send sample_grpc NewGRPCSender Background hello_target 0 = Some (r, s, w) \<and>
     GRPCSender_Send sample_grpc s Background (hello_target\<lparr>tgt_Method := ''pkg.Greeter/SayBye''\<rparr>) w =
     GRPCSender_Send sample_grpc s Background hello_target w"
proof -
  from hello_send obtain r s w where
    run: "GRPCSender_Send sample_grpc NewGRPCSender Background hello_target 0 = Some (r, s, w)"
    and ok: "resp_Error r = None" by blast
  have
    "GRPCSender_Send sample_grpc s Background (hello_target\<lparr>tgt_Method := ''pkg.Greeter/SayBye''\<rparr>) w =
     GRPCSender_Send sample_grpc s Background hello_target w"
    by (rule GRPCSender_method_fixed_by_first [OF run ok sample_grpc_laws(2), THEN conjunct2, rule_format]) simp
  with run show ?thesis by blast
qed

text \<open>
  C29. A sender attempts the reflection lookup at most once. When a lookup has failed, every later
  call, whatever its target and context, fails at once with the error "skipping: previous reflection
  lookup failed": it leaves the sender as it is and only reads the clock twice.
\<close>

theorem GRPCSender_reflection_once:
  assumes "GRPCSender_Send E s ctx tgt w = Some (r, s', w')" and "grpc_wf s"
    and "gs_reflectionFailed s'"
  shows "\<exists>d. GRPCSender_Send E s' ctx2 t2 v =
    Some (error_response (ErrText ''skipping: previous reflection lookup failed'') d, s',
          snd (net_now E (snd (net_now E v))))"
proof -
  from grpc_send_wf [OF assms(1,2)] assms(3) have "gs_methodDesc s' = None" "gs_conn s' \<noteq> None"
    by (auto simp: grpc_wf_def split: option.splits)
  then show ?thesis
    using assms(3)
    by (auto simp: GRPCSender_Send_def grpc_dial_def grpc_lookup_failed fail_since_def Let_def
        split: prod.splits)
qed

theorem GRPCSender_reflection_once_witness:
  "\<exists>r s w d. GRPCSender_Send sample_grpc NewGRPCSender Background (hello_target\<lparr>tgt_Method := ''x''\<rparr>) 0 =
       Some (r, s, w) \<and>
     GRPCSender_Send sample_grpc s Background hello_target w =
       Some (error_response (ErrText ''skipping: previous reflection lookup failed'') d, s,
             w + 2 * Millisecond)"
proof -
  have "parseGRPCMethod ''x'' = None" by code_simp
  then obtain r s w where
    run: "GRPCSender_Send sample_grpc NewGRPCSender Background (hello_target\<lparr>tgt_Method := ''x''\<rparr>) 0 =
       Some (r, s, w)" and failed: "gs_reflectionFailed s"
    by (auto simp: GRPCSender_Send_def NewGRPCSender_def grpc_dial_def grpc_lookup_def fail_since_def
        hello_target_def sample_grpc_def sample_net_def net.defs)
  from GRPCSender_reflection_once [OF run grpc_wf_new failed, of Background hello_target w]
  obtain d where "GRPCSender_Send sample_grpc s Background hello_target w =
       Some (error_response (ErrText ''skipping: previous reflection lookup failed'') d, s,
             snd (net_now sample_grpc (snd (net_now sample_grpc w))))" by blast
  moreover have "snd (net_now sample_grpc (snd (net_now sample_grpc w))) = w + 2 * Millisecond"
    by (simp add: sample_grpc_def sample_net_def net.defs)
  ultimately show ?thesis using run by auto
qed

end
