(* ===== verification/Rate_Limiter.thy ===== *)
theory Rate_Limiter
  imports Sender
begin

text \<open>
  The request rate limiter (pkg/warmup/rate_limiter.go): a nil-safe wrapper of a token bucket. A
  nil pointer is \<open>None\<close>. The rate is a finite \<^verbatim>\<open>float64\<close>, here the rational number it stands for.
\<close>

definition maxBurst :: int where [go_const]: "maxBurst = 100000"

text \<open>\<^verbatim>\<open>math.Round\<close>: to the nearest integer, half away from zero.\<close>

definition math_Round :: "rat \<Rightarrow> int" where
  "math_Round x = (if x < 0 then - \<lfloor>- x + 1 / 2\<rfloor> else \<lfloor>x + 1 / 2\<rfloor>)"

text \<open>
  \<^verbatim>\<open>int(x)\<close> of a \<^verbatim>\<open>float64\<close> outside the range of \<^verbatim>\<open>int\<close>: the language leaves the value to the
  implementation, so it is the parameter \<open>oob\<close>.
\<close>

definition float_to_int :: "(int \<Rightarrow> int) \<Rightarrow> int \<Rightarrow> int" where
  "float_to_int oob x = (if in_int64 x then x else oob x)"

definition NewRequestRateLimiter :: "(int \<Rightarrow> int) \<Rightarrow> rat \<Rightarrow> limiter option" where
  "NewRequestRateLimiter oob rps =
     (if rps \<le> 0 then None
      else Some \<lparr>rl_rps = rps,
                 rl_burst = max 1 (min (float_to_int oob (math_Round rps)) maxBurst)\<rparr>)"

definition RateLimiter_Wait ::
  "('w, 'x) net_scheme \<Rightarrow> limiter option \<Rightarrow> go_ctx \<Rightarrow> 'w \<Rightarrow> go_error option \<times> 'w" where
  "RateLimiter_Wait E r ctx w =
     (case r of None \<Rightarrow> (None, w) | Some l \<Rightarrow> net_wait E l ctx w)"

section \<open>Properties\<close>

lemma math_Round_pos: "0 < x \<Longrightarrow> 0 \<le> math_Round x \<and> \<bar>of_int (math_Round x) - x\<bar> \<le> 1 / 2"
proof -
  assume pos: "0 < x"
  have "of_int \<lfloor>x + 1 / 2\<rfloor> \<le> x + 1 / 2" and "x + 1 / 2 < of_int \<lfloor>x + 1 / 2\<rfloor> + 1"
    using floor_correct [of "x + 1 / 2"] by simp_all
  then have "\<bar>of_int \<lfloor>x + 1 / 2\<rfloor> - x\<bar> \<le> 1 / 2" unfolding abs_le_iff by linarith
  with pos show ?thesis by (simp add: math_Round_def)
qed

text \<open>
  A rate limiter exists exactly for a positive rate, and its burst is between 1 and 100000
  whatever an out-of-range float conversion gives, so that the bucket can always grant a request. For
  rates of at least one half and below 100000 the burst is the rate rounded to the nearest integer.
\<close>

theorem NewRequestRateLimiter_burst:
  "(NewRequestRateLimiter oob rps = None \<longleftrightarrow> rps \<le> 0) \<and>
   (\<forall>l. NewRequestRateLimiter oob rps = Some l \<longrightarrow>
      rl_rps l = rps \<and> 1 \<le> rl_burst l \<and> rl_burst l \<le> 100000 \<and>
      (1 / 2 \<le> rps \<and> rps \<le> 100000 \<longrightarrow> \<bar>of_int (rl_burst l) - rps\<bar> \<le> 1 / 2))"
proof -
  have "max 1 (min (float_to_int oob (math_Round rps)) maxBurst) = math_Round rps"
    if "1 / 2 \<le> rps" "rps \<le> 100000"
  proof -
    from that have "math_Round rps = \<lfloor>rps + 1 / 2\<rfloor>" by (simp add: math_Round_def)
    moreover have "1 \<le> \<lfloor>rps + 1 / 2\<rfloor>" "\<lfloor>rps + 1 / 2\<rfloor> \<le> 100000"
      using that by (simp_all add: le_floor_iff floor_le_iff)
    ultimately show ?thesis
      by (simp add: float_to_int_def maxBurst_def in_int64_def)
  qed
  with math_Round_pos [of rps] show ?thesis
    by (auto simp: NewRequestRateLimiter_def maxBurst_def)
qed

theorem NewRequestRateLimiter_burst_witness:
  "map_option rl_burst (NewRequestRateLimiter (\<lambda>_. 0) 50) = Some 50 \<and>
   rl_burst \<lparr>rl_rps = 50, rl_burst = 50\<rparr> \<le> (100000 :: int)"
proof -
  have run: "NewRequestRateLimiter (\<lambda>_. 0) 50 = Some \<lparr>rl_rps = 50, rl_burst = 50\<rparr>"
    by (simp add: NewRequestRateLimiter_def float_to_int_def math_Round_def in_int64_def maxBurst_def
        floor_eq_iff)
  with NewRequestRateLimiter_burst [of "\<lambda>_. 0" 50] show ?thesis by simp
qed

text \<open>
  The cap on the burst acts only after the conversion to \<^verbatim>\<open>int\<close>: where the conversion of an
  out-of-range rate gives the smallest \<^verbatim>\<open>int\<close>, as it does on amd64, a rate of \<open>10 ^ 19\<close> gets burst 1 and not
  the cap of 100000.
\<close>

theorem NewRequestRateLimiter_cap_after_conversion:
  "NewRequestRateLimiter (\<lambda>_. min_int64) (10 ^ 19) = Some \<lparr>rl_rps = 10 ^ 19, rl_burst = 1\<rparr>"
  by (simp add: NewRequestRateLimiter_def float_to_int_def math_Round_def in_int64_def maxBurst_def
      floor_eq_iff)

end
