(* ===== verification/Result.thy ===== *)
theory Result
  imports Sender
begin

text \<open>
  The outcome of a warmup and its summary (pkg/warmup/result.go).
\<close>

record result =
  res_Success :: bool
  res_RequestsCompleted :: int
  res_RequestsFailed :: int
  res_TotalDuration :: duration
  res_LatencyP50 :: duration
  res_LatencyP99 :: duration
  res_Error :: "go_error option"
  res_Message :: string

text \<open>\<^verbatim>\<open>&Result{}\<close>\<close>

definition zero_result :: result where
  "zero_result =
     \<lparr>res_Success = False, res_RequestsCompleted = 0, res_RequestsFailed = 0, res_TotalDuration = 0,
      res_LatencyP50 = 0, res_LatencyP99 = 0, res_Error = None, res_Message = []\<rparr>"

definition BuildMessage :: "result \<Rightarrow> string" where
  "BuildMessage r =
     (case res_Error r of
        Some err \<Rightarrow> ''warmup failed: '' @ err_text err
      | None \<Rightarrow>
          if res_RequestsCompleted r = 0 \<and> res_RequestsFailed r = 0
          then ''warmup skipped: no requests executed''
          else let total = wrap64 (res_RequestsCompleted r + res_RequestsFailed r);
                   successRate = fmt_rate (res_RequestsCompleted r) total
               in if res_Success r
                  then ''warmup completed: '' @ Itoa (res_RequestsCompleted r) @ ''/'' @ Itoa total @
                       '' requests succeeded ('' @ successRate @ ''%), duration='' @
                       dur_String (dur_Round (res_TotalDuration r) Millisecond) @
                       '', P50='' @ dur_String (res_LatencyP50 r) @
                       '', P99='' @ dur_String (res_LatencyP99 r)
                  else ''warmup completed with failures: '' @ Itoa (res_RequestsCompleted r) @ ''/'' @
                       Itoa total @ '' requests succeeded ('' @ successRate @ ''%)'')"

section \<open>Lemmas\<close>

lemma BuildMessage_skipped:
  "res_Error r = None \<Longrightarrow> res_RequestsCompleted r = 0 \<Longrightarrow> res_RequestsFailed r = 0 \<Longrightarrow>
     BuildMessage r = ''warmup skipped: no requests executed''"
  by (simp add: BuildMessage_def)

section \<open>Properties\<close>

text \<open>
  The summary tells the outcome by its prefix: "warmup failed: " stands exactly for a result that
  carries an error, "warmup skipped" for one without an error and without requests, "warmup completed: "
  for a success without an error, and "warmup completed with failures: " for the rest.
\<close>

theorem BuildMessage_prefix:
  "(HasPrefix (BuildMessage r) ''warmup failed: '' \<longleftrightarrow> res_Error r \<noteq> None) \<and>
   (HasPrefix (BuildMessage r) ''warmup skipped: '' \<longleftrightarrow>
      res_Error r = None \<and> res_RequestsCompleted r = 0 \<and> res_RequestsFailed r = 0) \<and>
   (HasPrefix (BuildMessage r) ''warmup completed: '' \<longleftrightarrow>
      res_Error r = None \<and> res_Success r \<and>
      \<not> (res_RequestsCompleted r = 0 \<and> res_RequestsFailed r = 0)) \<and>
   (HasPrefix (BuildMessage r) ''warmup completed with failures: '' \<longleftrightarrow>
      res_Error r = None \<and> \<not> res_Success r \<and>
      \<not> (res_RequestsCompleted r = 0 \<and> res_RequestsFailed r = 0))"
  by (cases "res_Error r") (simp_all add: BuildMessage_def Let_def HasPrefix_iff prefix_def)

text \<open>
  The summary of a concrete run, with the percentage computed in \<^verbatim>\<open>float64\<close>: 2 of 3 requests in
  1.2346 s give 66.7% and a duration rounded to the millisecond.
\<close>

lemma BuildMessage_example:
  "BuildMessage (zero_result\<lparr>res_Success := True, res_RequestsCompleted := 2, res_RequestsFailed := 1,
      res_TotalDuration := 1234567890, res_LatencyP50 := 1500000, res_LatencyP99 := 2000000\<rparr>) =
   ''warmup completed: 2/3 requests succeeded (66.7%), duration=1.235s, P50=1.5ms, P99=2ms''"
  by code_simp

end
