(* ===== verification/Warmup_Executor.thy ===== *)
theory Warmup_Executor
  imports Grpc_Sender Rate_Limiter Result
begin

text \<open>
  The executor of simple warmups (pkg/warmup/warmup_executor.go): requests one after the other until
  the count is reached, the context is done or the rate limiter refuses.

  The loop is one definition for both senders; it takes the operation \<open>send\<close> of the interface
  \<open>sender\<close>, and its lemmas are proved in that locale. A run that does not return normally (a sender
  that exhausts the stack, a negative capacity passed to \<^verbatim>\<open>make\<close>) is \<open>None\<close>.
\<close>

section \<open>Percentiles\<close>

definition p50idx :: "nat \<Rightarrow> nat" where
  "p50idx n = (let i = (n * 50 + 99) div 100 in if i > 0 then i - 1 else i)"

definition p99idx :: "nat \<Rightarrow> nat" where
  "p99idx n =
     (let i = (n * 99 + 99) div 100; j = (if i > 0 then i - 1 else i)
      in if j \<ge> n then n - 1 else j)"

definition calculatePercentiles :: "duration list \<Rightarrow> duration \<times> duration" where
  "calculatePercentiles latencies =
     (let n = length latencies
      in if n = 0 then (0, 0)
         else let s = sort latencies in (s ! p50idx n, s ! p99idx n))"

section \<open>The request loop\<close>

record 's loop =
  lp_latencies :: "duration list"
  lp_successCount :: int
  lp_failCount :: int
  lp_sender :: 's

definition loop_init :: "'s \<Rightarrow> 's loop" where
  "loop_init s = \<lparr>lp_latencies = [], lp_successCount = 0, lp_failCount = 0, lp_sender = s\<rparr>"

text \<open>What the body of the loop does with a response that carries no error.\<close>

definition count_response :: "response \<Rightarrow> 's loop \<Rightarrow> 's loop" where
  "count_response resp lp =
     (let lp = lp\<lparr>lp_latencies := lp_latencies lp @ [resp_Duration resp]\<rparr>
      in if 200 \<le> resp_StatusCode resp \<and> resp_StatusCode resp < 400
         then lp\<lparr>lp_successCount := lp_successCount lp + 1\<rparr>
         else lp\<lparr>lp_failCount := lp_failCount lp + 1\<rparr>)"

fun warmup_loop ::
  "('w, 'x) net_scheme \<Rightarrow> ('s \<Rightarrow> go_ctx \<Rightarrow> target \<Rightarrow> 'w \<Rightarrow> (response \<times> 's \<times> 'w) option) \<Rightarrow>
     limiter option \<Rightarrow> go_ctx \<Rightarrow> target \<Rightarrow> int \<Rightarrow> nat \<Rightarrow> 's loop \<Rightarrow> 'w \<Rightarrow> ('s loop \<times> 'w) option" where
  "warmup_loop E send rl ctx tgt N 0 lp w = Some (lp, w)"
| "warmup_loop E send rl ctx tgt N (Suc k) lp w =
     (let (done, w) = check_ctx E ctx w
      in if done \<noteq> None then Some (lp, w)
         else case RateLimiter_Wait E rl ctx w of
           (Some _, w) \<Rightarrow>
             Some (lp\<lparr>lp_failCount :=
                        lp_failCount lp + (N - lp_successCount lp - lp_failCount lp)\<rparr>, w)
         | (None, w) \<Rightarrow>
             (case send (lp_sender lp) ctx tgt w of
                None \<Rightarrow> None
              | Some (resp, s, w) \<Rightarrow>
                  let lp = lp\<lparr>lp_sender := s\<rparr>
                  in if resp_Error resp \<noteq> None
                     then let lp = lp\<lparr>lp_failCount := lp_failCount lp + 1\<rparr>;
                              (done, w) = check_ctx E ctx w
                          in if done \<noteq> None then Some (lp, w)
                             else warmup_loop E send rl ctx tgt N k lp w
                     else warmup_loop E send rl ctx tgt N k (count_response resp lp) w))"

section \<open>WarmupExecutor\<close>

record warmup_executor =
  we_client_Timeout :: duration
  we_rateLimiter :: "limiter option"

definition WithRateLimiter :: "limiter option \<Rightarrow> warmup_executor \<Rightarrow> warmup_executor" where
  "WithRateLimiter rl e = e\<lparr>we_rateLimiter := rl\<rparr>"

definition NewWarmupExecutor :: "(warmup_executor \<Rightarrow> warmup_executor) list \<Rightarrow> warmup_executor" where
  "NewWarmupExecutor opts =
     foldl (\<lambda>e opt. opt e) \<lparr>we_client_Timeout = 10 * Second, we_rateLimiter = None\<rparr> opts"

definition grpc_target :: "config \<Rightarrow> target" where
  "grpc_target c =
     \<lparr>tgt_Address = BuildGRPCAddress c, tgt_Method = cfg_GRPCMethod c, tgt_Headers = [],
      tgt_Payload = cfg_GRPCPayload c\<rparr>"

definition http_target :: "config \<Rightarrow> target" where
  "http_target c =
     \<lparr>tgt_Address = BuildEndpointURL c, tgt_Method = ''GET'',
      tgt_Headers = [(''User-Agent'', ''kube-booster/1.0''), (''X-Warmup-Request'', ''true'')],
      tgt_Payload = []\<rparr>"

text \<open>What follows the loop: the summary of its counters.\<close>

definition summarize :: "duration \<Rightarrow> ctx_err option \<Rightarrow> 's loop \<Rightarrow> result" where
  "summarize elapsed err lp =
     (let (p50, p99) = calculatePercentiles (lp_latencies lp);
          r = zero_result\<lparr>res_Error := map_option CtxError err,
                res_RequestsCompleted := lp_successCount lp, res_RequestsFailed := lp_failCount lp,
                res_TotalDuration := elapsed, res_LatencyP50 := p50, res_LatencyP99 := p99,
                res_Success := lp_successCount lp > 0\<rparr>
      in r\<lparr>res_Message := BuildMessage r\<rparr>)"

text \<open>
  The part of Execute after the sender is chosen, with the sender's state when it ends (for the deferred
  Close). A done context stays done, so the two calls of \<^verbatim>\<open>warmupCtx.Err()\<close> after the loop are one reading.
\<close>

definition run_warmup ::
  "('w, 'x) net_scheme \<Rightarrow> ('s \<Rightarrow> go_ctx \<Rightarrow> target \<Rightarrow> 'w \<Rightarrow> (response \<times> 's \<times> 'w) option) \<Rightarrow> 's \<Rightarrow>
     limiter option \<Rightarrow> go_ctx \<Rightarrow> target \<Rightarrow> config \<Rightarrow> 'w \<Rightarrow> (result \<times> 's \<times> 'w) option" where
  "run_warmup E send s rl ctx tgt c w =
     (let (t0, w) = net_now E w;
          warmupCtx = WithTimeout ctx t0 (cfg_Timeout c);
          (start, w) = net_now E w
      in if cfg_RequestCount c < 0 then None
         else case warmup_loop E send rl warmupCtx tgt (cfg_RequestCount c) (nat (cfg_RequestCount c))
                     (loop_init s) w of
           None \<Rightarrow> None
         | Some (lp, w) \<Rightarrow>
             let (t, w) = net_now E w;
                 (err, w) = check_ctx E warmupCtx w
             in Some (summarize (t - start) err lp, lp_sender lp, w))"

definition Execute ::
  "('w, 'x) grpc_net_scheme \<Rightarrow> warmup_executor \<Rightarrow> go_ctx \<Rightarrow> config \<Rightarrow> 'w \<Rightarrow> (result \<times> 'w) option" where
  "Execute E e ctx c w =
     (if cfg_PodIP c = []
      then Some (zero_result\<lparr>res_Error := Some ErrNoPodIP,
                   res_Message := ''cannot execute warmup: pod IP not set''\<rparr>, w)
      else if cfg_Protocol c = ProtocolGRPC
      then case run_warmup E (GRPCSender_Send E) NewGRPCSender (we_rateLimiter e) ctx (grpc_target c) c w of
             None \<Rightarrow> None
           | Some (r, s, w) \<Rightarrow> Some (r, snd (GRPCSender_Close E s w))
      else if cfg_Protocol c = ProtocolHTTP
      then case run_warmup E (http_send E (we_client_Timeout e)) () (we_rateLimiter e) ctx
                  (http_target c) c w of
             None \<Rightarrow> None
           | Some (r, s, w) \<Rightarrow> Some (r, snd (HTTPSender_Close w))
      else Some (zero_result\<lparr>
             res_Error := Some (ErrText (''unsupported warmup protocol '' @
               Quote (net_print E) (cfg_Protocol c))),
             res_Message := ''cannot execute warmup: unsupported protocol '' @
               Quote (net_print E) (cfg_Protocol c)\<rparr>, w))"

section \<open>MockExecutor\<close>

record mock_executor =
  me_Result :: "result option"
  me_Called :: bool

definition MockExecutor_Execute :: "mock_executor \<Rightarrow> go_ctx \<Rightarrow> config \<Rightarrow> result \<times> mock_executor" where
  "MockExecutor_Execute m ctx c =
     (let m = m\<lparr>me_Called := True\<rparr>
      in case me_Result m of
           Some r \<Rightarrow> (r, m)
         | None \<Rightarrow>
             (zero_result\<lparr>res_Success := True, res_RequestsCompleted := cfg_RequestCount c,
                res_Message := ''mock warmup completed''\<rparr>, m))"

section \<open>Lemmas on percentiles\<close>

lemma sorted_count_le:
  "sorted s \<Longrightarrow> i < length s \<Longrightarrow> Suc i \<le> length (filter (\<lambda>x. x \<le> s ! i) s)"
proof -
  assume s: "sorted s" "i < length s"
  have "filter (\<lambda>x. x \<le> s ! i) (take (Suc i) s) = take (Suc i) s"
    using s by (auto simp: filter_id_conv in_set_conv_nth sorted_iff_nth_mono)
  then have "Suc i = length (filter (\<lambda>x. x \<le> s ! i) (take (Suc i) s))" using s by simp
  also have "\<dots> \<le> length (filter (\<lambda>x. x \<le> s ! i) (take (Suc i) s @ drop (Suc i) s))"
    unfolding filter_append by simp
  finally show ?thesis by simp
qed

lemma sorted_count_less:
  "sorted s \<Longrightarrow> i < length s \<Longrightarrow> length (filter (\<lambda>x. x < s ! i) s) \<le> i"
proof -
  assume s: "sorted s" "i < length s"
  have "filter (\<lambda>x. x < s ! i) (drop i s) = []"
    using s by (auto simp: filter_empty_conv in_set_conv_nth not_less sorted_iff_nth_mono)
  moreover have "length (filter (\<lambda>x. x < s ! i) (take i s)) \<le> i"
    using length_filter_le [of "\<lambda>x. x < s ! i" "take i s"] by simp
  ultimately have "length (filter (\<lambda>x. x < s ! i) (take i s @ drop i s)) \<le> i"
    unfolding filter_append by simp
  then show ?thesis by simp
qed

lemma length_filter_sort: "length (filter P (sort xs)) = length (filter P xs)"
  by (metis mset_filter mset_sort size_mset)

lemma sort_rank:
  assumes "i < length xs"
  shows "sort xs ! i \<in> set xs \<and> Suc i \<le> length (filter (\<lambda>x. x \<le> sort xs ! i) xs) \<and>
    length (filter (\<lambda>x. x < sort xs ! i) xs) \<le> i"
  using assms sorted_count_le [of "sort xs" i] sorted_count_less [of "sort xs" i]
    nth_mem [of i "sort xs"]
  by (simp add: length_filter_sort)

lemma p50idx_bounds: "0 < n \<Longrightarrow> p50idx n < n \<and> n \<le> 2 * Suc (p50idx n) \<and> 2 * p50idx n < n"
  by (auto simp: p50idx_def Let_def)

lemma p99idx_bounds: "0 < n \<Longrightarrow> p99idx n < n \<and> 99 * n \<le> 100 * Suc (p99idx n) \<and> 100 * p99idx n < 99 * n"
  by (auto simp: p99idx_def Let_def)

lemma p50idx_le_p99idx: "p50idx n \<le> p99idx n"
  by (auto simp: p50idx_def p99idx_def Let_def)

section \<open>Lemmas on the summary\<close>

lemma BuildMessage_message [simp]: "BuildMessage (r\<lparr>res_Message := m\<rparr>) = BuildMessage r"
  by (cases "res_Error r") (simp_all add: BuildMessage_def Let_def)

lemma summarize_fields [simp]:
  "res_RequestsCompleted (summarize d err lp) = lp_successCount lp"
  "res_RequestsFailed (summarize d err lp) = lp_failCount lp"
  "res_LatencyP50 (summarize d err lp) = fst (calculatePercentiles (lp_latencies lp))"
  "res_LatencyP99 (summarize d err lp) = snd (calculatePercentiles (lp_latencies lp))"
  "res_Success (summarize d err lp) \<longleftrightarrow> lp_successCount lp > 0"
  "res_Error (summarize d err lp) = map_option CtxError err"
  "res_Message (summarize d err lp) = BuildMessage (summarize d err lp)"
  by (simp_all add: summarize_def Let_def split: prod.splits)

section \<open>Lemmas on the loop\<close>

text \<open>A sequence of responses that successive calls of a sender give.\<close>

inductive sends ::
  "('s \<Rightarrow> go_ctx \<Rightarrow> target \<Rightarrow> 'w \<Rightarrow> (response \<times> 's \<times> 'w) option) \<Rightarrow> go_ctx \<Rightarrow> target \<Rightarrow>
     's \<Rightarrow> response list \<Rightarrow> 's \<Rightarrow> bool" for send ctx tgt where
  sends_Nil [simp]: "sends send ctx tgt s [] s"
| sends_Cons: "send s ctx tgt w = Some (r, s1, w1) \<Longrightarrow> sends send ctx tgt s1 rs s2 \<Longrightarrow>
     sends send ctx tgt s (r # rs) s2"

text \<open>
  What a result of \<open>N\<close> requests says when the responses were \<open>rs\<close>; \<open>refused\<close> when the rate limiter
  ended the run, in which case the requests never sent count as failed.
\<close>

definition reports :: "int \<Rightarrow> response list \<Rightarrow> bool \<Rightarrow> result \<Rightarrow> bool" where
  "reports N rs refused r \<longleftrightarrow>
     int (length rs) \<le> N \<and> (refused \<longrightarrow> int (length rs) < N) \<and>
     res_RequestsCompleted r = int (length (filter status_ok rs)) \<and>
     res_RequestsFailed r =
       (if refused then N - res_RequestsCompleted r
        else int (length (filter (\<lambda>r. \<not> status_ok r) rs))) \<and>
     (res_LatencyP50 r, res_LatencyP99 r) =
       calculatePercentiles (map resp_Duration (filter (\<lambda>r. resp_Error r = None) rs)) \<and>
     (res_Success r \<longleftrightarrow> res_RequestsCompleted r > 0) \<and> res_Message r = BuildMessage r"

text \<open>How a loop of at most \<open>k\<close> rounds that sent \<open>rs\<close> came to its end in the world \<open>w'\<close>.\<close>

definition loop_end ::
  "('w, 'x) net_scheme \<Rightarrow> limiter option \<Rightarrow> go_ctx \<Rightarrow> nat \<Rightarrow> response list \<Rightarrow> bool \<Rightarrow> 'w \<Rightarrow> bool" where
  "loop_end E rl ctx k rs refused w' \<longleftrightarrow>
     (if refused then rl \<noteq> None \<and> length rs < k
      else length rs = k \<or> length rs \<le> k \<and> (\<exists>v t. net_now E v = (t, w') \<and> ctx_Err ctx t \<noteq> None))"

lemma loop_end_Suc: "loop_end E rl ctx k rs f w' \<Longrightarrow> loop_end E rl ctx (Suc k) (r # rs) f w'"
  by (auto simp: loop_end_def split: if_splits)

lemma check_ctx_done:
  "check_ctx E ctx w = (d, w') \<Longrightarrow> d \<noteq> None \<Longrightarrow> \<exists>v t. net_now E v = (t, w') \<and> ctx_Err ctx t \<noteq> None"
  by (auto simp: check_ctx_def split: prod.splits)

lemma count_response_sender [simp]: "lp_sender (count_response r lp) = lp_sender lp"
  by (simp add: count_response_def Let_def)

text \<open>The five ways in which one round of the loop ends.\<close>

lemma warmup_loop_SucE:
  assumes "warmup_loop E send rl ctx tgt N (Suc k) lp w = Some (lp', w')"
  obtains (stopped) d where "check_ctx E ctx w = (Some d, w')" and "lp' = lp"
  | (refused) w1 e where "RateLimiter_Wait E rl ctx w1 = (Some e, w')"
      and "lp' = lp\<lparr>lp_failCount := lp_failCount lp + (N - lp_successCount lp - lp_failCount lp)\<rparr>"
  | (answered) w2 r s w3 where "send (lp_sender lp) ctx tgt w2 = Some (r, s, w3)" and "resp_Error r = None"
      and "warmup_loop E send rl ctx tgt N k (count_response r (lp\<lparr>lp_sender := s\<rparr>)) w3 = Some (lp', w')"
  | (failed) w2 r s w3 w4 where "send (lp_sender lp) ctx tgt w2 = Some (r, s, w3)" and "resp_Error r \<noteq> None"
      and "warmup_loop E send rl ctx tgt N k (lp\<lparr>lp_sender := s, lp_failCount := lp_failCount lp + 1\<rparr>) w4 =
        Some (lp', w')"
  | (last) w2 r s w3 d where "send (lp_sender lp) ctx tgt w2 = Some (r, s, w3)" and "resp_Error r \<noteq> None"
      and "check_ctx E ctx w3 = (Some d, w')" and "lp' = lp\<lparr>lp_sender := s, lp_failCount := lp_failCount lp + 1\<rparr>"
proof -
  obtain d w1 where check: "check_ctx E ctx w = (d, w1)" by fastforce
  obtain e w2 where wait: "RateLimiter_Wait E rl ctx w1 = (e, w2)" by fastforce
  show thesis
  proof (cases "d = None \<and> e = None")
    case False
    with assms check wait stopped refused show ?thesis by (cases d; cases e) auto
  next
    case True
    with assms check wait obtain r s w3 where send: "send (lp_sender lp) ctx tgt w2 = Some (r, s, w3)"
      by (auto split: option.splits)
    obtain d2 w4 where check2: "check_ctx E ctx w3 = (d2, w4)" by fastforce
    show ?thesis
      using assms check wait True send check2 answered [OF send] failed [OF send] last [OF send]
      by (cases d2; cases "resp_Error r = None") auto
  qed
qed

context sender
begin

definition accounts :: "int \<Rightarrow> 'a loop \<Rightarrow> response list \<Rightarrow> bool \<Rightarrow> 'a loop \<Rightarrow> bool" where
  "accounts N lp rs refused lp' \<longleftrightarrow>
     lp_latencies lp' = lp_latencies lp @ map resp_Duration (filter (\<lambda>r. resp_Error r = None) rs) \<and>
     lp_successCount lp' = lp_successCount lp + int (length (filter status_ok rs)) \<and>
     lp_failCount lp' = (if refused then N - lp_successCount lp'
        else lp_failCount lp + int (length (filter (\<lambda>r. \<not> status_ok r) rs)))"

lemma accounts_error:
  assumes "send s ctx tgt w = Some (r, s', w')" and "resp_Error r \<noteq> None"
    and "accounts N (lp\<lparr>lp_sender := s', lp_failCount := lp_failCount lp + 1\<rparr>) rs f lp'"
  shows "accounts N lp (r # rs) f lp'"
  using assms status_ok_no_error [OF assms(1)] by (auto simp: accounts_def)

lemma accounts_response:
  assumes "resp_Error r = None" and "accounts N (count_response r (lp\<lparr>lp_sender := s'\<rparr>)) rs f lp'"
  shows "accounts N lp (r # rs) f lp'"
  using assms by (auto simp: accounts_def count_response_def status_ok_def Let_def split: if_splits)

lemma warmup_loop_outcome:
  "warmup_loop E send rl ctx tgt N k lp w = Some (lp', w') \<Longrightarrow>
     \<exists>rs f. sends send ctx tgt (lp_sender lp) rs (lp_sender lp') \<and> loop_end E rl ctx k rs f w' \<and>
       accounts N lp rs f lp'"
proof (induction k arbitrary: lp w)
  case 0
  then show ?case
    by (intro exI [of _ "[]"] exI [of _ False]) (auto simp: accounts_def loop_end_def intro: sends_Nil)
next
  case (Suc k)
  from Suc.prems show ?case
  proof (cases rule: warmup_loop_SucE)
    case (stopped d)
    with check_ctx_done [OF stopped(1)] show ?thesis
      by (intro exI [of _ "[]"] exI [of _ False]) (auto simp: accounts_def loop_end_def intro: sends_Nil)
  next
    case (refused w1 e)
    then have "rl \<noteq> None" by (auto simp: RateLimiter_Wait_def split: option.splits)
    with refused show ?thesis
      by (intro exI [of _ "[]"] exI [of _ True]) (auto simp: accounts_def loop_end_def intro: sends_Nil)
  next
    case (answered w2 r s w3)
    from Suc.IH [OF answered(3)] obtain rs f where h: "sends send ctx tgt s rs (lp_sender lp')"
      "loop_end E rl ctx k rs f w'" "accounts N (count_response r (lp\<lparr>lp_sender := s\<rparr>)) rs f lp'" by auto
    from sends_Cons [of send, OF answered(1) h(1)] loop_end_Suc [OF h(2)] accounts_response [OF answered(2) h(3)]
    show ?thesis by (intro exI conjI)
  next
    case (failed w2 r s w3 w4)
    from Suc.IH [OF failed(3)] obtain rs f where h: "sends send ctx tgt s rs (lp_sender lp')"
      "loop_end E rl ctx k rs f w'"
      "accounts N (lp\<lparr>lp_sender := s, lp_failCount := lp_failCount lp + 1\<rparr>) rs f lp'" by auto
    from sends_Cons [of send, OF failed(1) h(1)] loop_end_Suc [OF h(2)] accounts_error [OF failed(1,2) h(3)]
    show ?thesis by (intro exI conjI)
  next
    case (last w2 r s w3 d)
    have "sends send ctx tgt (lp_sender lp) [r] (lp_sender lp')"
      using last by (auto intro: sends_Cons [of send])
    moreover have "loop_end E rl ctx (Suc k) [r] False w'"
      using check_ctx_done [OF last(3)] by (auto simp: loop_end_def)
    moreover have "accounts N (lp\<lparr>lp_sender := s, lp_failCount := lp_failCount lp + 1\<rparr>) [] False lp'"
      using last(4) by (simp add: accounts_def)
    ultimately show ?thesis using accounts_error [OF last(1,2)] by blast
  qed
qed

lemma run_warmup_outcome:
  assumes "run_warmup E send s rl ctx tgt c w = Some (r, s', w')"
  obtains t0 rs f v t1 u t2 ctx' where "ctx' = WithTimeout ctx t0 (cfg_Timeout c)"
    "sends send ctx' tgt s rs s'" "reports (cfg_RequestCount c) rs f r"
    "loop_end E rl ctx' (nat (cfg_RequestCount c)) rs f v"
    "net_now E v = (t1, u)" "net_now E u = (t2, w')" "res_Error r = map_option CtxError (ctx_Err ctx' t2)"
proof -
  obtain t0 w0 where now0: "net_now E w = (t0, w0)" by fastforce
  obtain start w1 where now1: "net_now E w0 = (start, w1)" by fastforce
  let ?ctx = "WithTimeout ctx t0 (cfg_Timeout c)" and ?N = "cfg_RequestCount c"
  from assms now0 now1 have N: "0 \<le> ?N" by (auto simp: run_warmup_def Let_def split: if_splits)
  with assms now0 now1 obtain lp v where
    loop: "warmup_loop E send rl ?ctx tgt ?N (nat ?N) (loop_init s) w1 = Some (lp, v)"
    by (auto simp: run_warmup_def Let_def split: option.splits)
  obtain t1 u where now2: "net_now E v = (t1, u)" by fastforce
  obtain t2 w2 where now3: "net_now E u = (t2, w2)" by fastforce
  have r: "r = summarize (t1 - start) (ctx_Err ?ctx t2) lp" "s' = lp_sender lp" "w' = w2"
    using assms N by (simp_all add: run_warmup_def now0 now1 loop now2 now3 check_ctx_def)
  from warmup_loop_outcome [OF loop] obtain rs f where
    rs: "sends send ?ctx tgt s rs (lp_sender lp)" "loop_end E rl ?ctx (nat ?N) rs f v"
      "accounts ?N (loop_init s) rs f lp" by (auto simp: loop_init_def)
  have "reports ?N rs f r"
    using rs(2,3) N
    by (auto simp: r reports_def accounts_def loop_init_def loop_end_def split: if_splits)
  moreover have "res_Error r = map_option CtxError (ctx_Err ?ctx t2)"
    by (simp add: r)
  ultimately show thesis
    by (rule that [OF refl rs(1) [folded r(2)] _ rs(2) now2 now3 [folded r(3)]])
qed

lemma run_warmup_ex:
  assumes "run_warmup E send s rl ctx tgt c w = Some (r, s', w')"
  shows "\<exists>rs f ctx' v t1 u t2 w2. reports (cfg_RequestCount c) rs f r \<and>
    loop_end E rl ctx' (nat (cfg_RequestCount c)) rs f v \<and>
    net_now E v = (t1, u) \<and> net_now E u = (t2, w2) \<and>
    res_Error r = map_option CtxError (ctx_Err ctx' t2)"
  using assms by (rule run_warmup_outcome) (intro exI conjI)

end

lemma warmup_loop_returns:
  assumes "\<And>s w. send s ctx tgt w \<noteq> None"
  shows "warmup_loop E send rl ctx tgt N k lp w \<noteq> None"
proof (induction k arbitrary: lp w)
  case (Suc k)
  obtain d w1 where check: "check_ctx E ctx w = (d, w1)" by fastforce
  obtain e w2 where wait: "RateLimiter_Wait E rl ctx w1 = (e, w2)" by fastforce
  obtain r s w3 where send: "send (lp_sender lp) ctx tgt w2 = Some (r, s, w3)"
    using assms [of "lp_sender lp" w2] by auto
  obtain d2 w4 where check2: "check_ctx E ctx w3 = (d2, w4)" by fastforce
  show ?case
    using Suc.IH by (cases e) (simp_all add: Let_def check wait send check2 del: not_None_eq)
qed simp

lemma run_warmup_returns:
  assumes "\<And>s ctx w. send s ctx tgt w \<noteq> None" and "0 \<le> cfg_RequestCount c"
  shows "run_warmup E send s rl ctx tgt c w \<noteq> None"
proof -
  have "warmup_loop E send rl ctx' tgt N k lp v \<noteq> None" for ctx' N k lp v
    using assms(1) by (rule warmup_loop_returns)
  moreover obtain t0 w0 where "net_now E w = (t0, w0)" by fastforce
  moreover obtain start w1 where "net_now E w0 = (start, w1)" by fastforce
  ultimately show ?thesis
    using assms(2) by (simp add: run_warmup_def Let_def split: prod.splits option.splits del: not_None_eq)
qed

lemma http_send_returns: "http_send E d s ctx tgt w \<noteq> None"
  by (simp add: http_send_def split: prod.splits)

lemma reports_bounds:
  assumes "reports N rs f r"
  shows "0 \<le> res_RequestsCompleted r \<and> 0 \<le> res_RequestsFailed r \<and>
    res_RequestsCompleted r + res_RequestsFailed r \<le> N \<and>
    (f \<or> int (length rs) = N \<longrightarrow> res_RequestsCompleted r + res_RequestsFailed r = N)"
proof -
  have "int (length (filter status_ok rs)) \<le> int (length rs)" by simp
  moreover have "int (length (filter status_ok rs)) + int (length (filter (\<lambda>r. \<not> status_ok r) rs)) =
      int (length rs)"
    using length_filter_split [of status_ok rs] by linarith
  ultimately show ?thesis using assms by (auto simp: reports_def split: if_splits)
qed

lemma Execute_unsupported:
  assumes "Execute E e ctx c w = Some (r, w')"
    and "cfg_PodIP c = [] \<or> cfg_Protocol c \<noteq> ProtocolHTTP \<and> cfg_Protocol c \<noteq> ProtocolGRPC"
  shows "res_RequestsCompleted r = 0 \<and> res_RequestsFailed r = 0 \<and> res_Error r \<noteq> None \<and>
    \<not> res_Success r \<and> w' = w"
  using assms by (auto simp: Execute_def zero_result_def split: if_splits)

lemma Execute_run:
  assumes "Execute E e ctx c w = Some (r, w')"
    and "cfg_PodIP c \<noteq> []" and "cfg_Protocol c = ProtocolHTTP \<or> cfg_Protocol c = ProtocolGRPC"
  shows "(\<exists>s' v. cfg_Protocol c = ProtocolHTTP \<and>
      run_warmup E (http_send E (we_client_Timeout e)) () (we_rateLimiter e) ctx (http_target c) c w =
        Some (r, s', v)) \<or>
    (\<exists>s' v. cfg_Protocol c = ProtocolGRPC \<and>
      run_warmup E (GRPCSender_Send E) NewGRPCSender (we_rateLimiter e) ctx (grpc_target c) c w =
        Some (r, s', v))"
  using assms by (auto simp: Execute_def split: if_splits option.splits)

lemma Execute_outcome:
  assumes "Execute E e ctx c w = Some (r, w')" and "cfg_PodIP c \<noteq> []"
    and "cfg_Protocol c = ProtocolHTTP \<or> cfg_Protocol c = ProtocolGRPC"
  shows "\<exists>rs f ctx' v t1 u t2 w2. reports (cfg_RequestCount c) rs f r \<and>
    loop_end E (we_rateLimiter e) ctx' (nat (cfg_RequestCount c)) rs f v \<and>
    net_now E v = (t1, u) \<and> net_now E u = (t2, w2) \<and>
    res_Error r = map_option CtxError (ctx_Err ctx' t2)"
  using Execute_run [OF assms]
  by (elim disjE exE conjE) (erule http.run_warmup_ex, erule grpc.run_warmup_ex)

lemma resolveMethodDescriptor_returns:
  assumes "\<And>bs. buildFileSet E bs \<noteq> None"
  shows "resolveMethodDescriptor E ctx conn svc m w \<noteq> None"
  using assms
  by (auto simp: resolveMethodDescriptor_def Let_def simp del: not_None_eq
      split: prod.splits sum.splits option.splits descriptor.splits)

lemma GRPCSender_Send_returns:
  assumes "\<And>bs. buildFileSet E bs \<noteq> None"
  shows "GRPCSender_Send E s ctx tgt w \<noteq> None"
proof -
  have "grpc_lookup E ctx tgt s w \<noteq> None" for s w
    using resolveMethodDescriptor_returns [OF assms]
    by (auto simp: grpc_lookup_def simp del: not_None_eq split: prod.splits sum.splits option.splits)
  then show ?thesis
    by (auto simp: GRPCSender_Send_def Let_def simp del: not_None_eq
        split: prod.splits sum.splits option.splits)
qed

lemma Execute_counts:
  assumes "Execute E e ctx c w = Some (r, w')" and "0 \<le> cfg_RequestCount c"
  shows "0 \<le> res_RequestsCompleted r \<and> 0 \<le> res_RequestsFailed r \<and>
    res_RequestsCompleted r + res_RequestsFailed r \<le> cfg_RequestCount c \<and>
    (res_Success r \<longleftrightarrow> res_RequestsCompleted r > 0)"
proof (cases "cfg_PodIP c \<noteq> [] \<and> (cfg_Protocol c = ProtocolHTTP \<or> cfg_Protocol c = ProtocolGRPC)")
  case True
  with Execute_outcome [OF assms(1)] obtain rs f where "reports (cfg_RequestCount c) rs f r" by metis
  with reports_bounds [OF this] show ?thesis by (simp add: reports_def)
next
  case False
  with Execute_unsupported [OF assms(1)] assms(2) show ?thesis by auto
qed

section \<open>Properties\<close>

text \<open>
  C23. calculatePercentiles gives the nearest-rank percentiles: each is one of the latencies; at least
  half of the latencies are at most P50 and fewer than half are below it; at least 99% are at most P99
  and fewer than 99% are below it; and P50 is at most P99. The index of P99 is in range before its
  guard, and no index is ever out of range. Without latencies both are 0.
\<close>

theorem calculatePercentiles_nearest_rank:
  assumes "calculatePercentiles ls = (p50, p99)"
  shows "(ls = [] \<longrightarrow> p50 = 0 \<and> p99 = 0) \<and>
    (ls \<noteq> [] \<longrightarrow>
       p50 \<in> set ls \<and> p99 \<in> set ls \<and> p50 \<le> p99 \<and>
       length ls \<le> 2 * length (filter (\<lambda>x. x \<le> p50) ls) \<and>
       2 * length (filter (\<lambda>x. x < p50) ls) < length ls \<and>
       99 * length ls \<le> 100 * length (filter (\<lambda>x. x \<le> p99) ls) \<and>
       100 * length (filter (\<lambda>x. x < p99) ls) < 99 * length ls \<and>
       (length ls * 99 + 99) div 100 - 1 < length ls)"
proof (cases "ls = []")
  case True
  with assms show ?thesis by (simp add: calculatePercentiles_def)
next
  case False
  let ?n = "length ls"
  from False assms have p: "p50 = sort ls ! p50idx ?n" "p99 = sort ls ! p99idx ?n"
    by (simp_all add: calculatePercentiles_def Let_def)
  from False have n: "0 < ?n" by simp
  note b = p50idx_bounds [OF n] p99idx_bounds [OF n]
  from b have "sort ls ! p50idx ?n \<le> sort ls ! p99idx ?n"
    by (intro sorted_nth_mono p50idx_le_p99idx) simp_all
  with False p b sort_rank [of "p50idx ?n" ls] sort_rank [of "p99idx ?n" ls] show ?thesis
    by auto
qed

theorem calculatePercentiles_nearest_rank_witness:
  "calculatePercentiles [30, 10, 20] = (20, 30) \<and> (20 :: int) \<le> 30"
proof -
  have run: "calculatePercentiles [30, 10, 20] = (20, 30)"
    by (simp add: calculatePercentiles_def p50idx_def p99idx_def)
  with calculatePercentiles_nearest_rank [OF run] show ?thesis by simp
qed


text \<open>A configuration and a run of it, for the witnesses.\<close>

definition sample_config :: config where
  "sample_config =
     \<lparr>cfg_Endpoint = ''/'', cfg_RequestCount = 1, cfg_Timeout = 30 * Second, cfg_PodIP = ''10.0.0.7'',
      cfg_PodName = ''web'', cfg_PodNamespace = ''default'', cfg_Port = 8080,
      cfg_Protocol = ''http'', cfg_GRPCMethod = [], cfg_GRPCPayload = ''{}'',
      cfg_WarmupConfigName = []\<rparr>"

definition sample_executor :: warmup_executor where
  "sample_executor = NewWarmupExecutor [WithRateLimiter None]"

lemma sample_execute:
  "\<exists>r w. Execute sample_grpc sample_executor Background sample_config 0 = Some (r, w) \<and>
     res_RequestsCompleted r = 1 \<and> res_RequestsFailed r = 0 \<and> res_Error r = None"
  by (simp add: Execute_def sample_executor_def NewWarmupExecutor_def WithRateLimiter_def run_warmup_def
      sample_config_def sample_grpc_def sample_net_def net.defs check_ctx_def RateLimiter_Wait_def
      http_send_def HTTPSender_Send_def count_response_def loop_init_def go_const)


text \<open>
  C10. No request is lost: a warmup that ends without an error has accounted for all of RequestCount,
  as completed or as failed. The only assumption on the outside is that the clock does not run backwards
  between two readings.
\<close>

theorem Execute_no_lost_request:
  assumes "Execute E e ctx c w = Some (r, w')" and "res_Error r = None"
    and "\<And>v t v'. net_now E v = (t, v') \<Longrightarrow> clk v \<le> t \<and> t \<le> clk v'"
  shows "res_RequestsCompleted r + res_RequestsFailed r = cfg_RequestCount c"
proof -
  have "cfg_PodIP c \<noteq> [] \<and> (cfg_Protocol c = ProtocolHTTP \<or> cfg_Protocol c = ProtocolGRPC)"
    using Execute_unsupported [OF assms(1)] assms(2) by auto
  with Execute_outcome [OF assms(1)] obtain rs f ctx' v t1 u t2 w2 where
    rep: "reports (cfg_RequestCount c) rs f r"
    and le: "loop_end E (we_rateLimiter e) ctx' (nat (cfg_RequestCount c)) rs f v"
    and now: "net_now E v = (t1, u)" "net_now E u = (t2, w2)"
    and err: "res_Error r = map_option CtxError (ctx_Err ctx' t2)" by metis
  have "ctx_Err ctx' t = None" if "net_now E x = (t, v)" for x t
  proof (rule ccontr)
    assume "ctx_Err ctx' t \<noteq> None"
    moreover have "t \<le> t2" using assms(3) [OF that] assms(3) [OF now(1)] assms(3) [OF now(2)] by linarith
    ultimately have "ctx_Err ctx' t2 \<noteq> None" using ctx_Err_mono by (metis option.exhaust option.distinct(1))
    with err assms(2) show False by simp
  qed
  with le rep have "f \<or> int (length rs) = cfg_RequestCount c"
    by (auto simp: loop_end_def reports_def split: if_splits)
  with reports_bounds [OF rep] show ?thesis by blast
qed

theorem Execute_no_lost_request_witness:
  "\<exists>r w. Execute sample_grpc sample_executor Background sample_config 0 = Some (r, w) \<and>
     res_RequestsCompleted r + res_RequestsFailed r = 1"
proof -
  from sample_execute obtain r w where
    run: "Execute sample_grpc sample_executor Background sample_config 0 = Some (r, w)"
    "res_Error r = None" by blast
  have "v \<le> t \<and> t \<le> v'" if "net_now sample_grpc v = (t, v')" for v t v'
    using that by (auto simp: sample_grpc_def sample_net_def net.defs)
  from Execute_no_lost_request [OF run, where clk = "\<lambda>v. v", OF this] run(1) show ?thesis
    by (auto simp: sample_config_def)
qed

lemma Execute_ends:
  assumes "0 \<le> cfg_RequestCount c"
    and "cfg_Protocol c = ProtocolGRPC \<Longrightarrow> (\<And>bs. buildFileSet E bs \<noteq> None)"
  shows "\<exists>r w'. Execute E e ctx c w = Some (r, w')"
proof -
  have http: "run_warmup E (http_send E d) () rl ctx tgt c w \<noteq> None" for d rl tgt
    using http_send_returns assms(1) by (rule run_warmup_returns)
  have grpc: "run_warmup E (GRPCSender_Send E) s rl ctx tgt c w \<noteq> None"
    if "cfg_Protocol c = ProtocolGRPC" for s rl tgt
    using GRPCSender_Send_returns [OF assms(2) [OF that]] assms(1) by (rule run_warmup_returns)
  consider "cfg_PodIP c = [] \<or> cfg_Protocol c \<noteq> ProtocolHTTP \<and> cfg_Protocol c \<noteq> ProtocolGRPC"
    | (g) "cfg_PodIP c \<noteq> []" "cfg_Protocol c = ProtocolGRPC"
    | (h) "cfg_PodIP c \<noteq> []" "cfg_Protocol c = ProtocolHTTP" "cfg_Protocol c \<noteq> ProtocolGRPC" by blast
  then show ?thesis
  proof cases
    case g
    with grpc [OF g(2), of NewGRPCSender "we_rateLimiter e" "grpc_target c"] show ?thesis
      by (auto simp: Execute_def)
  next
    case h
    with http [of "we_client_Timeout e" "we_rateLimiter e" "http_target c"] show ?thesis
      by (auto simp: Execute_def)
  qed (auto simp: Execute_def)
qed



end
