(* ===== verification/Session.thy ===== *)
theory Session
  imports Go_Json "HOL-Library.AList"
begin

text \<open>
  The session of a scenario (pkg/warmup/session.go): values extracted from responses, and their
  interpolation into later requests. The map is an association list with one entry per key; the
  mutex is held for the whole of each operation, so each is one step.
\<close>

section \<open>The store\<close>

record session =
  sc_data :: "(string \<times> json) list"

definition NewSessionContext :: session where
  "NewSessionContext = \<lparr>sc_data = []\<rparr>"

definition Session_Set :: "session \<Rightarrow> string \<Rightarrow> json \<Rightarrow> session" where
  "Session_Set sc key value = sc\<lparr>sc_data := AList.update key value (sc_data sc)\<rparr>"

definition Session_Get :: "session \<Rightarrow> string \<Rightarrow> json option" where
  "Session_Get sc key = map_of (sc_data sc) key"

section \<open>Interpolation\<close>

definition token :: "string \<Rightarrow> string" where
  "token k = ''{{'' @ k @ ''}}''"

definition session_keys :: "session \<Rightarrow> string list" where
  "session_keys sc = sort (map fst (sc_data sc))"

definition replace_key :: "session \<Rightarrow> string \<Rightarrow> string \<Rightarrow> string" where
  "replace_key sc s k =
     ReplaceAll s (token k) (case Session_Get sc k of None \<Rightarrow> [] | Some v \<Rightarrow> fmt_v v)"

definition Interpolate :: "session \<Rightarrow> string \<Rightarrow> string" where
  "Interpolate sc s =
     (if \<not> Contains s ''{{'' then s else foldl (replace_key sc) s (session_keys sc))"

definition session_wf :: "session \<Rightarrow> bool" where
  "session_wf sc \<longleftrightarrow> distinct (map fst (sc_data sc))"

section \<open>The contract of the store\<close>

locale kv_store =
  fixes empty :: 's and set_key :: "'s \<Rightarrow> string \<Rightarrow> 'v \<Rightarrow> 's" and get :: "'s \<Rightarrow> string \<Rightarrow> 'v option"
  assumes get_empty: "get empty k = None"
    and get_set: "get (set_key s k v) k' = (if k' = k then Some v else get s k')"
begin

definition set_all :: "'s \<Rightarrow> (string \<times> 'v) list \<Rightarrow> 's" where
  "set_all s kvs = foldl (\<lambda>s (k, v). set_key s k v) s kvs"

lemma get_set_all:
  "get (set_all s kvs) k = (case map_of (rev kvs) k of None \<Rightarrow> get s k | Some v \<Rightarrow> Some v)"
  by (induction kvs rule: rev_induct) (auto simp: set_all_def get_set split: option.splits)

lemma set_all_order:
  assumes "distinct (map fst kvs)" and "mset kvs = mset kvs'"
  shows "get (set_all s kvs) k = get (set_all s kvs') k"
proof -
  have "distinct (map fst (rev kvs))" "mset (rev kvs) = mset (rev kvs')"
    using assms by (simp_all add: rev_map [symmetric])
  then have "map_of (rev kvs) = map_of (rev kvs')" by (rule map_of_distinct_perm)
  then show ?thesis by (simp add: get_set_all)
qed

end

interpretation store: kv_store NewSessionContext Session_Set Session_Get
  by unfold_locales
    (simp_all add: NewSessionContext_def Session_Set_def Session_Get_def AList.update_conv')

lemma session_wf_new [simp]: "session_wf NewSessionContext"
  by (simp add: session_wf_def NewSessionContext_def)

lemma session_wf_Set: "session_wf sc \<Longrightarrow> session_wf (Session_Set sc k v)"
  by (simp add: session_wf_def Session_Set_def AList.distinct_update)

section \<open>Interpolation depends on the contents only\<close>

lemma session_keys_eq:
  assumes "session_wf a" and "session_wf b" and "\<And>k. Session_Get a k = Session_Get b k"
  shows "session_keys a = session_keys b"
proof -
  have "dom (map_of (sc_data a)) = dom (map_of (sc_data b))"
    using assms(3) by (auto simp: Session_Get_def dom_def)
  then have "set (map fst (sc_data a)) = set (map fst (sc_data b))" by (simp add: dom_map_of_conv_image_fst)
  then have "mset (map fst (sc_data a)) = mset (map fst (sc_data b))"
    using assms(1,2) set_eq_iff_mset_eq_distinct unfolding session_wf_def by blast
  then show ?thesis unfolding session_keys_def by (metis sorted_list_of_multiset_mset)
qed

lemma Interpolate_eq:
  assumes "session_wf a" and "session_wf b" and "\<And>k. Session_Get a k = Session_Get b k"
  shows "Interpolate a s = Interpolate b s"
proof -
  have "replace_key a = replace_key b" using assms(3) by (intro ext) (simp add: replace_key_def)
  with session_keys_eq [OF assms] show ?thesis by (simp add: Interpolate_def)
qed

section \<open>Templates\<close>

text \<open>
  A template is a sequence of literal text and variables. What interpolation should give: every
  variable that the session knows replaced by the text of its value, everything else as it is.
\<close>

datatype segment = Lit string | Var string

fun render :: "segment \<Rightarrow> string" where
  "render (Lit s) = s"
| "render (Var k) = token k"

definition template_text :: "segment list \<Rightarrow> string" where
  "template_text ts = concat (map render ts)"

fun expand :: "session \<Rightarrow> segment \<Rightarrow> string" where
  "expand sc (Lit s) = s"
| "expand sc (Var k) = (case Session_Get sc k of None \<Rightarrow> token k | Some v \<Rightarrow> fmt_v v)"

text \<open>
  Literal text that cannot form a token together with its neighbours: it holds no \<open>{{\<close> and does not
  end in an open brace. Names of variables hold no brace.
\<close>

definition plain_text :: "string \<Rightarrow> bool" where
  "plain_text s \<longleftrightarrow> \<not> Contains s ''{{'' \<and> (s \<noteq> [] \<longrightarrow> last s \<noteq> CHR ''{'')"

definition no_brace :: "string \<Rightarrow> bool" where
  "no_brace s \<longleftrightarrow> CHR ''{'' \<notin> set s \<and> CHR ''}'' \<notin> set s"

fun seg_ok :: "segment \<Rightarrow> bool" where
  "seg_ok (Lit s) = plain_text s"
| "seg_ok (Var k) = no_brace k"

text \<open>One replacement pass turns a variable into a literal.\<close>

definition subst_seg :: "string \<Rightarrow> string \<Rightarrow> segment \<Rightarrow> segment" where
  "subst_seg k v t = (if t = Var k then Lit v else t)"

lemma Contains_Cons2: "Contains (c # s) ''{{'' \<longleftrightarrow> (c = CHR ''{'' \<and> s \<noteq> [] \<and> hd s = CHR ''{'') \<or> Contains s ''{{''"
  by (cases s) (auto simp: HasPrefix_def)

lemma plain_text_Cons:
  "plain_text (c # s) \<Longrightarrow> plain_text s \<and> (c = CHR ''{'' \<longrightarrow> s \<noteq> [] \<and> hd s \<noteq> CHR ''{'')"
  unfolding plain_text_def Contains_Cons2 by (auto split: if_splits)

lemma token_prefix_plain: "\<not> HasPrefix (CHR ''{'' # c # s) (token k)" if "c \<noteq> CHR ''{''"
  using that by (auto simp: HasPrefix_iff token_def)

lemma ReplaceAll_plain:
  "plain_text s \<Longrightarrow> ReplaceAll (s @ r) (token k) v = s @ ReplaceAll r (token k) v"
proof (induction s)
  case (Cons c s)
  from plain_text_Cons [OF Cons.prems] have s: "plain_text s"
    and c: "c = CHR ''{'' \<Longrightarrow> s \<noteq> [] \<and> hd s \<noteq> CHR ''{''" by auto
  have "\<not> HasPrefix (c # s @ r) (token k)"
  proof (cases "c = CHR ''{''")
    case True
    with c obtain d s' where "s = d # s'" "d \<noteq> CHR ''{''" by (cases s) auto
    with True token_prefix_plain show ?thesis by simp
  next
    case False
    then show ?thesis by (auto simp: HasPrefix_iff token_def)
  qed
  then show ?case
    using Cons.IH [OF s] by (subst ReplaceAll.simps) (simp add: token_def)
qed simp

lemma no_brace_split:
  assumes "no_brace a" and "no_brace b" and "a @ ''}}'' @ r = b @ ''}}'' @ r'"
  shows "a = b"
proof -
  have "takeWhile (\<lambda>c. c \<noteq> CHR ''}'') (a @ ''}}'' @ r) = a"
    "takeWhile (\<lambda>c. c \<noteq> CHR ''}'') (b @ ''}}'' @ r') = b"
    using assms(1,2) by (auto simp: no_brace_def takeWhile_tail takeWhile_append2)
  with assms(3) show ?thesis by simp
qed

lemma ReplaceAll_token_other:
  assumes "no_brace k" and "no_brace u" and "u \<noteq> k"
  shows "ReplaceAll (token u @ r) (token k) v = token u @ ReplaceAll r (token k) v"
proof -
  have h: "hd (u @ ''}}'' @ r) \<noteq> CHR ''{''" using assms(2) by (cases u) (auto simp: no_brace_def)
  have n0: "\<not> HasPrefix (token u @ r) (token k)"
    using no_brace_split [OF assms(2,1)] assms(3) by (auto simp: HasPrefix_iff token_def)
  have n1: "\<not> HasPrefix (CHR ''{'' # u @ ''}}'' @ r) (token k)"
    using h by (cases "u @ ''}}'' @ r") (auto simp: HasPrefix_iff token_def)
  have "plain_text (u @ ''}}'')"
    using assms(2) by (auto simp: plain_text_def no_brace_def Contains_iff append_eq_append_conv2
        Cons_eq_append_conv append_eq_Cons_conv)
  from ReplaceAll_plain [OF this, of r k v] n0 n1 show ?thesis
    by (subst ReplaceAll.simps, simp add: token_def, subst ReplaceAll.simps, simp add: token_def)
qed

lemma ReplaceAll_template:
  assumes "list_all seg_ok ts" and "no_brace k"
  shows "ReplaceAll (template_text ts) (token k) v = template_text (map (subst_seg k v) ts)"
  using assms(1)
proof (induction ts)
  case Nil
  show ?case by (simp add: template_text_def ReplaceAll.simps)
next
  case (Cons t ts)
  have ne: "token k \<noteq> []" by (simp add: token_def)
  from Cons show ?case
    by (cases t) (auto simp: template_text_def subst_seg_def ReplaceAll_plain
        ReplaceAll_token_other [OF assms(2)] ReplaceAll_at_prefix [OF ne])
qed

definition subst_keys :: "session \<Rightarrow> string list \<Rightarrow> segment \<Rightarrow> segment" where
  "subst_keys sc ks t =
     (case t of
        Lit s \<Rightarrow> Lit s
      | Var k \<Rightarrow>
          if k \<in> set ks then Lit (case Session_Get sc k of None \<Rightarrow> [] | Some v \<Rightarrow> fmt_v v) else Var k)"

text \<open>No name and no value of the session has an open brace; no name a closing one either.\<close>

definition brace_free :: "session \<Rightarrow> bool" where
  "brace_free sc \<longleftrightarrow>
     (\<forall>(k, v) \<in> set (sc_data sc). no_brace k \<and> CHR ''{'' \<notin> set (fmt_v v))"

lemma plain_no_open: "CHR ''{'' \<notin> set s \<Longrightarrow> plain_text s"
  by (auto simp: plain_text_def Contains_iff dest: last_in_set)

lemma brace_free_Get:
  "brace_free sc \<Longrightarrow> Session_Get sc k = Some v \<Longrightarrow> no_brace k \<and> CHR ''{'' \<notin> set (fmt_v v)"
  by (auto simp: brace_free_def Session_Get_def dest: map_of_SomeD)

lemma in_session_keys: "k \<in> set (session_keys sc) \<longleftrightarrow> Session_Get sc k \<noteq> None"
  by (simp add: session_keys_def Session_Get_def map_of_eq_None_iff)

lemma subst_keys_ok:
  assumes "brace_free sc" and "set ks \<subseteq> set (session_keys sc)" and "list_all seg_ok ts"
  shows "list_all seg_ok (map (subst_keys sc ks) ts)"
proof -
  have "seg_ok (subst_keys sc ks t)" if "seg_ok t" for t
  proof (cases t)
    case (Var k)
    show ?thesis
    proof (cases "k \<in> set ks")
      case True
      with assms(2) have "k \<in> set (session_keys sc)" by blast
      then obtain v where v: "Session_Get sc k = Some v" by (auto simp: in_session_keys)
      with brace_free_Get [OF assms(1) v] True Var show ?thesis
        by (simp add: subst_keys_def plain_no_open)
    qed (use that Var in \<open>simp add: subst_keys_def\<close>)
  qed (use that in \<open>simp add: subst_keys_def\<close>)
  with assms(3) show ?thesis by (simp add: list_all_iff)
qed

lemma foldl_replace_template:
  assumes "brace_free sc" and "list_all seg_ok ts"
  shows "set ks \<subseteq> set (session_keys sc) \<Longrightarrow>
    foldl (replace_key sc) (template_text ts) ks = template_text (map (subst_keys sc ks) ts)"
proof (induction ks rule: rev_induct)
  case Nil
  have "map (subst_keys sc []) ts = ts"
    by (rule map_idI) (simp add: subst_keys_def split: segment.splits)
  then show ?case by simp
next
  case (snoc k ks)
  let ?v = "case Session_Get sc k of None \<Rightarrow> [] | Some v \<Rightarrow> fmt_v v"
  from snoc.prems have k: "Session_Get sc k \<noteq> None" by (simp add: in_session_keys)
  with brace_free_Get [OF assms(1)] have nk: "no_brace k" by blast
  have "subst_seg k ?v (subst_keys sc ks t) = subst_keys sc (ks @ [k]) t" for t
    by (cases t) (auto simp: subst_seg_def subst_keys_def)
  with snoc ReplaceAll_template [OF subst_keys_ok [OF assms(1) _ assms(2)] nk, of ks ?v] show ?case
    by (simp add: replace_key_def comp_def)
qed

lemma render_subst_keys: "render (subst_keys sc (session_keys sc) t) = expand sc t"
  by (cases t) (auto simp: subst_keys_def in_session_keys split: option.splits)

lemma no_token_no_vars:
  assumes "\<not> Contains (template_text ts) ''{{''"
  shows "concat (map (expand sc) ts) = template_text ts"
proof -
  have "Contains (template_text ts) ''{{''" if "Var k \<in> set ts" for k
  proof -
    from that obtain as bs where "ts = as @ Var k # bs" by (auto dest: split_list)
    then have "template_text ts = template_text as @ ''{{'' @ (k @ ''}}'' @ template_text bs)"
      by (simp add: template_text_def token_def)
    then show ?thesis unfolding Contains_iff by blast
  qed
  with assms have "map (expand sc) ts = map render ts"
    by (intro map_cong refl) (metis expand.simps(1) render.simps(1) segment.exhaust)
  then show ?thesis by (simp only: template_text_def)
qed

section \<open>Properties\<close>

text \<open>
  C14. Interpolation is the simultaneous substitution of the session's values: on every template whose
  literal text cannot be confused with a token, and for a session whose names have no brace and whose
  values have no open brace, every known variable is replaced by the text of its value, and unknown
  variables and literal text stay as they are.
\<close>

theorem Interpolate_template:
  assumes "list_all seg_ok ts" and "brace_free sc"
  shows "Interpolate sc (template_text ts) = concat (map (expand sc) ts)"
proof (cases "Contains (template_text ts) ''{{''")
  case True
  then have "Interpolate sc (template_text ts) =
      template_text (map (subst_keys sc (session_keys sc)) ts)"
    using foldl_replace_template [OF assms(2,1) order_refl] by (simp add: Interpolate_def)
  also have "\<dots> = concat (map (expand sc) ts)"
    by (simp add: template_text_def comp_def render_subst_keys)
  finally show ?thesis .
next
  case False
  then show ?thesis by (simp add: Interpolate_def no_token_no_vars)
qed

definition sample_session :: session where
  "sample_session = Session_Set (Session_Set NewSessionContext ''id'' (JStr ''42'')) ''ab'' (JStr ''x'')"

theorem Interpolate_template_witness:
  "Interpolate sample_session ''/u/{{id}}/{{no}}'' = ''/u/42/{{no}}''"
proof -
  let ?ts = "[Lit ''/u/'', Var ''id'', Lit ''/'', Var ''no'']"
  have "list_all seg_ok ?ts" "brace_free sample_session" by code_simp+
  from Interpolate_template [OF this] show ?thesis
    by (simp add: template_text_def token_def sample_session_def Session_Set_def NewSessionContext_def
        Session_Get_def)
qed


text \<open>
  A JSON number is a \<^verbatim>\<open>float64\<close> in the session, and its text has an exponent from \<open>10 ^ 6\<close> on when it has
  more than the digits shown: the identifier 1234567 reaches the next request in another form.
\<close>

lemma Interpolate_large_number:
  "Interpolate (Session_Set NewSessionContext ''id'' (JNum ''1234567'')) ''/u/{{id}}'' =
     ''/u/1.234567e+06''"
  by code_simp

text \<open>
  Interpolation depends on what the session holds and not on how it came to hold it: two sessions
  in which every key has the same value give the same text, whatever the order of the insertions.
\<close>

theorem Interpolate_contents_only:
  assumes "distinct (map fst kvs)" and "mset kvs = mset kvs'"
  shows "Interpolate (foldl (\<lambda>sc (k, v). Session_Set sc k v) NewSessionContext kvs) s =
    Interpolate (foldl (\<lambda>sc (k, v). Session_Set sc k v) NewSessionContext kvs') s"
proof -
  have wf: "session_wf (store.set_all NewSessionContext kvs)" for kvs
    by (induction kvs rule: rev_induct) (auto simp: store.set_all_def session_wf_Set)
  have "Interpolate (store.set_all NewSessionContext kvs) s =
      Interpolate (store.set_all NewSessionContext kvs') s"
    using wf wf store.set_all_order [OF assms] by (rule Interpolate_eq)
  then show ?thesis by (simp add: store.set_all_def)
qed

theorem Interpolate_contents_only_witness:
  "Interpolate (foldl (\<lambda>sc (k, v). Session_Set sc k v) NewSessionContext
     [(''a'', JStr ''1''), (''b'', JStr ''2'')]) ''{{a}}{{b}}'' =
   Interpolate (foldl (\<lambda>sc (k, v). Session_Set sc k v) NewSessionContext
     [(''b'', JStr ''2''), (''a'', JStr ''1'')]) ''{{a}}{{b}}''"
  by (rule Interpolate_contents_only) simp_all

end
