(* ===== verification/Scenario_Executor.thy ===== *)
theory Scenario_Executor
  imports Warmup_Executor Session
begin

text \<open>
  The executor of scenarios (pkg/warmup/scenario_executor.go): the steps of a WarmupConfig one after
  the other, the requests of a step one after the other, each repeated, with values of the last
  response extracted into the session for the requests that follow. Counters are Go \<^verbatim>\<open>int\<close>s and wrap.
\<close>

section \<open>Constants and the executor\<close>

definition defaultScenarioTimeout :: duration where [go_const]: "defaultScenarioTimeout = 120 * Second"
definition defaultStepTimeout :: duration where [go_const]: "defaultStepTimeout = 30 * Second"
definition maxScenarioTimeout :: duration where [go_const]: "maxScenarioTimeout = 5 * Minute"

record scenario_executor =
  se_rateLimiter :: "limiter option"
  se_httpClient_Timeout :: duration

definition WithScenarioRateLimiter :: "limiter option \<Rightarrow> scenario_executor \<Rightarrow> scenario_executor" where
  "WithScenarioRateLimiter rl e = e\<lparr>se_rateLimiter := rl\<rparr>"

definition NewScenarioExecutor :: "(scenario_executor \<Rightarrow> scenario_executor) list \<Rightarrow> scenario_executor" where
  "NewScenarioExecutor opts =
     foldl (\<lambda>e opt. opt e) \<lparr>se_rateLimiter = None, se_httpClient_Timeout = 10 * Second\<rparr> opts"

section \<open>isSuccess, jsonPathLookup, extractVariables\<close>

definition isSuccess :: "int \<Rightarrow> int \<Rightarrow> string \<Rightarrow> bool" where
  "isSuccess statusCode expectedStatus protocol \<longleftrightarrow>
     (if protocol = ProtocolGRPC then statusCode = 200
      else if expectedStatus \<noteq> 0 then statusCode = expectedStatus
      else 200 \<le> statusCode \<and> statusCode < 400)"

datatype path_error = UnsupportedPath string | NotAnObject string | KeyNotFound string

fun walk :: "json \<Rightarrow> string list \<Rightarrow> path_error + json" where
  "walk cur [] = Inr cur"
| "walk cur (part # parts) =
     (case cur of
        JObj m \<Rightarrow>
          (case obj_lookup m part of
             None \<Rightarrow> Inl (KeyNotFound part)
           | Some v \<Rightarrow> walk v parts)
      | _ \<Rightarrow> Inl (NotAnObject part))"

definition jsonPathLookup :: "(string \<times> json) list \<Rightarrow> string \<Rightarrow> path_error + json" where
  "jsonPathLookup doc path =
     (if \<not> HasPrefix path ''$.'' then Inl (UnsupportedPath path)
      else walk (JObj doc) (SplitByte (TrimPrefix path ''$.'') CHR ''.''))"

definition extract_one :: "(string \<times> json) list \<Rightarrow> session \<Rightarrow> string \<times> string \<Rightarrow> session" where
  "extract_one doc sc e =
     (case jsonPathLookup doc (snd e) of
        Inl _ \<Rightarrow> sc
      | Inr val \<Rightarrow> Session_Set sc (fst e) val)"

definition extractVariables :: "string \<Rightarrow> string_map \<Rightarrow> session \<Rightarrow> session" where
  "extractVariables body extract sc =
     (case unmarshal_map body of
        None \<Rightarrow> sc
      | Some doc \<Rightarrow> foldl (extract_one doc) sc extract)"

section \<open>executeStep\<close>

record step_state =
  st_grpcSender :: "grpc_sender option"
  st_session :: session
  st_completed :: int
  st_failed :: int

definition request_protocol :: "config \<Rightarrow> WarmupRequest \<Rightarrow> string" where
  "request_protocol c req =
     (let protocol = (if wr_Protocol req = [] then cfg_Protocol c else wr_Protocol req)
      in if protocol = [] then ProtocolHTTP else protocol)"

definition request_count :: "WarmupRequest \<Rightarrow> int" where
  "request_count req = (if wr_Count req < 1 then 1 else wr_Count req)"

definition scenario_grpc_target :: "config \<Rightarrow> session \<Rightarrow> WarmupRequest \<Rightarrow> target" where
  "scenario_grpc_target c sc req =
     \<lparr>tgt_Address = BuildGRPCAddress c, tgt_Method = wr_GRPCMethod req, tgt_Headers = [],
      tgt_Payload = Interpolate sc (wr_GRPCPayload req)\<rparr>"

definition interpolated_headers :: "session \<Rightarrow> WarmupRequest \<Rightarrow> string_map" where
  "interpolated_headers sc req =
     foldl (\<lambda>h (k, v). AList.update k (Interpolate sc v) h)
       [(''User-Agent'', ''kube-booster/1.0''), (''X-Warmup-Request'', ''true'')] (wr_Headers req)"

definition scenario_http_target :: "config \<Rightarrow> session \<Rightarrow> WarmupRequest \<Rightarrow> string_map \<Rightarrow> target" where
  "scenario_http_target c sc req headers =
     (let endpoint0 = Interpolate sc (wr_Endpoint req);
          endpoint = (if endpoint0 = [] then DefaultEndpointPath else endpoint0)
      in \<lparr>tgt_Address = BuildEndpointURLFor c endpoint,
          tgt_Method = (if wr_Method req = [] then ''GET'' else wr_Method req),
          tgt_Headers = headers, tgt_Payload = Interpolate sc (wr_Body req)\<rparr>)"

definition send_request ::
  "('w, 'x) grpc_net_scheme \<Rightarrow> scenario_executor \<Rightarrow> go_ctx \<Rightarrow> config \<Rightarrow> WarmupRequest \<Rightarrow>
     step_state \<Rightarrow> 'w \<Rightarrow> (response \<times> step_state \<times> 'w) option" where
  "send_request E e ctx c req st w =
     (if request_protocol c req = ProtocolGRPC
      then let s = (case st_grpcSender st of None \<Rightarrow> NewGRPCSender | Some s \<Rightarrow> s)
           in case GRPCSender_Send E s ctx (scenario_grpc_target c (st_session st) req) w of
                None \<Rightarrow> None
              | Some (resp, s, w) \<Rightarrow> Some (resp, st\<lparr>st_grpcSender := Some s\<rparr>, w)
      else let (headers, w) = net_range E (interpolated_headers (st_session st) req) w
           in case http_send E (se_httpClient_Timeout e) () ctx
                     (scenario_http_target c (st_session st) req headers) w of
                None \<Rightarrow> None
              | Some (resp, _, w) \<Rightarrow> Some (resp, st, w))"

text \<open>The repetitions of one request; \<open>k\<close> of them are left. The result carries the last body.\<close>

fun request_loop ::
  "('w, 'x) grpc_net_scheme \<Rightarrow> scenario_executor \<Rightarrow> go_ctx \<Rightarrow> config \<Rightarrow> WarmupRequest \<Rightarrow> nat \<Rightarrow>
     step_state \<Rightarrow> string \<Rightarrow> 'w \<Rightarrow> (step_state \<times> string \<times> 'w) option" where
  "request_loop E e ctx c req 0 st lastBody w = Some (st, lastBody, w)"
| "request_loop E e ctx c req (Suc k) st lastBody w =
     (let (done, w) = check_ctx E ctx w
      in if done \<noteq> None then Some (st, lastBody, w)
         else case RateLimiter_Wait E (se_rateLimiter e) ctx w of
           (Some _, w) \<Rightarrow>
             Some (st\<lparr>st_failed := wrap64 (st_failed st + int (Suc k))\<rparr>, lastBody, w)
         | (None, w) \<Rightarrow>
             (case send_request E e ctx c req st w of
                None \<Rightarrow> None
              | Some (resp, st, w) \<Rightarrow>
                  if resp_Error resp \<noteq> None
                  then request_loop E e ctx c req k
                         (st\<lparr>st_failed := wrap64 (st_failed st + 1)\<rparr>) lastBody w
                  else request_loop E e ctx c req k
                         (if isSuccess (resp_StatusCode resp) (wr_ExpectedStatus req)
                               (request_protocol c req)
                          then st\<lparr>st_completed := wrap64 (st_completed st + 1)\<rparr>
                          else st\<lparr>st_failed := wrap64 (st_failed st + 1)\<rparr>)
                         (resp_Body resp) w))"

fun step_requests ::
  "('w, 'x) grpc_net_scheme \<Rightarrow> scenario_executor \<Rightarrow> go_ctx \<Rightarrow> config \<Rightarrow> WarmupRequest list \<Rightarrow>
     step_state \<Rightarrow> 'w \<Rightarrow> (step_state \<times> 'w) option" where
  "step_requests E e ctx c [] st w = Some (st, w)"
| "step_requests E e ctx c (req # reqs) st w =
     (let (done, w) = check_ctx E ctx w
      in if done \<noteq> None then Some (st, w)
         else case request_loop E e ctx c req (nat (request_count req)) st [] w of
           None \<Rightarrow> None
         | Some (st, lastBody, w) \<Rightarrow>
             step_requests E e ctx c reqs
               (if wr_Extract req \<noteq> [] \<and> lastBody \<noteq> []
                then st\<lparr>st_session := extractVariables lastBody (wr_Extract req) (st_session st)\<rparr>
                else st) w)"

definition executeStep ::
  "('w, 'x) grpc_net_scheme \<Rightarrow> scenario_executor \<Rightarrow> go_ctx \<Rightarrow> config \<Rightarrow> WarmupStep \<Rightarrow> session \<Rightarrow> 'w \<Rightarrow>
     (int \<times> int \<times> session \<times> 'w) option" where
  "executeStep E e ctx c step sc w =
     (case step_requests E e ctx c (ws_Requests step)
             \<lparr>st_grpcSender = None, st_session = sc, st_completed = 0, st_failed = 0\<rparr> w of
        None \<Rightarrow> None
      | Some (st, w) \<Rightarrow>
          (let w = (case st_grpcSender st of None \<Rightarrow> w | Some s \<Rightarrow> snd (GRPCSender_Close E s w))
           in Some (st_completed st, st_failed st, st_session st, w)))"

section \<open>ExecuteScenario\<close>

definition positive_duration :: "string \<Rightarrow> duration \<Rightarrow> duration" where
  "positive_duration s d0 =
     (if s \<noteq> []
      then case ParseDuration s of Inr d \<Rightarrow> if d > 0 then d else d0 | Inl _ \<Rightarrow> d0
      else d0)"

definition overallTimeout :: "WarmupConfigSpec \<Rightarrow> duration" where
  "overallTimeout spec =
     (let t = positive_duration (spec_Timeout spec) defaultScenarioTimeout
      in if t > maxScenarioTimeout then maxScenarioTimeout else t)"

definition stepTimeout :: "WarmupStep \<Rightarrow> duration" where
  "stepTimeout step = positive_duration (ws_Timeout step) defaultStepTimeout"

fun scenario_steps ::
  "('w, 'x) grpc_net_scheme \<Rightarrow> scenario_executor \<Rightarrow> go_ctx \<Rightarrow> config \<Rightarrow> WarmupStep list \<Rightarrow> session \<Rightarrow>
     int \<Rightarrow> int \<Rightarrow> 'w \<Rightarrow> (int \<times> int \<times> 'w) option" where
  "scenario_steps E e ctx c [] sc totalCompleted totalFailed w = Some (totalCompleted, totalFailed, w)"
| "scenario_steps E e ctx c (step # steps) sc totalCompleted totalFailed w =
     (let (done, w) = check_ctx E ctx w
      in if done \<noteq> None then Some (totalCompleted, totalFailed, w)
         else let (t, w) = net_now E w
              in case executeStep E e (WithTimeout ctx t (stepTimeout step)) c step sc w of
                   None \<Rightarrow> None
                 | Some (completed, failed, sc, w) \<Rightarrow>
                     scenario_steps E e ctx c steps sc (wrap64 (totalCompleted + completed))
                       (wrap64 (totalFailed + failed)) w)"

definition ExecuteScenario ::
  "('w, 'x) grpc_net_scheme \<Rightarrow> scenario_executor \<Rightarrow> go_ctx \<Rightarrow> config \<Rightarrow> WarmupConfigSpec \<Rightarrow> 'w \<Rightarrow>
     (result \<times> 'w) option" where
  "ExecuteScenario E e ctx c spec w =
     (if cfg_PodIP c = []
      then Some (zero_result\<lparr>res_Error := Some ErrNoPodIP,
                   res_Message := ''cannot execute scenario: pod IP not set''\<rparr>, w)
      else let (t0, w) = net_now E w;
               scenarioCtx = WithTimeout ctx t0 (overallTimeout spec)
           in if spec_Steps spec = []
              then Some (zero_result\<lparr>res_Success := True,
                           res_Message := ''scenario warmup skipped: no steps defined''\<rparr>, w)
              else let (start, w) = net_now E w
                   in case scenario_steps E e scenarioCtx c (spec_Steps spec) NewSessionContext 0 0 w of
                        None \<Rightarrow> None
                      | Some (totalCompleted, totalFailed, w) \<Rightarrow>
                          let (t, w) = net_now E w;
                              (err, w) = check_ctx E scenarioCtx w;
                              r = zero_result\<lparr>res_RequestsCompleted := totalCompleted,
                                    res_RequestsFailed := totalFailed, res_TotalDuration := t - start,
                                    res_Success := totalCompleted > 0,
                                    res_Error := map_option CtxError err\<rparr>
                          in Some (r\<lparr>res_Message := BuildMessage r\<rparr>, w))"

section \<open>MockScenarioExecutor\<close>

record mock_scenario_executor =
  mse_Result :: "result option"
  mse_Called :: bool

definition MockScenarioExecutor_ExecuteScenario ::
  "mock_scenario_executor \<Rightarrow> go_ctx \<Rightarrow> config \<Rightarrow> WarmupConfigSpec \<Rightarrow> result \<times> mock_scenario_executor" where
  "MockScenarioExecutor_ExecuteScenario m ctx c spec =
     (let m = m\<lparr>mse_Called := True\<rparr>
      in case mse_Result m of
           Some r \<Rightarrow> (r, m)
         | None \<Rightarrow>
             (zero_result\<lparr>res_Success := True, res_RequestsCompleted := 1,
                res_Message := ''mock scenario completed''\<rparr>, m))"

section \<open>Lemmas on the counters\<close>

text \<open>
  What a piece of the run does to the pair of counters: it adds numbers that are not negative, at most
  \<open>k\<close> together, provided that \<open>k\<close> more does not leave the range.
\<close>

definition counts_ok :: "int \<Rightarrow> int \<times> int \<Rightarrow> int \<times> int \<Rightarrow> bool" where
  "counts_ok k a b \<longleftrightarrow>
     (0 \<le> fst a \<and> 0 \<le> snd a \<and> fst a + snd a + k \<le> max_int64 \<longrightarrow>
        fst a \<le> fst b \<and> snd a \<le> snd b \<and> fst b + snd b \<le> fst a + snd a + k)"

definition st_counts :: "step_state \<Rightarrow> int \<times> int" where
  "st_counts st = (st_completed st, st_failed st)"

lemma counts_ok_refl [simp]: "0 \<le> k \<Longrightarrow> counts_ok k a a"
  by (simp add: counts_ok_def)

lemma counts_ok_trans:
  "counts_ok k a b \<Longrightarrow> counts_ok l b d \<Longrightarrow> 0 \<le> k \<Longrightarrow> 0 \<le> l \<Longrightarrow> counts_ok (k + l) a d"
  unfolding counts_ok_def by linarith

lemma counts_ok_failed: "0 \<le> k \<Longrightarrow> counts_ok k (a, b) (a, wrap64 (b + k))"
  by (auto simp: counts_ok_def in_int64_def)

lemma counts_ok_completed: "counts_ok 1 (a, b) (wrap64 (a + 1), b)"
  by (auto simp: counts_ok_def in_int64_def)

lemma send_request_counts:
  "send_request E e ctx c req st w = Some (r, st', w') \<Longrightarrow>
     st_counts st' = st_counts st \<and> st_session st' = st_session st"
  by (auto simp: send_request_def st_counts_def Let_def split: if_splits option.splits prod.splits)

lemma request_loop_counts:
  "request_loop E e ctx c req k st lb w = Some (st', lb', w') \<Longrightarrow>
     counts_ok (int k) (st_counts st) (st_counts st')"
proof (induction k arbitrary: st lb w)
  case 0
  then show ?case by simp
next
  case (Suc k)
  obtain d w1 where check: "check_ctx E ctx w = (d, w1)" by fastforce
  obtain x w2 where wait: "RateLimiter_Wait E (se_rateLimiter e) ctx w1 = (x, w2)" by fastforce
  note prems = Suc.prems check wait
  consider (stopped) "d \<noteq> None" | (refused) "d = None" "x \<noteq> None" | (sent) "d = None" "x = None" by blast
  then show ?case
  proof cases
    case stopped
    with prems show ?thesis by simp
  next
    case refused
    with prems counts_ok_failed [of "int (Suc k)"] show ?thesis by (auto simp: st_counts_def)
  next
    case sent
    with prems obtain r st1 w3 where send: "send_request E e ctx c req st w2 = Some (r, st1, w3)"
      by (auto split: option.splits)
    let ?st2 = "if resp_Error r = None \<and>
        isSuccess (resp_StatusCode r) (wr_ExpectedStatus req) (request_protocol c req)
      then st1\<lparr>st_completed := wrap64 (st_completed st1 + 1)\<rparr>
      else st1\<lparr>st_failed := wrap64 (st_failed st1 + 1)\<rparr>"
    from prems sent send obtain lb1 where "request_loop E e ctx c req k ?st2 lb1 w3 = Some (st', lb', w')"
      by (auto split: if_splits)
    from Suc.IH [OF this] have rest: "counts_ok (int k) (st_counts ?st2) (st_counts st')" .
    have "counts_ok 1 (st_counts st1) (st_counts ?st2)"
      using counts_ok_completed counts_ok_failed [of 1] by (simp add: st_counts_def)
    with rest have "counts_ok (1 + int k) (st_counts st1) (st_counts st')"
      by (intro counts_ok_trans) simp_all
    with send_request_counts [OF send] show ?thesis by simp
  qed
qed

lemma request_count_pos: "1 \<le> request_count req"
  by (simp add: request_count_def)

definition step_total :: "WarmupRequest list \<Rightarrow> int" where
  "step_total reqs = sum_list (map request_count reqs)"

lemma step_total_Cons [simp]: "step_total (r # rs) = request_count r + step_total rs"
  by (simp add: step_total_def)

lemma step_total_nonneg: "0 \<le> step_total reqs"
  unfolding step_total_def by (rule sum_list_nonneg) (auto simp: request_count_def)

lemma step_requests_counts:
  "step_requests E e ctx c reqs st w = Some (st', w') \<Longrightarrow>
     counts_ok (step_total reqs) (st_counts st) (st_counts st')"
proof (induction reqs arbitrary: st w)
  case Nil
  then show ?case by (simp add: step_total_def)
next
  case (Cons req reqs)
  obtain d w1 where check: "check_ctx E ctx w = (d, w1)" by fastforce
  show ?case
  proof (cases "d = None")
    case False
    with Cons.prems check request_count_pos [of req] step_total_nonneg [of reqs] show ?thesis by simp
  next
    case True
    with Cons.prems check obtain st1 lb w2 where
      loop: "request_loop E e ctx c req (nat (request_count req)) st [] w1 = Some (st1, lb, w2)"
      by (auto split: option.splits)
    with Cons.prems check True obtain st2 where
      rest: "step_requests E e ctx c reqs st2 w2 = Some (st', w')"
      and st2: "st_counts st2 = st_counts st1"
      by (auto simp: st_counts_def)
    from request_loop_counts [OF loop] request_count_pos [of req] st2
    have "counts_ok (request_count req) (st_counts st) (st_counts st2)" by simp
    from counts_ok_trans [OF this Cons.IH [OF rest]] request_count_pos [of req] step_total_nonneg [of reqs]
    show ?thesis by simp
  qed
qed

lemma executeStep_counts:
  assumes "executeStep E e ctx c step sc w = Some (completed, failed, sc', w')"
  shows "counts_ok (step_total (ws_Requests step)) (0, 0) (completed, failed)"
proof -
  from assms obtain st v where run: "step_requests E e ctx c (ws_Requests step)
      \<lparr>st_grpcSender = None, st_session = sc, st_completed = 0, st_failed = 0\<rparr> w = Some (st, v)"
    and "completed = st_completed st" "failed = st_failed st"
    by (auto simp: executeStep_def Let_def split: option.splits)
  with step_requests_counts [OF run] show ?thesis by (simp add: st_counts_def)
qed

definition scenario_total :: "WarmupStep list \<Rightarrow> int" where
  "scenario_total steps = sum_list (map (\<lambda>s. step_total (ws_Requests s)) steps)"

lemma scenario_total_Cons [simp]:
  "scenario_total (s # ss) = step_total (ws_Requests s) + scenario_total ss"
  by (simp add: scenario_total_def)

lemma scenario_total_nonneg: "0 \<le> scenario_total steps"
  unfolding scenario_total_def by (rule sum_list_nonneg) (auto simp: step_total_nonneg)

lemma counts_ok_add:
  assumes "counts_ok k (0, 0) (x, y)" and "0 \<le> k"
  shows "counts_ok k (a, b) (wrap64 (a + x), wrap64 (b + y))"
  using assms by (auto simp: counts_ok_def in_int64_def)

lemma scenario_steps_counts:
  "scenario_steps E e ctx c steps sc a b w = Some (a', b', w') \<Longrightarrow>
     counts_ok (scenario_total steps) (a, b) (a', b')"
proof (induction steps arbitrary: sc a b w)
  case Nil
  then show ?case by (simp add: scenario_total_def)
next
  case (Cons step steps)
  obtain d w1 where check: "check_ctx E ctx w = (d, w1)" by fastforce
  obtain t w2 where now: "net_now E w1 = (t, w2)" by fastforce
  have nn: "0 \<le> step_total (ws_Requests step)" "0 \<le> scenario_total steps"
    by (simp_all add: step_total_nonneg scenario_total_nonneg)
  show ?case
  proof (cases "d = None")
    case False
    with Cons.prems check nn show ?thesis by simp
  next
    case True
    with Cons.prems check now obtain x y sc' w3 where
      step: "executeStep E e (WithTimeout ctx t (stepTimeout step)) c step sc w2 = Some (x, y, sc', w3)"
      and rest: "scenario_steps E e ctx c steps sc' (wrap64 (a + x)) (wrap64 (b + y)) w3 = Some (a', b', w')"
      by (auto split: option.splits)
    from counts_ok_add [OF executeStep_counts [OF step] nn(1)] Cons.IH [OF rest] nn
    have "counts_ok (step_total (ws_Requests step) + scenario_total steps) (a, b) (a', b')"
      by (rule counts_ok_trans)
    then show ?thesis by simp
  qed
qed

section \<open>Lemmas on termination\<close>

lemma send_request_returns:
  assumes "\<And>bs. buildFileSet E bs \<noteq> None"
  shows "send_request E e ctx c req st w \<noteq> None"
  using GRPCSender_Send_returns [OF assms] http_send_returns [of E]
  by (auto simp: send_request_def Let_def simp del: not_None_eq split: prod.splits option.splits)

lemma request_loop_returns:
  assumes "\<And>bs. buildFileSet E bs \<noteq> None"
  shows "request_loop E e ctx c req k st lb w \<noteq> None"
proof (induction k arbitrary: st lb w)
  case (Suc k)
  obtain d w1 where check: "check_ctx E ctx w = (d, w1)" by fastforce
  obtain x w2 where wait: "RateLimiter_Wait E (se_rateLimiter e) ctx w1 = (x, w2)" by fastforce
  obtain r st1 w3 where send: "send_request E e ctx c req st w2 = Some (r, st1, w3)"
    using send_request_returns [OF assms, of e ctx c req st w2] by auto
  show ?case
    using Suc.IH by (cases x) (simp_all add: Let_def check wait send del: not_None_eq)
qed simp

lemma step_requests_returns:
  assumes "\<And>bs. buildFileSet E bs \<noteq> None"
  shows "step_requests E e ctx c reqs st w \<noteq> None"
proof (induction reqs arbitrary: st w)
  case (Cons req reqs)
  obtain d w1 where check: "check_ctx E ctx w = (d, w1)" by fastforce
  obtain st1 lb w2 where
    loop: "request_loop E e ctx c req (nat (request_count req)) st [] w1 = Some (st1, lb, w2)"
    using request_loop_returns [OF assms] by (metis not_None_eq prod_cases3)
  show ?case using Cons.IH by (simp add: Let_def check loop del: not_None_eq)
qed simp

lemma executeStep_returns:
  assumes "\<And>bs. buildFileSet E bs \<noteq> None"
  shows "executeStep E e ctx c step sc w \<noteq> None"
  using step_requests_returns [OF assms]
  by (auto simp: executeStep_def Let_def simp del: not_None_eq split: option.splits)

lemma scenario_steps_returns:
  assumes "\<And>bs. buildFileSet E bs \<noteq> None"
  shows "scenario_steps E e ctx c steps sc a b w \<noteq> None"
proof (induction steps arbitrary: sc a b w)
  case (Cons step steps)
  obtain d w1 where check: "check_ctx E ctx w = (d, w1)" by fastforce
  obtain t w2 where now: "net_now E w1 = (t, w2)" by fastforce
  obtain x y sc' w3 where
    step: "executeStep E e (WithTimeout ctx t (stepTimeout step)) c step sc w2 = Some (x, y, sc', w3)"
    using executeStep_returns [OF assms] by (metis not_None_eq prod_cases4)
  show ?case using Cons.IH by (simp add: Let_def check now step del: not_None_eq)
qed simp

lemma ExecuteScenario_steps:
  assumes "ExecuteScenario E e ctx c spec w = Some (r, w')" and "cfg_PodIP c \<noteq> []"
    and "spec_Steps spec \<noteq> []"
  obtains ctx' v v' where "scenario_steps E e ctx' c (spec_Steps spec) NewSessionContext 0 0 v =
      Some (res_RequestsCompleted r, res_RequestsFailed r, v')"
    "res_Success r \<longleftrightarrow> res_RequestsCompleted r > 0" "res_Message r = BuildMessage r"
  using assms
  by (auto simp: ExecuteScenario_def Let_def split: prod.splits option.splits)

section \<open>Lemmas on paths\<close>

inductive member_path :: "json \<Rightarrow> string list \<Rightarrow> json \<Rightarrow> bool" where
  here: "member_path v [] v"
| down: "obj_lookup m k = Some u \<Longrightarrow> member_path u ks v \<Longrightarrow> member_path (JObj m) (k # ks) v"

inductive_cases member_path_NilE [elim!]: "member_path u [] v"
inductive_cases member_path_ConsE [elim!]: "member_path u (k # ks) v"

lemma walk_iff: "walk u ks = Inr v \<longleftrightarrow> member_path u ks v"
proof
  show "walk u ks = Inr v \<Longrightarrow> member_path u ks v"
    by (induction u ks rule: walk.induct) (auto intro: member_path.intros split: json.splits option.splits)
  show "member_path u ks v \<Longrightarrow> walk u ks = Inr v"
    by (induction rule: member_path.induct) auto
qed

lemma SplitByte_ne: "SplitByte s c \<noteq> []"
  by (cases s) (auto split: list.splits)

lemma join_SplitByte: "join_with [c] (SplitByte s c) = s"
proof (induction s)
  case (Cons x s)
  obtain p ps where "SplitByte s c = p # ps" using SplitByte_ne by (metis neq_Nil_conv)
  with Cons show ?case by (cases ps) auto
qed simp

lemma SplitByte_append: "c \<notin> set p \<Longrightarrow> SplitByte (p @ c # s) c = p # SplitByte s c"
  by (induction p) auto

lemma SplitByte_whole: "c \<notin> set p \<Longrightarrow> SplitByte p c = [p]"
  by (induction p) auto

lemma SplitByte_join:
  "ks \<noteq> [] \<Longrightarrow> (\<forall>k \<in> set ks. c \<notin> set k) \<Longrightarrow> SplitByte (join_with [c] ks) c = ks"
proof (induction ks)
  case (Cons k ks)
  then show ?case by (cases ks) (auto simp: SplitByte_append SplitByte_whole)
qed simp

lemma foldl_extract:
  "distinct (map fst ex) \<Longrightarrow>
     Session_Get (foldl (extract_one doc) sc ex) k =
       (case map_of ex k of
          None \<Rightarrow> Session_Get sc k
        | Some path \<Rightarrow>
            (case jsonPathLookup doc path of Inl _ \<Rightarrow> Session_Get sc k | Inr v \<Rightarrow> Some v))"
proof (induction ex arbitrary: sc)
  case (Cons e ex)
  have "map_of ex (fst e) = None" using Cons.prems by (simp add: map_of_eq_None_iff)
  with Cons show ?case
    by (cases e) (auto simp: extract_one_def store.get_set split: sum.splits option.splits)
qed simp

lemma positive_duration_cases:
  "positive_duration s d0 =
     (case ParseDuration s of Inr d \<Rightarrow> if d > 0 then d else d0 | Inl _ \<Rightarrow> d0)"
  by (simp add: positive_duration_def split: sum.splits)

lemma ExecuteScenario_counts:
  assumes "ExecuteScenario E e ctx c spec w = Some (r, w')" and "cfg_PodIP c \<noteq> []"
    and "scenario_total (spec_Steps spec) \<le> max_int64"
  shows "0 \<le> res_RequestsCompleted r \<and> 0 \<le> res_RequestsFailed r \<and>
    res_RequestsCompleted r + res_RequestsFailed r \<le> scenario_total (spec_Steps spec) \<and>
    (res_Success r \<longleftrightarrow> res_RequestsCompleted r > 0 \<or> spec_Steps spec = [])"
proof (cases "spec_Steps spec = []")
  case True
  with assms(1,2) show ?thesis
    by (auto simp: ExecuteScenario_def zero_result_def scenario_total_def Let_def split: prod.splits)
next
  case False
  from ExecuteScenario_steps [OF assms(1,2) False] obtain ctx' v v' where
    run: "scenario_steps E e ctx' c (spec_Steps spec) NewSessionContext 0 0 v =
      Some (res_RequestsCompleted r, res_RequestsFailed r, v')"
    and ok: "res_Success r \<longleftrightarrow> res_RequestsCompleted r > 0" by blast
  from scenario_steps_counts [OF run] assms(3) scenario_total_nonneg [of "spec_Steps spec"] ok False
  show ?thesis by (auto simp: counts_ok_def)
qed

section \<open>Properties\<close>

text \<open>
  C13. The counters of a scenario: as long as the repetitions of all requests of all steps add up to a
  number an \<^verbatim>\<open>int\<close> can hold, completed and failed are not negative and their sum is at most that
  number; the scenario succeeds exactly when a request completed or when it has no steps.
\<close>

theorem ExecuteScenario_counters:
  assumes "ExecuteScenario E e ctx c spec w = Some (r, w')" and "cfg_PodIP c \<noteq> []"
    and "scenario_total (spec_Steps spec) \<le> max_int64"
  shows "0 \<le> res_RequestsCompleted r \<and> 0 \<le> res_RequestsFailed r \<and>
    res_RequestsCompleted r + res_RequestsFailed r \<le> scenario_total (spec_Steps spec) \<and>
    (res_Success r \<longleftrightarrow> res_RequestsCompleted r > 0 \<or> spec_Steps spec = [])"
  using assms by (rule ExecuteScenario_counts)

definition sample_spec :: WarmupConfigSpec where
  "sample_spec =
     \<lparr>spec_Steps = [\<lparr>ws_Name = [], ws_Requests = [zero_request], ws_Timeout = []\<rparr>], spec_Timeout = []\<rparr>"

definition sample_scenario_executor :: scenario_executor where
  "sample_scenario_executor = NewScenarioExecutor [WithScenarioRateLimiter None]"

lemma ExecuteScenario_ends:
  assumes "\<And>bs. buildFileSet E bs \<noteq> None"
  shows "\<exists>r w'. ExecuteScenario E e ctx c spec w = Some (r, w')"
proof -
  obtain t0 w0 where now0: "net_now E w = (t0, w0)" by fastforce
  obtain t1 w1 where now1: "net_now E w0 = (t1, w1)" by fastforce
  obtain a b v where "scenario_steps E e (WithTimeout ctx t0 (overallTimeout spec)) c (spec_Steps spec)
      NewSessionContext 0 0 w1 = Some (a, b, v)"
    using scenario_steps_returns [OF assms] by (metis not_None_eq prod_cases3)
  with now0 now1 show ?thesis
    by (auto simp: ExecuteScenario_def Let_def split: prod.splits)
qed


lemma no_global_cycle: "buildFileSet (sample_grpc\<lparr>g_unmarshal_fdp := (\<lambda>_. Inl (ErrText []))\<rparr>) bs \<noteq> None"
  by (cases bs) (simp_all add: buildFileSet_def Let_def sample_grpc_def net.defs)


theorem ExecuteScenario_counters_witness:
  "\<exists>r w. ExecuteScenario sample_grpc sample_scenario_executor Background sample_config sample_spec 0 =
     Some (r, w) \<and> res_RequestsCompleted r = 1 \<and> res_Success r"
proof -
  obtain r w where run: "ExecuteScenario sample_grpc sample_scenario_executor Background sample_config
      sample_spec 0 = Some (r, w)" and one: "res_RequestsCompleted r = 1"
    by (simp add: ExecuteScenario_def sample_scenario_executor_def NewScenarioExecutor_def
        WithScenarioRateLimiter_def sample_spec_def zero_request_def executeStep_def check_ctx_def
        request_count_def send_request_def request_protocol_def sample_config_def sample_grpc_def
        sample_net_def net.defs http_send_def HTTPSender_Send_def RateLimiter_Wait_def isSuccess_def
        overallTimeout_def stepTimeout_def positive_duration_def go_const in_int64_def Let_def)
  have "scenario_total (spec_Steps sample_spec) \<le> max_int64"
    by (simp add: scenario_total_def step_total_def sample_spec_def request_count_def zero_request_def)
  with ExecuteScenario_counters [OF run] one run show ?thesis by (simp add: sample_config_def)
qed

text \<open>
  C25. jsonPathLookup finds a value exactly at the paths it documents: the path is \<open>$.\<close> followed by
  names joined by dots, and the names lead from the document to the value through objects, the last of
  equal keys counting. Arrays and other values are never entered.
\<close>

theorem jsonPathLookup_iff:
  "jsonPathLookup doc path = Inr v \<longleftrightarrow>
     (\<exists>ks. ks \<noteq> [] \<and> list_all (\<lambda>k. CHR ''.'' \<notin> set k) ks \<and> path = ''$.'' @ join_with ''.'' ks \<and>
        member_path (JObj doc) ks v)"
proof
  assume l: "jsonPathLookup doc path = Inr v"
  let ?rest = "TrimPrefix path ''$.''" and ?ks = "SplitByte (TrimPrefix path ''$.'') CHR ''.''"
  from l have p: "HasPrefix path ''$.''" "walk (JObj doc) ?ks = Inr v"
    by (auto simp: jsonPathLookup_def split: if_splits)
  then have "path = ''$.'' @ ?rest" by (auto simp: TrimPrefix_def HasPrefix_iff)
  moreover have "join_with ''.'' ?ks = ?rest" by (rule join_SplitByte)
  moreover have "list_all (\<lambda>k. CHR ''.'' \<notin> set k) ?ks" by (auto simp: list_all_iff dest: SplitByte_no_sep)
  ultimately show "\<exists>ks. ks \<noteq> [] \<and> list_all (\<lambda>k. CHR ''.'' \<notin> set k) ks \<and>
      path = ''$.'' @ join_with ''.'' ks \<and> member_path (JObj doc) ks v"
    using p(2) SplitByte_ne by (intro exI [of _ ?ks]) (simp add: walk_iff)
next
  assume "\<exists>ks. ks \<noteq> [] \<and> list_all (\<lambda>k. CHR ''.'' \<notin> set k) ks \<and> path = ''$.'' @ join_with ''.'' ks \<and>
    member_path (JObj doc) ks v"
  then obtain ks where ks: "ks \<noteq> []" "list_all (\<lambda>k. CHR ''.'' \<notin> set k) ks"
      "path = ''$.'' @ join_with ''.'' ks" "member_path (JObj doc) ks v" by blast
  from ks(1,2) have "SplitByte (join_with ''.'' ks) CHR ''.'' = ks"
    by (intro SplitByte_join) (auto simp: list_all_iff)
  with ks(3,4) show "jsonPathLookup doc path = Inr v"
    by (simp add: jsonPathLookup_def TrimPrefix_def HasPrefix_def walk_iff)
qed

text \<open>
  C24. What a response leaves in the session: when its body is a JSON object, every variable of the
  extract rules whose path resolves gets the value found, every other key keeps its value; the result
  does not depend on the order in which the rules, a Go map, are visited. When the body is not a JSON object,
  the session stays as it is.
\<close>

theorem extractVariables_session:
  assumes "distinct (map fst extract)"
  shows "Session_Get (extractVariables body extract sc) k =
    (case unmarshal_map body of
       None \<Rightarrow> Session_Get sc k
     | Some doc \<Rightarrow>
         (case map_of extract k of
            None \<Rightarrow> Session_Get sc k
          | Some path \<Rightarrow>
              (case jsonPathLookup doc path of Inl _ \<Rightarrow> Session_Get sc k | Inr v \<Rightarrow> Some v)))"
  using assms by (simp add: extractVariables_def foldl_extract split: option.splits)

theorem extractVariables_session_witness:
  "Session_Get (extractVariables ''{\"a\":{\"b\":\"t\"}}'' [(''tok'', ''$.a.b''), (''no'', ''$.x'')]
     NewSessionContext) ''tok'' = Some (JStr ''t'')"
proof -
  have "distinct (map fst [(''tok'', ''$.a.b''), (''no'', ''$.x'')])" by simp
  note h = extractVariables_session [OF this, of "''{\"a\":{\"b\":\"t\"}}''" NewSessionContext "''tok''"]
  have "unmarshal_map ''{\"a\":{\"b\":\"t\"}}'' = Some [(''a'', JObj [(''b'', JStr ''t'')])]" by code_simp
  moreover have "jsonPathLookup [(''a'', JObj [(''b'', JStr ''t'')])] ''$.a.b'' = Inr (JStr ''t'')"
    by code_simp
  ultimately show ?thesis unfolding h by simp
qed

text \<open>
  C38. Every scenario is limited in time, whatever its texts say: the overall timeout is positive and at
  most five minutes, it is the text's duration when that is one in this range, and 120 seconds when the
  text is missing, malformed or not positive; a step's timeout is positive, 30 seconds by default.
\<close>

theorem scenario_timeouts:
  "0 < overallTimeout spec \<and> overallTimeout spec \<le> 5 * Minute \<and> 0 < stepTimeout step \<and>
   (case ParseDuration (spec_Timeout spec) of
      Inl _ \<Rightarrow> overallTimeout spec = 120 * Second
    | Inr d \<Rightarrow> overallTimeout spec = (if d \<le> 0 then 120 * Second else min d (5 * Minute))) \<and>
   (case ParseDuration (ws_Timeout step) of
      Inl _ \<Rightarrow> stepTimeout step = 30 * Second
    | Inr d \<Rightarrow> stepTimeout step = (if d \<le> 0 then 30 * Second else d))"
  by (auto simp: overallTimeout_def stepTimeout_def positive_duration_cases go_const Let_def
      split: sum.splits)

definition refusing_grpc :: "int grpc_net" where
  "refusing_grpc = sample_grpc\<lparr>net_wait :=
     (\<lambda>_ _ w. (Some (ErrText ''rate: Wait(n=1) would exceed context deadline''), w))\<rparr>"

definition huge_spec :: WarmupConfigSpec where
  "huge_spec =
     (let req = zero_request\<lparr>wr_Count := 4611686018427387904\<rparr>
      in \<lparr>spec_Steps = [\<lparr>ws_Name = [], ws_Requests = [req, req], ws_Timeout = []\<rparr>], spec_Timeout = []\<rparr>)"

lemma request_loop_refused:
  assumes "check_ctx E ctx w = (None, w1)" and "RateLimiter_Wait E (se_rateLimiter e) ctx w1 = (Some x, w2)"
    and "0 < k"
  shows "request_loop E e ctx c req k st lb w =
    Some (st\<lparr>st_failed := wrap64 (st_failed st + int k)\<rparr>, lb, w2)"
  using assms by (cases k) auto

text \<open>
  The number of failed requests can wrap: two requests of one step with \<open>2 ^ 62\<close> repetitions each,
  refused by the rate limiter, make RequestsFailed negative.
\<close>

theorem ExecuteScenario_failed_wraps:
  "\<exists>r w. ExecuteScenario refusing_grpc
       (NewScenarioExecutor [WithScenarioRateLimiter (NewRequestRateLimiter id 1)])
       Background sample_config huge_spec 0 = Some (r, w) \<and>
     res_RequestsFailed r = - (2 ^ 63) \<and> res_RequestsCompleted r = 0"
proof -
  have rl: "NewRequestRateLimiter id 1 \<noteq> None" by (simp add: NewRequestRateLimiter_def)
  then obtain l where l: "NewRequestRateLimiter id 1 = Some l" by blast
  show ?thesis
    by (simp add: ExecuteScenario_def NewScenarioExecutor_def l request_loop_refused
        WithScenarioRateLimiter_def huge_spec_def zero_request_def executeStep_def check_ctx_def
        request_count_def sample_config_def refusing_grpc_def sample_grpc_def
        sample_net_def net.defs RateLimiter_Wait_def wrap64_def
        overallTimeout_def stepTimeout_def positive_duration_def go_const Let_def)
qed

end
