(* ===== verification/Config_Error.thy ===== *)
theory Config_Error
  imports Grpc_Sender
begin

text \<open>
  The texts of the errors of ParseConfig (pkg/warmup/config.go), as they reach events and the pod
  condition. \<^verbatim>\<open>strconv\<close> quotes with \<^verbatim>\<open>%q\<close>, \<^verbatim>\<open>time\<close> with a quoting of its own, byte by byte.
\<close>

definition time_quote :: "string \<Rightarrow> string" where
  "time_quote s =
     CHR 34 # concat (map (\<lambda>c.
       if byte c \<ge> 128 \<or> byte c < 32 then [CHR 92, CHR ''x''] @ hex_digits 2 (byte c)
       else if byte c = 34 \<or> byte c = 92 then [CHR 92, c] else [c]) s) @ [CHR 34]"

definition num_error_text :: "(nat \<Rightarrow> bool) \<Rightarrow> string \<Rightarrow> num_error \<Rightarrow> string" where
  "num_error_text print s e =
     ''strconv.Atoi: parsing '' @ Quote print s @ '': '' @
     (case e of ErrSyntax \<Rightarrow> ''invalid syntax'' | ErrRange \<Rightarrow> ''value out of range'')"

definition dur_error_text :: "string \<Rightarrow> dur_error \<Rightarrow> string" where
  "dur_error_text s e =
     (case e of
        InvalidDuration \<Rightarrow> ''time: invalid duration '' @ time_quote s
      | MissingUnit \<Rightarrow> ''time: missing unit in duration '' @ time_quote s
      | UnknownUnit u \<Rightarrow> ''time: unknown unit '' @ time_quote u @ '' in duration '' @ time_quote s)"

fun cfg_error_text :: "(nat \<Rightarrow> bool) \<Rightarrow> cfg_error \<Rightarrow> string" where
  "cfg_error_text print PodIsNil = ''pod is nil, cannot determine warmup port''"
| "cfg_error_text print (InvalidRequests s e) =
     ''invalid warmup-requests value '' @ Quote print s @ '': '' @ num_error_text print s e"
| "cfg_error_text print (RequestsTooFew n) = ''warmup-requests must be at least 1, got '' @ Itoa n"
| "cfg_error_text print (RequestsTooMany n) =
     ''warmup-requests must not exceed '' @ Itoa MaxRequestCount @ '', got '' @ Itoa n"
| "cfg_error_text print (InvalidTimeout s e) =
     ''invalid warmup-timeout value '' @ Quote print s @ '': '' @ dur_error_text s e"
| "cfg_error_text print (TimeoutTooShort d) =
     ''warmup-timeout must be at least 1s, got '' @ dur_String d"
| "cfg_error_text print (TimeoutTooLong d) =
     ''warmup-timeout must not exceed '' @ dur_String MaxTimeout @ '', got '' @ dur_String d"
| "cfg_error_text print (InvalidProtocol p) =
     ''invalid warmup-protocol value '' @ Quote print p @ '': must be '' @ Quote print ProtocolHTTP @
     '' or '' @ Quote print ProtocolGRPC"
| "cfg_error_text print (InvalidGRPCMethod m) =
     ''invalid '' @ AnnotationWarmupGRPCMethod @ '' value: '' @ invalid_method_text print m"
| "cfg_error_text print InvalidGRPCPayload =
     ''invalid '' @ AnnotationWarmupGRPCPayload @ '' value: not valid JSON''"
| "cfg_error_text print GRPCMethodRequired =
     ''annotation '' @ AnnotationWarmupGRPCMethod @ '' is required when '' @ AnnotationWarmupProtocol @
     '' is '' @ Quote print ProtocolGRPC"
| "cfg_error_text print (InvalidPort s e) =
     ''invalid warmup-port value '' @ Quote print s @ '': '' @ num_error_text print s e"
| "cfg_error_text print (PortOutOfRange p) =
     ''warmup-port must be between 1 and 65535, got '' @ Itoa p"
| "cfg_error_text print (MultiplePorts name) =
     ''container '' @ Quote print name @ '' has multiple ports, please specify warmup port using annotation '' @
     AnnotationWarmupPort"
| "cfg_error_text print MultipleContainers =
     ''pod has multiple containers, please specify warmup port using annotation '' @ AnnotationWarmupPort"
| "cfg_error_text print NoPortFound =
     ''cannot determine warmup port: no container ports found, please specify using annotation '' @
     AnnotationWarmupPort"

end
