(* ===== verification/Metrics.thy ===== *)
theory Metrics
  imports Go_Time
begin

text \<open>
  The metrics of the program (pkg/metrics/metrics.go). The Prometheus client is a library: what the
  program does is the sequence of calls it makes on its five collectors, and that sequence is what the
  model keeps. Readings of a collector are functions of the calls so far. Adding a negative number to a
  counter panics, which is documented behaviour of the client.
\<close>

section \<open>Collectors and calls\<close>

datatype collector =
  WarmupTotal | WarmupRequestsTotal | WarmupDurationSeconds | WarmupActivePods | WarmupQueueWaitSeconds

datatype metric_call =
    CounterAdd collector "string list" int
  | Observe collector "string list" rat
  | GaugeAdd collector "string list" int
  | GaugeSet collector "string list" int

fun collector_Name :: "collector \<Rightarrow> string" where
  "collector_Name WarmupTotal = ''kube_booster_warmup_total''"
| "collector_Name WarmupRequestsTotal = ''kube_booster_warmup_requests_total''"
| "collector_Name WarmupDurationSeconds = ''kube_booster_warmup_duration_seconds''"
| "collector_Name WarmupActivePods = ''kube_booster_warmup_active_pods''"
| "collector_Name WarmupQueueWaitSeconds = ''kube_booster_warmup_queue_wait_seconds''"

fun collector_labels :: "collector \<Rightarrow> string list" where
  "collector_labels WarmupTotal = [''namespace'', ''result'']"
| "collector_labels WarmupRequestsTotal = [''namespace'']"
| "collector_labels WarmupDurationSeconds = [''namespace'']"
| "collector_labels WarmupActivePods = [''namespace'', ''node'']"
| "collector_labels WarmupQueueWaitSeconds = [''namespace'']"

fun collector_Buckets :: "collector \<Rightarrow> rat list" where
  "collector_Buckets WarmupDurationSeconds = [1/2, 1, 5/2, 5, 10, 15, 30, 45, 60, 90, 120]"
| "collector_Buckets WarmupQueueWaitSeconds = [1/2, 1, 5/2, 5, 10, 20, 30, 60, 120, 300]"
| "collector_Buckets _ = []"

datatype collector_kind = CounterVec | HistogramVec | GaugeVec

fun kind_of_collector :: "collector \<Rightarrow> collector_kind" where
  "kind_of_collector WarmupTotal = CounterVec"
| "kind_of_collector WarmupRequestsTotal = CounterVec"
| "kind_of_collector WarmupDurationSeconds = HistogramVec"
| "kind_of_collector WarmupActivePods = GaugeVec"
| "kind_of_collector WarmupQueueWaitSeconds = HistogramVec"

definition registered_collectors :: "collector list" where
  "registered_collectors =
     [WarmupTotal, WarmupRequestsTotal, WarmupDurationSeconds, WarmupActivePods, WarmupQueueWaitSeconds]"

text \<open>\<^verbatim>\<open>d.Seconds()\<close>: the division truncates, so that a negative duration has the mirrored value.\<close>

definition dur_Seconds :: "duration \<Rightarrow> rat" where
  "dur_Seconds d =
     (let m = \<bar>d\<bar>; s = rnd64 (rnd64 (of_int (m div Second)) + rnd64 (of_int (m mod Second) / of_int Second))
      in if d < 0 then - s else s)"

section \<open>Operations\<close>

definition RecordWarmupResult :: "string \<Rightarrow> bool \<Rightarrow> rat \<Rightarrow> metric_call list" where
  "RecordWarmupResult namespace success durationSeconds =
     (let result = (if success then ''success'' else ''failure'')
      in [CounterAdd WarmupTotal [namespace, result] 1,
          Observe WarmupDurationSeconds [namespace] durationSeconds])"

definition RecordWarmupRequests :: "string \<Rightarrow> int \<Rightarrow> metric_call list" where
  "RecordWarmupRequests namespace n = [CounterAdd WarmupRequestsTotal [namespace] n]"

definition IncrementWarmupActivePods :: "string \<Rightarrow> string \<Rightarrow> metric_call list" where
  "IncrementWarmupActivePods namespace node = [GaugeAdd WarmupActivePods [namespace, node] 1]"

definition DecrementWarmupActivePods :: "string \<Rightarrow> string \<Rightarrow> metric_call list" where
  "DecrementWarmupActivePods namespace node = [GaugeAdd WarmupActivePods [namespace, node] (- 1)]"

definition SetWarmupActivePods :: "string \<Rightarrow> string \<Rightarrow> int \<Rightarrow> metric_call list" where
  "SetWarmupActivePods namespace node n = [GaugeSet WarmupActivePods [namespace, node] n]"

definition RecordWarmupQueueWait :: "string \<Rightarrow> rat \<Rightarrow> metric_call list" where
  "RecordWarmupQueueWait namespace seconds = [Observe WarmupQueueWaitSeconds [namespace] seconds]"

section \<open>Readings\<close>

fun call_panics :: "metric_call \<Rightarrow> bool" where
  "call_panics (CounterAdd c ls v) = (v < 0)"
| "call_panics _ = False"

fun gauge_after :: "collector \<Rightarrow> string list \<Rightarrow> metric_call list \<Rightarrow> int \<Rightarrow> int" where
  "gauge_after c ls [] g = g"
| "gauge_after c ls (GaugeAdd c' ls' v # ms) g =
     gauge_after c ls ms (if c' = c \<and> ls' = ls then g + v else g)"
| "gauge_after c ls (GaugeSet c' ls' v # ms) g = gauge_after c ls ms (if c' = c \<and> ls' = ls then v else g)"
| "gauge_after c ls (_ # ms) g = gauge_after c ls ms g"

fun counter_delta :: "collector \<Rightarrow> string list \<Rightarrow> metric_call list \<Rightarrow> int" where
  "counter_delta c ls [] = 0"
| "counter_delta c ls (CounterAdd c' ls' v # ms) =
     (if c' = c \<and> ls' = ls then v else 0) + counter_delta c ls ms"
| "counter_delta c ls (_ # ms) = counter_delta c ls ms"

definition call_collector :: "metric_call \<Rightarrow> collector" where
  "call_collector m = (case m of CounterAdd c _ _ \<Rightarrow> c | Observe c _ _ \<Rightarrow> c | GaugeAdd c _ _ \<Rightarrow> c
     | GaugeSet c _ _ \<Rightarrow> c)"

text \<open>
  A call that the client accepts: the collector is registered and of the kind the call is for, and there is one
  value per label of the collector (\<^verbatim>\<open>WithLabelValues\<close> panics otherwise).
\<close>

fun call_typed :: "metric_call \<Rightarrow> bool" where
  "call_typed (CounterAdd c ls v) \<longleftrightarrow> c \<in> set registered_collectors \<and>
     kind_of_collector c = CounterVec \<and> length ls = length (collector_labels c)"
| "call_typed (Observe c ls v) \<longleftrightarrow> c \<in> set registered_collectors \<and>
     kind_of_collector c = HistogramVec \<and> length ls = length (collector_labels c)"
| "call_typed (GaugeAdd c ls v) \<longleftrightarrow> c \<in> set registered_collectors \<and>
     kind_of_collector c = GaugeVec \<and> length ls = length (collector_labels c)"
| "call_typed (GaugeSet c ls v) \<longleftrightarrow> c \<in> set registered_collectors \<and>
     kind_of_collector c = GaugeVec \<and> length ls = length (collector_labels c)"

section \<open>Lemmas\<close>

lemmas metric_defs = RecordWarmupResult_def RecordWarmupRequests_def IncrementWarmupActivePods_def
  DecrementWarmupActivePods_def SetWarmupActivePods_def RecordWarmupQueueWait_def

lemma gauge_after_append [simp]: "gauge_after c ls (a @ b) g = gauge_after c ls b (gauge_after c ls a g)"
  by (induction c ls a g rule: gauge_after.induct) auto

lemma counter_delta_append [simp]: "counter_delta c ls (a @ b) = counter_delta c ls a + counter_delta c ls b"
  by (induction c ls a rule: counter_delta.induct) auto

text \<open>Histograms need strictly increasing bounds: otherwise the client panics when they are created.\<close>

lemma buckets_increasing: "sorted_wrt (<) (collector_Buckets c)"
  by (cases c) simp_all

lemma calls_typed [simp]:
  "list_all call_typed (RecordWarmupResult ns s d)" "list_all call_typed (RecordWarmupRequests ns n)"
  "list_all call_typed (IncrementWarmupActivePods ns node)"
  "list_all call_typed (DecrementWarmupActivePods ns node)"
  "list_all call_typed (SetWarmupActivePods ns node v)" "list_all call_typed (RecordWarmupQueueWait ns q)"
  by (simp_all add: metric_defs registered_collectors_def Let_def)

lemma collector_names_distinct: "distinct (map collector_Name registered_collectors)"
  by (simp add: registered_collectors_def)

end
