(* ===== verification/Controller.thy ===== *)
theory Controller
  imports Scenario_Executor Config_Error Metrics
begin

text \<open>
  The pod controller (pkg/controller/pod_controller.go, pkg/controller/predicates.go). The Kubernetes
  client and the weighted semaphore are operations of the record \<open>kube\<close>. Reconcile returns its outcome
  together with the sequence of its effects: the events it emits, its calls on the metrics, the slots of
  the semaphore it takes and gives back, and the status updates it asks for. \<open>None\<close> is a reconcile
  that does not end (an executor that exhausts the stack).
\<close>

section \<open>The environment\<close>

record api_error =
  ae_NotFound :: bool
  ae_Error :: go_error

record 'w kube = "'w grpc_net" +
  k_get_pod :: "go_ctx \<Rightarrow> string \<Rightarrow> string \<Rightarrow> 'w \<Rightarrow> (api_error + pod) \<times> 'w"
  k_get_config :: "go_ctx \<Rightarrow> string \<Rightarrow> string \<Rightarrow> 'w \<Rightarrow> (api_error + WarmupConfig) \<times> 'w"
  k_update_status :: "go_ctx \<Rightarrow> pod \<Rightarrow> 'w \<Rightarrow> go_error option \<times> 'w"
  k_acquire :: "go_ctx \<Rightarrow> 'w \<Rightarrow> go_error option \<times> 'w"

datatype effect =
    Event string string string string
  | Metric metric_call
  | SemAcquired
  | SemReleased
  | StatusUpdate pod bool

datatype outcome = Return duration "go_error option" | Panic

section \<open>Predicates\<close>

text \<open>An object of an event: a pod or something else.\<close>

datatype k8s_object = PodObject pod | OtherObject

datatype watch_event =
  CreateEvent k8s_object | UpdateEvent k8s_object k8s_object | DeleteEvent k8s_object | GenericEvent k8s_object

definition hasReadinessGate :: "k8s_object \<Rightarrow> bool" where
  "hasReadinessGate obj =
     (case obj of
        OtherObject \<Rightarrow> False
      | PodObject p \<Rightarrow> list_ex (\<lambda>gate. gate = ReadinessGateName) (pod_ReadinessGates p))"

fun HasReadinessGatePredicate :: "watch_event \<Rightarrow> bool" where
  "HasReadinessGatePredicate (CreateEvent obj) = hasReadinessGate obj"
| "HasReadinessGatePredicate (UpdateEvent old new) = hasReadinessGate new"
| "HasReadinessGatePredicate (DeleteEvent obj) = False"
| "HasReadinessGatePredicate (GenericEvent obj) = hasReadinessGate obj"

section \<open>Conditions\<close>

definition isConditionTrue :: "pod \<Rightarrow> string \<Rightarrow> bool" where
  "isConditionTrue p conditionType =
     (case find (\<lambda>c. cond_Type c = conditionType) (pod_Conditions p) of
        None \<Rightarrow> False
      | Some c \<Rightarrow> cond_Status c = ''True'')"

definition areContainersReady :: "pod \<Rightarrow> bool" where
  "areContainersReady p \<longleftrightarrow>
     list_all cs_Ready (pod_ContainerStatuses p) \<and> length (pod_ContainerStatuses p) > 0"

definition reason_message :: "result option \<Rightarrow> string \<times> string" where
  "reason_message res =
     (case res of
        None \<Rightarrow> (''WarmupComplete'', ''Warmup readiness check passed'')
      | Some r \<Rightarrow>
          if res_Success r then (''WarmupComplete'', res_Message r)
          else (''WarmupFailedOpen'',
                ''Warmup failed but pod marked ready (fail-open): '' @ res_Message r))"

text \<open>The loop over the conditions: \<open>None\<close> when none of them has the type.\<close>

fun update_condition ::
  "instant \<Rightarrow> string \<Rightarrow> string \<Rightarrow> pod_condition list \<Rightarrow> pod_condition list option" where
  "update_condition now reason message [] = None"
| "update_condition now reason message (c # cs) =
     (if cond_Type c = ConditionTypeWarmupReady
      then Some (c\<lparr>cond_Status := ''True'', cond_LastTransitionTime := now, cond_Reason := reason,
                   cond_Message := message\<rparr> # cs)
      else map_option (Cons c) (update_condition now reason message cs))"

definition condition_set :: "instant \<Rightarrow> result option \<Rightarrow> pod \<Rightarrow> pod" where
  "condition_set now res p =
     (let (reason, message) = reason_message res
      in p\<lparr>pod_Conditions :=
             (case update_condition now reason message (pod_Conditions p) of
                Some cs \<Rightarrow> cs
              | None \<Rightarrow>
                  pod_Conditions p @
                    [\<lparr>cond_Type = ConditionTypeWarmupReady, cond_Status = ''True'',
                      cond_LastTransitionTime = now, cond_Reason = reason, cond_Message = message\<rparr>])\<rparr>)"

definition setConditionTrue ::
  "('w, 'x) kube_scheme \<Rightarrow> go_ctx \<Rightarrow> pod \<Rightarrow> result option \<Rightarrow> 'w \<Rightarrow>
     go_error option \<times> effect list \<times> 'w" where
  "setConditionTrue E ctx p res w =
     (let (now, w) = net_now E w;
          podCopy = condition_set now res p;
          (err, w) = k_update_status E ctx podCopy w
      in (err, [StatusUpdate podCopy (err = None)], w))"

section \<open>PodReconciler\<close>

definition ReasonWarmupQueued :: string where [go_const]: "ReasonWarmupQueued = ''WarmupQueued''"
definition ReasonWarmupStarted :: string where [go_const]: "ReasonWarmupStarted = ''WarmupStarted''"
definition ReasonWarmupCompleted :: string where [go_const]: "ReasonWarmupCompleted = ''WarmupCompleted''"
definition ReasonWarmupFailed :: string where [go_const]: "ReasonWarmupFailed = ''WarmupFailed''"
definition ReasonConditionUpdated :: string where [go_const]:
  "ReasonConditionUpdated = ''ConditionUpdated''"

record 'w reconciler =
  rc_WarmupExecutor :: "(go_ctx \<Rightarrow> config \<Rightarrow> 'w \<Rightarrow> (result \<times> 'w) option) option"
  rc_ScenarioExecutor :: "(go_ctx \<Rightarrow> config \<Rightarrow> WarmupConfigSpec \<Rightarrow> 'w \<Rightarrow> (result \<times> 'w) option) option"
  rc_WarmupSemaphore :: bool

text \<open>The events about the condition, after an update that succeeded.\<close>

definition condition_event :: "bool \<Rightarrow> effect" where
  "condition_event success =
     (if success
      then Event ''Normal'' ReasonConditionUpdated ''UpdateCondition''
             (''Pod condition '' @ ConditionTypeWarmupReady @ '' set to True'')
      else Event ''Warning'' ReasonConditionUpdated ''UpdateCondition''
             (''Pod condition '' @ ConditionTypeWarmupReady @ '' set to True (fail-open)''))"

text \<open>Choosing and running the executor: the result, whether metrics are recorded, and the effects.\<close>

definition run_executor ::
  "('w, 'x) kube_scheme \<Rightarrow> 'w reconciler \<Rightarrow> go_ctx \<Rightarrow> pod \<Rightarrow> config \<Rightarrow> 'w \<Rightarrow>
     (result \<times> bool \<times> effect list \<times> 'w) option" where
  "run_executor E rc warmupCtx p c w =
     (case (cfg_WarmupConfigName c \<noteq> [], rc_ScenarioExecutor rc, rc_WarmupExecutor rc) of
        (True, Some executeScenario, _) \<Rightarrow>
          (case k_get_config E warmupCtx (pod_Namespace p) (cfg_WarmupConfigName c) w of
             (Inl err, w) \<Rightarrow>
               let name = Quote (net_print E) (cfg_WarmupConfigName c)
               in Some (zero_result\<lparr>res_Error := Some (ae_Error err),
                          res_Message := ''WarmupConfig '' @ name @ '' not found''\<rparr>, True,
                        [Event ''Warning'' ReasonWarmupFailed ''LookupWarmupConfig''
                           (''WarmupConfig '' @ name @ '' not found: '' @ err_text (ae_Error err))], w)
           | (Inr warmupCfg, w) \<Rightarrow>
               map_option (\<lambda>(r, w). (r, True, [], w)) (executeScenario warmupCtx c (wc_Spec warmupCfg) w))
      | (_, _, Some execute) \<Rightarrow> map_option (\<lambda>(r, w). (r, True, [], w)) (execute warmupCtx c w)
      | (_, _, None) \<Rightarrow>
          Some (zero_result\<lparr>res_Success := True,
                  res_Message := ''warmup skipped: no executor configured''\<rparr>, False, [], w))"

text \<open>What follows the executor: metrics, the event about the result, the condition.\<close>

definition result_metrics :: "pod \<Rightarrow> result \<Rightarrow> metric_call list" where
  "result_metrics p r =
     RecordWarmupResult (pod_Namespace p) (res_Success r) (dur_Seconds (res_TotalDuration r)) @
     RecordWarmupRequests (pod_Namespace p) (wrap64 (res_RequestsCompleted r + res_RequestsFailed r))"

definition result_event :: "result \<Rightarrow> effect" where
  "result_event r =
     (if res_Success r
      then Event ''Normal'' ReasonWarmupCompleted ''CompleteWarmup'' (res_Message r)
      else Event ''Warning'' ReasonWarmupFailed ''FailWarmup'' (''Warmup failed: '' @ res_Message r))"

definition finish_warmup ::
  "('w, 'x) kube_scheme \<Rightarrow> go_ctx \<Rightarrow> pod \<Rightarrow> result \<Rightarrow> bool \<Rightarrow> 'w \<Rightarrow> outcome \<times> effect list \<times> 'w" where
  "finish_warmup E ctx p r recordMetrics w =
     (let ms = (if recordMetrics then result_metrics p r else [])
      in if list_ex call_panics ms
         then (Panic, map Metric (takeWhile (\<lambda>m. \<not> call_panics m) ms), w)
         else let (err, up, w) = setConditionTrue E ctx p (Some r) w;
                  effs = map Metric ms @ [result_event r] @ up
              in case err of
                   Some err \<Rightarrow> (Return 0 (Some err), effs, w)
                 | None \<Rightarrow> (Return 0 None, effs @ [condition_event (res_Success r)], w))"

text \<open>The reconcile from the parse of the configuration on.\<close>

definition warmup_body ::
  "('w, 'x) kube_scheme \<Rightarrow> 'w reconciler \<Rightarrow> go_ctx \<Rightarrow> pod \<Rightarrow> 'w \<Rightarrow> (outcome \<times> effect list \<times> 'w) option" where
  "warmup_body E rc ctx p w =
     (case ParseConfig (Some p) of
        (_, Some err) \<Rightarrow>
          (let text = cfg_error_text (net_print E) err;
               ev = Event ''Warning'' ReasonWarmupFailed ''FailWarmup'' (''Warmup config error: '' @ text);
               r = zero_result\<lparr>res_Message := ''warmup config error: '' @ text,
                     res_Error := Some (ErrText text)\<rparr>;
               (setErr, up, w) = setConditionTrue E ctx p (Some r) w
           in case setErr of
                Some e \<Rightarrow> Some (Return 0 (Some e), ev # up, w)
              | None \<Rightarrow> Some (Return 0 None, ev # up @ [condition_event False], w))
      | (c, None) \<Rightarrow>
          (let c = c\<lparr>cfg_PodIP := pod_PodIP p, cfg_PodName := pod_Name p,
                     cfg_PodNamespace := pod_Namespace p\<rparr>;
               contextTimeout = cfg_Timeout c + 5 * Second;
               (t, w) = net_now E w;
               warmupCtx = WithTimeout ctx t contextTimeout
           in case run_executor E rc warmupCtx p c w of
                None \<Rightarrow> None
              | Some (r, recordMetrics, effs, w) \<Rightarrow>
                  (case finish_warmup E ctx p r recordMetrics w of
                     (out, effs', w) \<Rightarrow> Some (out, effs @ effs', w))))"

text \<open>From the start event to the deferred decrement of the gauge, which also runs on a panic.\<close>

definition run_warmup_pod ::
  "('w, 'x) kube_scheme \<Rightarrow> 'w reconciler \<Rightarrow> go_ctx \<Rightarrow> pod \<Rightarrow> 'w \<Rightarrow> (outcome \<times> effect list \<times> 'w) option" where
  "run_warmup_pod E rc ctx p w =
     (case warmup_body E rc ctx p w of
        None \<Rightarrow> None
      | Some (out, effs, w) \<Rightarrow>
          Some (out,
            [Event ''Normal'' ReasonWarmupStarted ''StartWarmup'' ''Starting warmup execution''] @
            map Metric (IncrementWarmupActivePods (pod_Namespace p) (pod_NodeName p)) @ effs @
            map Metric (DecrementWarmupActivePods (pod_Namespace p) (pod_NodeName p)), w))"

definition with_semaphore ::
  "('w, 'x) kube_scheme \<Rightarrow> 'w reconciler \<Rightarrow> go_ctx \<Rightarrow> pod \<Rightarrow> 'w \<Rightarrow> (outcome \<times> effect list \<times> 'w) option" where
  "with_semaphore E rc ctx p w =
     (if \<not> rc_WarmupSemaphore rc then run_warmup_pod E rc ctx p w
      else let queued = Event ''Normal'' ReasonWarmupQueued ''QueueWarmup''
                          ''Pod queued for warmup execution (waiting for concurrency slot)'';
               (waitStart, w) = net_now E w;
               (err, w) = k_acquire E ctx w;
               (t, w) = net_now E w;
               wait = map Metric (RecordWarmupQueueWait (pod_Namespace p) (dur_Seconds (t - waitStart)))
           in case err of
                Some _ \<Rightarrow> Some (Return (5 * Second) None, queued # wait, w)
              | None \<Rightarrow>
                  (case run_warmup_pod E rc ctx p w of
                     None \<Rightarrow> None
                   | Some (out, effs, w) \<Rightarrow>
                       Some (out, [queued, SemAcquired] @ wait @ effs @ [SemReleased], w)))"

definition Reconcile ::
  "('w, 'x) kube_scheme \<Rightarrow> 'w reconciler \<Rightarrow> go_ctx \<Rightarrow> string \<Rightarrow> string \<Rightarrow> 'w \<Rightarrow>
     (outcome \<times> effect list \<times> 'w) option" where
  "Reconcile E rc ctx namespace name w =
     (case k_get_pod E ctx namespace name w of
        (Inl err, w) \<Rightarrow>
          if ae_NotFound err then Some (Return 0 None, [], w)
          else Some (Return 0 (Some (ae_Error err)), [], w)
      | (Inr p, w) \<Rightarrow>
          if \<not> list_ex (\<lambda>gate. gate = ReadinessGateName) (pod_ReadinessGates p)
          then Some (Return 0 None, [], w)
          else if isConditionTrue p ConditionTypeWarmupReady then Some (Return 0 None, [], w)
          else if pod_Phase p \<noteq> ''Running'' then Some (Return (5 * Second) None, [], w)
          else if \<not> areContainersReady p then Some (Return (5 * Second) None, [], w)
          else if \<not> isConditionTrue p ''ContainersReady'' then Some (Return (5 * Second) None, [], w)
          else with_semaphore E rc ctx p w)"

section \<open>The contract of the conditions\<close>

text \<open>
  Reconcile decides by conditions and writes one: what it relies on is that the one it sets is true
  afterwards and that it changes no other.
\<close>

locale condition_store =
  fixes is_true :: "'p \<Rightarrow> string \<Rightarrow> bool" and set_true :: "'p \<Rightarrow> 'p" and ty :: string
  assumes set_same: "is_true (set_true p) ty"
    and set_other: "t \<noteq> ty \<Longrightarrow> is_true (set_true p) t = is_true p t"
begin

lemma set_mono: "is_true p t \<Longrightarrow> is_true (set_true p) t"
  using set_same set_other by (cases "t = ty") auto

lemma set_set: "is_true (set_true (set_true p)) t = is_true (set_true p) t"
  using set_same set_other by (cases "t = ty") auto

end

lemma find_update_condition:
  "update_condition now rs m cs = Some cs' \<Longrightarrow>
     find (\<lambda>c. cond_Type c = t) cs' =
       (if t = ConditionTypeWarmupReady
        then map_option (\<lambda>c. c\<lparr>cond_Status := ''True'', cond_LastTransitionTime := now,
               cond_Reason := rs, cond_Message := m\<rparr>) (find (\<lambda>c. cond_Type c = t) cs)
        else find (\<lambda>c. cond_Type c = t) cs)"
  by (induction cs arbitrary: cs') (auto split: if_splits)

lemma update_condition_None:
  "update_condition now rs m cs = None \<longleftrightarrow> find (\<lambda>c. cond_Type c = ConditionTypeWarmupReady) cs = None"
  by (induction cs) auto

lemma update_condition_types:
  "update_condition now rs m cs = Some cs' \<Longrightarrow> map cond_Type cs' = map cond_Type cs"
  by (induction cs arbitrary: cs') (auto split: if_splits)

lemma find_condition_set:
  "find (\<lambda>c. cond_Type c = t) (pod_Conditions (condition_set now res p)) =
     (if t = ConditionTypeWarmupReady
      then Some ((case find (\<lambda>c. cond_Type c = t) (pod_Conditions p) of
             None \<Rightarrow> \<lparr>cond_Type = t, cond_Status = ''True'', cond_LastTransitionTime = now,
                       cond_Reason = fst (reason_message res), cond_Message = snd (reason_message res)\<rparr>
           | Some c \<Rightarrow> c\<lparr>cond_Status := ''True'', cond_LastTransitionTime := now,
                 cond_Reason := fst (reason_message res), cond_Message := snd (reason_message res)\<rparr>))
      else find (\<lambda>c. cond_Type c = t) (pod_Conditions p))"
proof -
  obtain rs m where rm: "reason_message res = (rs, m)" by fastforce
  show ?thesis
  proof (cases "update_condition now rs m (pod_Conditions p)")
    case None
    then show ?thesis
      using update_condition_None [of now rs m "pod_Conditions p"]
      by (auto simp: condition_set_def rm find_append split: option.splits)
  next
    case (Some cs)
    with update_condition_None [of now rs m "pod_Conditions p"] find_update_condition [OF Some, of t]
    show ?thesis by (auto simp: condition_set_def rm)
  qed
qed

interpretation conds: condition_store isConditionTrue "condition_set now res" ConditionTypeWarmupReady
  for now res
  by unfold_locales
    (auto simp: isConditionTrue_def find_condition_set split: option.splits)

lemma condition_set_more: "condition_set now res p = p\<lparr>pod_Conditions := pod_Conditions (condition_set now res p)\<rparr>"
  by (simp add: condition_set_def split: prod.splits)

lemma condition_set_types:
  "map cond_Type (pod_Conditions (condition_set now res p)) =
     map cond_Type (pod_Conditions p) @
     (if ConditionTypeWarmupReady \<in> cond_Type ` set (pod_Conditions p) then []
      else [ConditionTypeWarmupReady])"
proof -
  obtain rs m where rm: "reason_message res = (rs, m)" by fastforce
  have n: "update_condition now rs m (pod_Conditions p) = None \<longleftrightarrow>
      ConditionTypeWarmupReady \<notin> cond_Type ` set (pod_Conditions p)"
    by (auto simp: update_condition_None find_None_iff image_iff)
  show ?thesis
    by (cases "update_condition now rs m (pod_Conditions p)")
      (use n in \<open>auto simp: condition_set_def rm dest: update_condition_types\<close>)
qed

section \<open>The contract of an executor\<close>

text \<open>
  What Reconcile relies on in an executor: for the configurations it is given, a result has counts
  that are not negative and whose sum an \<^verbatim>\<open>int\<close> can hold; then recording it cannot panic.
\<close>

locale executor =
  fixes execute :: "go_ctx \<Rightarrow> config \<Rightarrow> 'w \<Rightarrow> (result \<times> 'w) option" and ok :: "config \<Rightarrow> bool"
  assumes counts: "ok c \<Longrightarrow> execute ctx c w = Some (r, w') \<Longrightarrow>
    0 \<le> res_RequestsCompleted r \<and> 0 \<le> res_RequestsFailed r \<and>
    res_RequestsCompleted r + res_RequestsFailed r \<le> max_int64"
begin

lemma metrics_ok:
  "ok c \<Longrightarrow> execute ctx c w = Some (r, w') \<Longrightarrow> \<not> list_ex call_panics (result_metrics p r)"
  using counts [of c ctx w r w']
  by (simp add: result_metrics_def metric_defs Let_def in_int64_def)

end

interpretation simple: executor "Execute E e" "\<lambda>c. 0 \<le> cfg_RequestCount c \<and> cfg_RequestCount c \<le> max_int64"
  for E e
  by unfold_locales (use Execute_counts in \<open>fastforce\<close>)

lemma ExecuteScenario_counts_all:
  assumes "ExecuteScenario E e ctx c spec w = Some (r, w')" and "scenario_total (spec_Steps spec) \<le> max_int64"
  shows "0 \<le> res_RequestsCompleted r \<and> 0 \<le> res_RequestsFailed r \<and>
    res_RequestsCompleted r + res_RequestsFailed r \<le> max_int64"
proof (cases "cfg_PodIP c = []")
  case True
  with assms(1) show ?thesis by (auto simp: ExecuteScenario_def zero_result_def)
next
  case False
  from ExecuteScenario_counts [OF assms(1) False assms(2)] assms(2) show ?thesis by linarith
qed

interpretation scenario: executor "\<lambda>ctx c. ExecuteScenario E e ctx c spec"
    "\<lambda>c. scenario_total (spec_Steps spec) \<le> max_int64"
  for E e spec
  by unfold_locales (rule ExecuteScenario_counts_all)

text \<open>An executor that also returns. Both do, when the reflection data of a server can be registered.\<close>

locale total_executor = executor +
  assumes returns: "ok c \<Longrightarrow> \<exists>r w'. execute ctx c w = Some (r, w')"
begin

lemma returns_recordable:
  assumes "ok c"
  obtains r w' where "execute ctx c w = Some (r, w')" and "\<And>p. \<not> list_ex call_panics (result_metrics p r)"
  using returns [OF assms] metrics_ok [OF assms] by blast

end

interpretation simple_total: total_executor "Execute E e"
    "\<lambda>c. (0 \<le> cfg_RequestCount c \<and> cfg_RequestCount c \<le> max_int64) \<and> (\<forall>bs. buildFileSet E bs \<noteq> None)"
  for E e
proof
  show "\<exists>r w'. Execute E e ctx c w = Some (r, w')"
    if "(0 \<le> cfg_RequestCount c \<and> cfg_RequestCount c \<le> max_int64) \<and> (\<forall>bs. buildFileSet E bs \<noteq> None)" for c ctx w
    by (rule Execute_ends) (use that in auto)
qed (rule simple.counts, erule conjunct1)

interpretation scenario_total_executor: total_executor "\<lambda>ctx c. ExecuteScenario E e ctx c spec"
    "\<lambda>c. scenario_total (spec_Steps spec) \<le> max_int64 \<and> (\<forall>bs. buildFileSet E bs \<noteq> None)"
  for E e spec
proof
  show "\<exists>r w'. ExecuteScenario E e ctx c spec w = Some (r, w')"
    if "scenario_total (spec_Steps spec) \<le> max_int64 \<and> (\<forall>bs. buildFileSet E bs \<noteq> None)" for c :: config and ctx w
    by (rule ExecuteScenario_ends) (use that in blast)
qed (rule scenario.counts, erule conjunct1)

section \<open>Reading a sequence of effects\<close>

fun status_updates :: "effect list \<Rightarrow> (pod \<times> bool) list" where
  "status_updates [] = []"
| "status_updates (StatusUpdate p b # es) = (p, b) # status_updates es"
| "status_updates (_ # es) = status_updates es"

fun metric_calls :: "effect list \<Rightarrow> metric_call list" where
  "metric_calls [] = []"
| "metric_calls (Metric m # es) = m # metric_calls es"
| "metric_calls (_ # es) = metric_calls es"

fun reasons :: "effect list \<Rightarrow> string list" where
  "reasons [] = []"
| "reasons (Event ty reason action note # es) = reason # reasons es"
| "reasons (_ # es) = reasons es"

text \<open>The slots of the semaphore that a sequence of effects leaves taken.\<close>

fun slots :: "effect list \<Rightarrow> int" where
  "slots [] = 0"
| "slots (SemAcquired # es) = 1 + slots es"
| "slots (SemReleased # es) = slots es - 1"
| "slots (_ # es) = slots es"

lemma status_updates_append [simp]: "status_updates (a @ b) = status_updates a @ status_updates b"
  by (induction a rule: status_updates.induct) auto

lemma metric_calls_append [simp]: "metric_calls (a @ b) = metric_calls a @ metric_calls b"
  by (induction a rule: metric_calls.induct) auto

lemma reasons_append [simp]: "reasons (a @ b) = reasons a @ reasons b"
  by (induction a rule: reasons.induct) auto

lemma slots_append [simp]: "slots (a @ b) = slots a + slots b"
  by (induction a rule: slots.induct) auto

lemma readings_Metric [simp]:
  "status_updates (map Metric ms) = []" "metric_calls (map Metric ms) = ms" "reasons (map Metric ms) = []"
  "slots (map Metric ms) = 0"
  by (induction ms) auto

lemma readings_event [simp]:
  "status_updates [condition_event b] = []" "metric_calls [condition_event b] = []"
  "slots [condition_event b] = 0" "reasons [condition_event b] = [ReasonConditionUpdated]"
  "status_updates (result_event r # es) = status_updates es"
  "metric_calls (result_event r # es) = metric_calls es" "slots (result_event r # es) = slots es"
  "reasons (result_event r # es) =
     (if res_Success r then ReasonWarmupCompleted else ReasonWarmupFailed) # reasons es"
  by (simp_all add: condition_event_def result_event_def)

section \<open>The parts of a reconcile\<close>

text \<open>A pod that is due: everything Reconcile checks before it starts a warmup.\<close>

definition due :: "pod \<Rightarrow> bool" where
  "due p \<longleftrightarrow> gate_present p \<and> \<not> isConditionTrue p ConditionTypeWarmupReady \<and> pod_Phase p = ''Running'' \<and>
     areContainersReady p \<and> isConditionTrue p ''ContainersReady''"

text \<open>
  What the end of a reconcile does: either it panics while it records metrics, or it asks for exactly one
  status update, which sets the condition to true, and says in its outcome whether it succeeded.
\<close>

definition marks_ready :: "pod \<Rightarrow> outcome \<Rightarrow> effect list \<Rightarrow> bool" where
  "marks_ready p out effs \<longleftrightarrow>
     (if out = Panic then status_updates effs = []
      else \<exists>now r ok. status_updates effs = [(condition_set now (Some r) p, ok)] \<and>
        (if ok then out = Return 0 None else \<exists>e. out = Return 0 (Some e)))"

text \<open>The reasons of the events from the parse of the configuration on.\<close>

definition body_events :: "outcome \<Rightarrow> effect list \<Rightarrow> bool" where
  "body_events out effs \<longleftrightarrow>
     (\<exists>mid \<in> {[ReasonWarmupCompleted], [ReasonWarmupFailed], [ReasonWarmupFailed, ReasonWarmupFailed]}.
        prefix (reasons effs) (mid @ [ReasonConditionUpdated])) \<and>
     (ReasonConditionUpdated \<in> set (reasons effs) \<longleftrightarrow> out = Return 0 None)"

text \<open>The effects between the start event and the deferred calls: no gauge, no slot of the semaphore.\<close>

definition quiet :: "effect list \<Rightarrow> bool" where
  "quiet effs \<longleftrightarrow> slots effs = 0 \<and> SemAcquired \<notin> set effs \<and>
     (\<forall>m \<in> set (metric_calls effs). call_collector m \<noteq> WarmupActivePods)"

lemma marks_readyI:
  "status_updates effs = [(condition_set now (Some r) p, b)] \<Longrightarrow>
     (if b then out = Return 0 None else \<exists>e. out = Return 0 (Some e)) \<Longrightarrow> marks_ready p out effs"
  by (auto simp: marks_ready_def split: if_splits)

lemma events_not_acquired [simp]:
  "SemAcquired \<noteq> result_event r" "SemAcquired \<noteq> condition_event b"
  by (simp_all add: result_event_def condition_event_def)

lemma setConditionTrue_effects:
  assumes "setConditionTrue E ctx p res w = (err, up, w')"
  shows "\<exists>now. up = [StatusUpdate (condition_set now res p) (err = None)]"
  using assms by (auto simp: setConditionTrue_def Let_def split: prod.splits)

lemma result_metrics_calls:
  "m \<in> set (result_metrics p r) \<Longrightarrow> call_collector m \<noteq> WarmupActivePods"
  by (auto simp: result_metrics_def metric_defs call_collector_def Let_def)

lemma quiet_append [simp]: "quiet a \<Longrightarrow> quiet b \<Longrightarrow> quiet (a @ b)"
  by (auto simp: quiet_def)

lemma finish_warmup_effects:
  assumes "finish_warmup E ctx p r rec w = (out, effs, w')"
  shows "marks_ready p out effs \<and> quiet effs"
proof -
  let ?ms = "if rec then result_metrics p r else []"
  show ?thesis
  proof (cases "list_ex call_panics ?ms")
    case True
    with assms have "out = Panic" "effs = map Metric (takeWhile (\<lambda>m. \<not> call_panics m) ?ms)"
      by (simp_all add: finish_warmup_def Let_def)
    then show ?thesis
      by (auto simp: marks_ready_def quiet_def dest!: set_takeWhileD result_metrics_calls split: if_splits)
  next
    case False
    obtain err up v where up: "setConditionTrue E ctx p (Some r) w = (err, up, v)" by (cases "setConditionTrue E ctx p (Some r) w")
    from setConditionTrue_effects [OF up] obtain now where
      up_eq: "up = [StatusUpdate (condition_set now (Some r) p) (err = None)]" by blast
    have ms: "\<forall>m \<in> set ?ms. call_collector m \<noteq> WarmupActivePods" using result_metrics_calls by auto
    from False assms up show ?thesis
      unfolding up_eq using ms
      by (cases err) (auto simp: finish_warmup_def Let_def quiet_def intro!: marks_readyI)
  qed
qed

lemma finish_warmup_reasons:
  assumes "finish_warmup E ctx p r rec w = (out, effs, w')"
  shows "let x = (if res_Success r then ReasonWarmupCompleted else ReasonWarmupFailed) in
    (out = Return 0 None \<and> reasons effs = [x, ReasonConditionUpdated]) \<or>
    (out \<noteq> Return 0 None \<and> (reasons effs = [x] \<or> reasons effs = []))"
proof -
  obtain err up v where up: "setConditionTrue E ctx p (Some r) w = (err, up, v)"
    by (cases "setConditionTrue E ctx p (Some r) w")
  from setConditionTrue_effects [OF up] have "reasons up = []" by auto
  with assms up show ?thesis
    by (cases err) (auto simp: finish_warmup_def Let_def split: if_splits)
qed

lemma run_executor_effects:
  "run_executor E rc ctx p c w = Some (r, rec, effs, w') \<Longrightarrow>
     status_updates effs = [] \<and> quiet effs \<and>
     (reasons effs = [] \<or> reasons effs = [ReasonWarmupFailed] \<and> \<not> res_Success r)"
  by (auto simp: run_executor_def quiet_def zero_result_def Let_def
      split: bool.splits option.splits prod.splits sum.splits)

lemma reason_distinct [simp]:
  "ReasonConditionUpdated \<noteq> ReasonWarmupCompleted" "ReasonConditionUpdated \<noteq> ReasonWarmupFailed"
  "ReasonConditionUpdated \<noteq> ReasonWarmupStarted" "ReasonConditionUpdated \<noteq> ReasonWarmupQueued"
  by (simp_all add: go_const)

lemma marks_ready_prefix: "status_updates a = [] \<Longrightarrow> marks_ready p out (a @ b) = marks_ready p out b"
  by (simp add: marks_ready_def)

lemma marks_ready_suffix: "status_updates b = [] \<Longrightarrow> marks_ready p out (a @ b) = marks_ready p out a"
  by (simp add: marks_ready_def)

lemma warmup_body_effects:
  assumes "warmup_body E rc ctx p w = Some (out, effs, w')"
  shows "marks_ready p out effs \<and> quiet effs \<and> body_events out effs"
proof (cases "snd (ParseConfig (Some p))")
  case None
  then obtain c where c: "ParseConfig (Some p) = (c, None)" by (metis prod.collapse)
  let ?c = "c\<lparr>cfg_PodIP := pod_PodIP p, cfg_PodName := pod_Name p, cfg_PodNamespace := pod_Namespace p\<rparr>"
  obtain t v where now: "net_now E w = (t, v)" by fastforce
  from assms obtain r rec e1 e2 v1 where
    run: "run_executor E rc (WithTimeout ctx t (cfg_Timeout ?c + 5 * Second)) p ?c v = Some (r, rec, e1, v1)"
    and fin: "finish_warmup E ctx p r rec v1 = (out, e2, w')" and effs: "effs = e1 @ e2"
    by (auto simp: warmup_body_def c now Let_def split: option.splits prod.splits)
  have "body_events out effs"
    using run_executor_effects [OF run] finish_warmup_reasons [OF fin]
    by (auto simp: body_events_def effs Let_def split: if_splits)
  with run_executor_effects [OF run] finish_warmup_effects [OF fin] show ?thesis
    by (simp add: effs marks_ready_prefix)
next
  case (Some err)
  then obtain c where c: "ParseConfig (Some p) = (c, Some err)" by (metis prod.collapse)
  let ?text = "cfg_error_text (net_print E) err"
  let ?r = "zero_result\<lparr>res_Message := ''warmup config error: '' @ ?text, res_Error := Some (ErrText ?text)\<rparr>"
  obtain e up v where up: "setConditionTrue E ctx p (Some ?r) w = (e, up, v)"
    by (cases "setConditionTrue E ctx p (Some ?r) w")
  from setConditionTrue_effects [OF up] obtain now where
    up_eq: "up = [StatusUpdate (condition_set now (Some ?r) p) (e = None)]" by blast
  from assms up show ?thesis
    unfolding up_eq
    by (cases e) (auto simp: warmup_body_def c Let_def quiet_def body_events_def intro!: marks_readyI)
qed

text \<open>
  The shape of a whole reconcile of a due pod: without a slot it only waits; otherwise a slot (if the
  semaphore exists) and the gauge are taken in this order and given back in the opposite one, around
  effects that touch neither.
\<close>

definition reconcile_trace :: "'w reconciler \<Rightarrow> pod \<Rightarrow> outcome \<Rightarrow> effect list \<Rightarrow> bool" where
  "reconcile_trace rc p out effs \<longleftrightarrow>
     rc_WarmupSemaphore rc \<and> out = Return (5 * Second) None \<and> status_updates effs = [] \<and> quiet effs \<and>
       reasons effs = [ReasonWarmupQueued] \<or>
     (\<exists>pre1 pre2 body. quiet pre1 \<and> quiet pre2 \<and> quiet body \<and> status_updates pre1 = [] \<and>
        status_updates pre2 = [] \<and> marks_ready p out body \<and> body_events out body \<and>
        reasons pre1 = (if rc_WarmupSemaphore rc then [ReasonWarmupQueued] else []) \<and>
        reasons pre2 = [ReasonWarmupStarted] \<and>
        effs = pre1 @ (if rc_WarmupSemaphore rc then [SemAcquired] else []) @ pre2 @
          map Metric (IncrementWarmupActivePods (pod_Namespace p) (pod_NodeName p)) @ body @
          map Metric (DecrementWarmupActivePods (pod_Namespace p) (pod_NodeName p)) @
          (if rc_WarmupSemaphore rc then [SemReleased] else []))"

lemma with_semaphore_trace:
  assumes "with_semaphore E rc ctx p w = Some (out, effs, w')"
  shows "reconcile_trace rc p out effs"
proof -
  let ?started = "Event ''Normal'' ReasonWarmupStarted ''StartWarmup'' ''Starting warmup execution''"
  let ?queued = "Event ''Normal'' ReasonWarmupQueued ''QueueWarmup''
    ''Pod queued for warmup execution (waiting for concurrency slot)''"
  let ?inc = "map Metric (IncrementWarmupActivePods (pod_Namespace p) (pod_NodeName p))"
  let ?dec = "map Metric (DecrementWarmupActivePods (pod_Namespace p) (pod_NodeName p))"
  have pod: "\<exists>body. marks_ready p out' body \<and> quiet body \<and> body_events out' body \<and> effs' = [?started] @ ?inc @ body @ ?dec"
    if "run_warmup_pod E rc ctx p v = Some (out', effs', v')" for v out' effs' v'
    using that warmup_body_effects by (fastforce simp: run_warmup_pod_def split: option.splits)
  show ?thesis
  proof (cases "rc_WarmupSemaphore rc")
    case False
    with assms have "run_warmup_pod E rc ctx p w = Some (out, effs, w')" by (simp add: with_semaphore_def)
    from pod [OF this] obtain body where "marks_ready p out body" "quiet body" "body_events out body"
      "effs = [?started] @ ?inc @ body @ ?dec" by blast
    with False show ?thesis
      unfolding reconcile_trace_def
      by (intro disjI2 exI [of _ "[]"] exI [of _ "[?started]"] exI [of _ body]) (simp add: quiet_def)
  next
    case True
    obtain t0 w0 where n0: "net_now E w = (t0, w0)" by fastforce
    obtain e w1 where acq: "k_acquire E ctx w0 = (e, w1)" by fastforce
    obtain t1 w2 where n1: "net_now E w1 = (t1, w2)" by fastforce
    let ?wait = "map Metric (RecordWarmupQueueWait (pod_Namespace p) (dur_Seconds (t1 - t0)))"
    have q: "quiet ?wait" by (simp add: quiet_def metric_defs call_collector_def)
    show ?thesis
    proof (cases e)
      case (Some x)
      with assms True n0 acq n1 have "out = Return (5 * Second) None" "effs = ?queued # ?wait"
        by (simp_all add: with_semaphore_def)
      with True q show ?thesis by (simp add: reconcile_trace_def quiet_def)
    next
      case None
      with assms True n0 acq n1 obtain effs' where
        run: "run_warmup_pod E rc ctx p w2 = Some (out, effs', w')"
        and effs: "effs = [?queued, SemAcquired] @ ?wait @ effs' @ [SemReleased]"
        by (auto simp: with_semaphore_def split: option.splits)
      from pod [OF run] obtain body where "marks_ready p out body" "quiet body" "body_events out body"
        "effs' = [?started] @ ?inc @ body @ ?dec" by blast
      with True q effs show ?thesis
        unfolding reconcile_trace_def
        by (intro disjI2 exI [of _ "[?queued]"] exI [of _ "?wait @ [?started]"] exI [of _ body]) (simp add: quiet_def)
    qed
  qed
qed

lemma Reconcile_found:
  assumes "k_get_pod E ctx ns name w = (Inr p, w1)"
  shows "Reconcile E rc ctx ns name w =
    (if due p then with_semaphore E rc ctx p w1
     else Some (Return (if gate_present p \<and> \<not> isConditionTrue p ConditionTypeWarmupReady
                        then 5 * Second else 0) None, [], w1))"
  using assms by (auto simp: Reconcile_def due_def gate_present_def)

end
