(* ===== verification/Reconcile_Properties.thy ===== *)
theory Reconcile_Properties
  imports Controller
begin

text \<open>
  What a reconcile guarantees: it fails open, it is final once it succeeded, what it takes it gives back
  on every path, and its events tell its life cycle in order.
\<close>

section \<open>Lemmas\<close>

lemma reconcile_trace_updates:
  assumes "reconcile_trace rc p out effs"
  shows "(out = Panic \<or> out = Return (5 * Second) None) \<and> status_updates effs = [] \<or>
    (\<exists>now r b. status_updates effs = [(condition_set now (Some r) p, b)] \<and>
       (if b then out = Return 0 None else \<exists>e. out = Return 0 (Some e)))"
proof -
  consider (waiting) "out = Return (5 * Second) None" "status_updates effs = []"
    | (ran) body where "marks_ready p out body" "status_updates effs = status_updates body"
    using assms by (auto simp: reconcile_trace_def)
  then show ?thesis
  proof cases
    case ran
    then show ?thesis unfolding ran(2) marks_ready_def by (cases "out = Panic") simp_all
  qed simp
qed

lemma reconcile_trace_acquired:
  assumes "reconcile_trace rc p out effs" and "rc_WarmupSemaphore rc \<Longrightarrow> SemAcquired \<in> set effs"
    and "out \<noteq> Panic"
  shows "\<exists>now r b. status_updates effs = [(condition_set now (Some r) p, b)] \<and>
    (if b then out = Return 0 None else \<exists>e. out = Return 0 (Some e))"
proof -
  obtain body where body: "marks_ready p out body" "status_updates effs = status_updates body"
    using assms(1,2) by (auto simp: reconcile_trace_def quiet_def)
  then show ?thesis using assms(3) unfolding body(2) marks_ready_def by simp
qed

lemma quiet_gauge:
  assumes "quiet effs"
  shows "gauge_after WarmupActivePods ls (metric_calls effs) g = g"
proof -
  have "gauge_after c ls ms g = g" if "\<forall>m \<in> set ms. call_collector m \<noteq> c" for c ms
    using that by (induction c ls ms g rule: gauge_after.induct) (auto simp: call_collector_def)
  with assms show ?thesis by (simp add: quiet_def)
qed

lemma quiet_slots: "quiet effs \<Longrightarrow> slots effs = 0"
  by (simp add: quiet_def)

lemma reconcile_trace_balanced:
  assumes "reconcile_trace rc p out effs"
  shows "slots effs = 0 \<and> gauge_after WarmupActivePods ls (metric_calls effs) g = g"
  using assms
  by (auto simp: reconcile_trace_def quiet_gauge quiet_slots metric_defs split: if_splits)

lemma reconcile_trace_reasons:
  assumes "reconcile_trace rc p out effs"
  shows "\<exists>mid \<in> {[ReasonWarmupCompleted], [ReasonWarmupFailed], [ReasonWarmupFailed, ReasonWarmupFailed]}.
    prefix (reasons effs) ((if rc_WarmupSemaphore rc then [ReasonWarmupQueued] else []) @
      [ReasonWarmupStarted] @ mid @ [ReasonConditionUpdated])"
  (is "\<exists>mid \<in> ?M. prefix _ (?pre @ _ @ mid @ _)")
proof -
  consider (waiting) "rc_WarmupSemaphore rc" "reasons effs = [ReasonWarmupQueued]"
    | (ran) body where "body_events out body" "reasons effs = ?pre @ [ReasonWarmupStarted] @ reasons body"
    using assms by (auto simp: reconcile_trace_def)
  then show ?thesis
  proof cases
    case waiting
    then show ?thesis by (intro bexI [of _ "[ReasonWarmupFailed]"]) simp_all
  next
    case ran
    from ran(1) obtain mid where "mid \<in> ?M" "prefix (reasons body) (mid @ [ReasonConditionUpdated])"
      unfolding body_events_def by blast
    then show ?thesis
      unfolding ran(2) by (intro bexI [of _ mid]) (simp_all only: append_assoc same_prefix_prefix)
  qed
qed

lemma reconcile_trace_last:
  assumes "reconcile_trace rc p out effs"
  shows "ReasonConditionUpdated \<in> set (reasons effs) \<longleftrightarrow> out = Return 0 None"
  using assms
  by (auto simp: reconcile_trace_def body_events_def split: if_splits)

lemma Reconcile_trace:
  assumes "k_get_pod E ctx ns name w = (Inr p, w1)" and "Reconcile E rc ctx ns name w = Some (out, effs, w')"
  shows "effs = [] \<and> \<not> due p \<or> due p \<and> reconcile_trace rc p out effs"
  using assms(2) with_semaphore_trace
  by (auto simp: Reconcile_found [OF assms(1)] split: if_splits)

lemma Reconcile_not_found:
  assumes "k_get_pod E ctx ns name w = (Inl err, w1)" and "Reconcile E rc ctx ns name w = Some (out, effs, w')"
  shows "effs = []"
  using assms by (auto simp: Reconcile_def split: if_splits)

lemma due_condition_set: "\<not> due (condition_set now r p)"
  by (simp add: due_def conds.set_same)

lemma gate_condition_set [simp]: "gate_present (condition_set now r p) = gate_present p"
  by (subst condition_set_more) (simp add: gate_present_def)

section \<open>The metrics of a reconcile\<close>

text \<open>All calls that a reconcile gets through are well typed and do not panic.\<close>

definition calls_ok :: "effect list \<Rightarrow> bool" where
  "calls_ok effs \<longleftrightarrow> list_all call_typed (metric_calls effs) \<and>
     list_all (\<lambda>m. \<not> call_panics m) (metric_calls effs)"

lemma calls_ok_append [simp]: "calls_ok (a @ b) \<longleftrightarrow> calls_ok a \<and> calls_ok b"
  by (auto simp: calls_ok_def)

lemma calls_ok_defer [simp]:
  "calls_ok []" "calls_ok (Event t r a n # es) = calls_ok es"
  "calls_ok (SemAcquired # es) = calls_ok es" "calls_ok (SemReleased # es) = calls_ok es"
  "calls_ok (StatusUpdate q b # es) = calls_ok es"
  "calls_ok (map Metric (IncrementWarmupActivePods ns node))"
  "calls_ok (map Metric (DecrementWarmupActivePods ns node))"
  "calls_ok (map Metric (RecordWarmupQueueWait ns d))"
  by (simp_all add: calls_ok_def) (simp_all add: metric_defs)

lemma result_metrics_typed: "list_all call_typed (result_metrics p r)"
  by (simp add: result_metrics_def)

lemma finish_warmup_calls:
  assumes "finish_warmup E ctx p r rec w = (out, effs, w')"
  shows "calls_ok effs"
proof -
  let ?ms = "if rec then result_metrics p r else []"
  have typed: "list_all call_typed ?ms" by (simp add: result_metrics_typed)
  show ?thesis
  proof (cases "list_ex call_panics ?ms")
    case True
    with assms have "effs = map Metric (takeWhile (\<lambda>m. \<not> call_panics m) ?ms)"
      by (simp add: finish_warmup_def Let_def)
    with typed show ?thesis by (auto simp: calls_ok_def list_all_iff dest: set_takeWhileD)
  next
    case False
    obtain err up v where up: "setConditionTrue E ctx p (Some r) w = (err, up, v)"
      by (cases "setConditionTrue E ctx p (Some r) w")
    from setConditionTrue_effects [OF up] have "metric_calls up = []" by auto
    with False typed assms up show ?thesis
      by (cases err) (auto simp: finish_warmup_def Let_def calls_ok_def list_all_iff list_ex_iff)
  qed
qed

lemma run_executor_calls: "run_executor E rc ctx p c w = Some (r, rec, effs, w') \<Longrightarrow> metric_calls effs = []"
  by (auto simp: run_executor_def Let_def split: bool.splits option.splits prod.splits sum.splits)

lemma warmup_body_calls:
  assumes "warmup_body E rc ctx p w = Some (out, effs, w')"
  shows "calls_ok effs"
proof (cases "snd (ParseConfig (Some p))")
  case None
  then obtain c where c: "ParseConfig (Some p) = (c, None)" by (metis prod.collapse)
  from assms obtain ctx' c' v r rec e1 e2 v1 where
    run: "run_executor E rc ctx' p c' v = Some (r, rec, e1, v1)"
    and fin: "finish_warmup E ctx p r rec v1 = (out, e2, w')" and effs: "effs = e1 @ e2"
    by (auto simp: warmup_body_def c Let_def split: option.splits prod.splits)
  from run_executor_calls [OF run] finish_warmup_calls [OF fin] show ?thesis by (simp add: effs calls_ok_def)
next
  case (Some err)
  then obtain c where c: "ParseConfig (Some p) = (c, Some err)" by (metis prod.collapse)
  with assms show ?thesis
    by (auto simp: warmup_body_def Let_def calls_ok_def condition_event_def
        dest!: setConditionTrue_effects split: option.splits prod.splits)
qed

lemma with_semaphore_calls:
  assumes "with_semaphore E rc ctx p w = Some (out, effs, w')"
  shows "calls_ok effs"
  using assms
  by (auto simp: with_semaphore_def run_warmup_pod_def Let_def dest: warmup_body_calls
      split: if_splits option.splits prod.splits)

section \<open>A cluster for concrete runs\<close>

definition ready_pod :: pod where
  "ready_pod = sample_pod\<lparr>pod_ReadinessGates := [ReadinessGateName], pod_Phase := ''Running'',
     pod_PodIP := ''10.0.0.7'', pod_NodeName := ''node-1'',
     pod_ContainerStatuses := [\<lparr>cs_Name = ''app'', cs_Ready = True\<rparr>],
     pod_Conditions := [\<lparr>cond_Type = ''ContainersReady'', cond_Status = ''True'',
       cond_LastTransitionTime = 0, cond_Reason = [], cond_Message = []\<rparr>]\<rparr>"

definition sample_kube :: "int kube" where
  "sample_kube = grpc_net.extend sample_grpc
     \<lparr>k_get_pod = (\<lambda>_ _ _ w. (Inr ready_pod, w)),
      k_get_config = (\<lambda>_ _ _ w. (Inl \<lparr>ae_NotFound = True, ae_Error = ErrText ''not found''\<rparr>, w)),
      k_update_status = (\<lambda>_ _ w. (None, w)), k_acquire = (\<lambda>_ w. (None, w))\<rparr>"

definition failing_reconciler :: "int reconciler" where
  "failing_reconciler =
     \<lparr>rc_WarmupExecutor = Some (\<lambda>_ _ w. Some (zero_result\<lparr>res_RequestsFailed := 3,
        res_Message := ''warmup completed with failures: 0/3 requests succeeded (0.0%)''\<rparr>, w)),
      rc_ScenarioExecutor = None, rc_WarmupSemaphore = True\<rparr>"

section \<open>Properties\<close>


lemma ready_pod_due: "due ready_pod"
  by (simp add: due_def ready_pod_def sample_pod_def gate_present_def areContainersReady_def
      isConditionTrue_def go_const)

lemma sample_reconcile_slot:
  "\<exists>effs w'. Reconcile sample_kube failing_reconciler Background ''default'' ''app-0'' 0 =
     Some (Return 0 None, effs, w') \<and> SemAcquired \<in> set effs"
proof -
  have get: "k_get_pod sample_kube Background ''default'' ''app-0'' 0 = (Inr ready_pod, 0)"
    by (simp add: sample_kube_def grpc_net.defs)
  have parse: "\<exists>c. ParseConfig (Some ready_pod) = (c, None) \<and> cfg_WarmupConfigName c = []"
    by (simp add: ParseConfig_annotations parse_annotations_def parse_endpoint_def parse_requests_def
        parse_timeout_def parse_protocol_def parse_grpc_method_def parse_grpc_payload_def check_grpc_def
        parse_config_name_def parse_port_def detect_port_def ready_pod_def sample_pod_def
        annotation_set_def annotation_def default_config_def go_const)
  then obtain c where c: "ParseConfig (Some ready_pod) = (c, None)" "cfg_WarmupConfigName c = []" by blast
  show ?thesis
    unfolding Reconcile_found [OF get]
    by (simp add: ready_pod_due with_semaphore_def failing_reconciler_def
        run_warmup_pod_def warmup_body_def c run_executor_def finish_warmup_def setConditionTrue_def
        sample_kube_def sample_grpc_def sample_net_def grpc_net.defs net.defs result_metrics_def
        metric_defs zero_result_def Let_def wrap64_def)
qed

lemma sample_reconcile:
  "\<exists>effs w'. Reconcile sample_kube failing_reconciler Background ''default'' ''app-0'' 0 =
     Some (Return 0 None, effs, w')"
  using sample_reconcile_slot by blast


text \<open>
  C8. What a reconcile takes it gives back, on every path: after any outcome, an error and a panic
  included, the semaphore has as many free slots as before and the gauge of active pods has its old
  value for every namespace and node.
\<close>

theorem Reconcile_balanced:
  assumes "Reconcile E rc ctx ns name w = Some (out, effs, w')"
  shows "slots effs = 0 \<and> gauge_after WarmupActivePods ls (metric_calls effs) g = g"
proof (cases "k_get_pod E ctx ns name w")
  case (Pair r w1)
  show ?thesis
  proof (cases r)
    case (Inl err)
    with Pair Reconcile_not_found [of E ctx ns name w err w1 rc] assms show ?thesis by simp
  next
    case (Inr p)
    with Pair Reconcile_trace [of E ctx ns name w p w1 rc] assms show ?thesis
      using reconcile_trace_balanced [of rc p out effs] by fastforce
  qed
qed

theorem Reconcile_balanced_witness:
  "\<exists>effs w'. Reconcile sample_kube failing_reconciler Background ''default'' ''app-0'' 0 =
     Some (Return 0 None, effs, w') \<and> effs \<noteq> [] \<and> slots effs = 0 \<and>
     gauge_after WarmupActivePods [''default'', ''node-1''] (metric_calls effs) 7 = 7"
proof -
  from sample_reconcile obtain effs w' where
    run: "Reconcile sample_kube failing_reconciler Background ''default'' ''app-0'' 0 =
      Some (Return 0 None, effs, w')" by blast
  have get: "k_get_pod sample_kube Background ''default'' ''app-0'' 0 = (Inr ready_pod, 0)"
    by (simp add: sample_kube_def grpc_net.defs)
  from Reconcile_trace [OF get run] ready_pod_due reconcile_trace_last have "effs \<noteq> []" by fastforce
  with Reconcile_balanced [OF run] run show ?thesis by blast
qed

text \<open>
  C15. The events of a reconcile tell its life cycle in order: (queued,) started, then completed, failed or
  failed twice (a WarmupConfig that is not found is reported before the result), then the update of the
  condition; a reconcile that stops early emits a prefix of this. The last event appears exactly
  when a due pod's reconcile ended without an error.
\<close>

theorem Reconcile_event_order:
  assumes "k_get_pod E ctx ns name w = (Inr p, w1)" and "due p"
    and "Reconcile E rc ctx ns name w = Some (out, effs, w')"
  shows "(\<exists>mid \<in> {[ReasonWarmupCompleted], [ReasonWarmupFailed], [ReasonWarmupFailed, ReasonWarmupFailed]}.
      prefix (reasons effs) ((if rc_WarmupSemaphore rc then [ReasonWarmupQueued] else []) @
        [ReasonWarmupStarted] @ mid @ [ReasonConditionUpdated])) \<and>
    (ReasonConditionUpdated \<in> set (reasons effs) \<longleftrightarrow> out = Return 0 None)"
proof -
  from Reconcile_trace [OF assms(1,3)] assms(2) have "reconcile_trace rc p out effs" by blast
  from reconcile_trace_reasons [OF this] reconcile_trace_last [OF this] show ?thesis by (rule conjI)
qed

theorem Reconcile_event_order_witness:
  "\<exists>effs w'. Reconcile sample_kube failing_reconciler Background ''default'' ''app-0'' 0 =
     Some (Return 0 None, effs, w') \<and> ReasonConditionUpdated \<in> set (reasons effs)"
proof -
  from sample_reconcile obtain effs w' where
    run: "Reconcile sample_kube failing_reconciler Background ''default'' ''app-0'' 0 =
      Some (Return 0 None, effs, w')" by blast
  have get: "k_get_pod sample_kube Background ''default'' ''app-0'' 0 = (Inr ready_pod, 0)"
    by (simp add: sample_kube_def grpc_net.defs)
  from Reconcile_event_order [OF get ready_pod_due run] run show ?thesis by blast
qed



end
