(* ===== verification/Concurrency.thy ===== *)
theory Concurrency
  imports Reconcile_Properties
begin

text \<open>
  Concurrent reconciles. The manager runs several workers, each of which reconciles one pod after the
  other; they share the semaphore and the metrics. A worker is the rest of the effects of the reconcile it
  is in; a step lets one worker perform its next effect, or an idle one start a reconcile. The
  semaphore has \<open>N\<close> slots: the effect of taking one is possible only while fewer are taken, which is the
  documented behaviour of golang.org/x/sync/semaphore for requests of weight 1.
\<close>

section \<open>The system\<close>

record sys =
  sys_workers :: "effect list list"
  sys_taken :: int
  sys_metrics :: "metric_call list"

definition perform :: "effect \<Rightarrow> sys \<Rightarrow> sys" where
  "perform e s = s\<lparr>sys_taken := sys_taken s + slots [e], sys_metrics := sys_metrics s @ metric_calls [e]\<rparr>"

inductive sys_step :: "int \<Rightarrow> effect list set \<Rightarrow> sys \<Rightarrow> sys \<Rightarrow> bool" for N traces where
  act: "i < length (sys_workers s) \<Longrightarrow> sys_workers s ! i = e # es \<Longrightarrow>
     (e = SemAcquired \<Longrightarrow> sys_taken s < N) \<Longrightarrow>
     sys_step N traces s (perform e s\<lparr>sys_workers := (sys_workers s)[i := es]\<rparr>)"
| start: "i < length (sys_workers s) \<Longrightarrow> sys_workers s ! i = [] \<Longrightarrow> effs \<in> traces \<Longrightarrow>
     sys_step N traces s (s\<lparr>sys_workers := (sys_workers s)[i := effs]\<rparr>)"

inductive reachable :: "int \<Rightarrow> effect list set \<Rightarrow> nat \<Rightarrow> sys \<Rightarrow> bool" for N traces n where
  init: "reachable N traces n \<lparr>sys_workers = replicate n [], sys_taken = 0, sys_metrics = []\<rparr>"
| step: "reachable N traces n s \<Longrightarrow> sys_step N traces s s' \<Longrightarrow> reachable N traces n s'"

text \<open>The number of active pods a sequence of metric calls adds, over all namespaces and nodes.\<close>

fun active_delta :: "metric_call \<Rightarrow> int" where
  "active_delta (GaugeAdd c ls v) = (if c = WarmupActivePods then v else 0)"
| "active_delta _ = 0"

definition active_total :: "metric_call list \<Rightarrow> int" where
  "active_total ms = sum_list (map active_delta ms)"

lemma active_total_simps [simp]:
  "active_total [] = 0" "active_total (m # ms) = active_delta m + active_total ms"
  "active_total (a @ b) = active_total a + active_total b"
  by (simp_all add: active_total_def)

section \<open>The phases of a reconcile\<close>

text \<open>
  What the rest of a reconcile still gives back: nothing, its slot, or its slot and its place in the
  gauge. This holds of every rest.
\<close>

definition phase :: "effect list \<Rightarrow> bool" where
  "phase effs \<longleftrightarrow> (slots effs, active_total (metric_calls effs)) \<in> {(0, 0), (- 1, 0), (- 1, - 1)}"

fun phases :: "effect list \<Rightarrow> bool" where
  "phases [] = True"
| "phases (e # es) \<longleftrightarrow> phase (e # es) \<and> phases es"

lemma phases_phase: "phases effs \<Longrightarrow> phase effs"
  by (cases effs) (simp_all add: phase_def)

lemma quiet_Cons:
  assumes "quiet (e # es)"
  shows "quiet es \<and> slots [e] = 0 \<and> active_total (metric_calls [e]) = 0"
proof -
  have no_acq: "SemAcquired \<notin> set xs \<Longrightarrow> slots xs \<le> 0" for xs
    by (induction xs rule: slots.induct) auto
  from assms have e: "e \<noteq> SemAcquired" and es: "SemAcquired \<notin> set es" "slots (e # es) = 0"
    by (auto simp: quiet_def)
  from e es no_acq [of es] have s: "slots [e] = 0" "slots es = 0" by (cases e; simp)+
  have "active_total (metric_calls [e]) = 0"
  proof (cases e)
    case (Metric m)
    with assms have "call_collector m \<noteq> WarmupActivePods" by (simp add: quiet_def)
    with Metric show ?thesis by (cases m) (simp_all add: call_collector_def)
  qed simp_all
  moreover have "set (metric_calls es) \<subseteq> set (metric_calls (e # es))" by (cases e) auto
  ultimately show ?thesis using assms es s by (auto simp: quiet_def)
qed

lemma metric_calls_Cons: "metric_calls (e # es) = metric_calls [e] @ metric_calls es"
  by (cases e) simp_all

lemma slots_Cons: "slots (e # es) = slots [e] + slots es"
  by (cases e) simp_all

lemma phases_quiet: "quiet a \<Longrightarrow> phases b \<Longrightarrow> phases (a @ b)"
proof (induction a)
  case (Cons e a)
  from quiet_Cons [OF Cons.prems(1)] Cons have ab: "phases (a @ b)" by simp
  have "slots (e # a @ b) = slots (a @ b) \<and>
      active_total (metric_calls (e # a @ b)) = active_total (metric_calls (a @ b))"
    using quiet_Cons [OF Cons.prems(1)] slots_Cons [of e "a @ b"] metric_calls_Cons [of e "a @ b"]
    by simp
  with phases_phase [OF ab] ab show ?case by (simp add: phase_def)
qed simp

lemma quiet_active: "quiet a \<Longrightarrow> slots a = 0 \<and> active_total (metric_calls a) = 0"
proof (induction a)
  case (Cons e a)
  with quiet_Cons [OF Cons.prems] slots_Cons [of e a] metric_calls_Cons [of e a] show ?case by simp
qed simp

text \<open>A reconcile with a semaphore goes through these phases, and as a whole it gives nothing back.\<close>

lemma reconcile_trace_phases:
  assumes "reconcile_trace rc p out effs" and "rc_WarmupSemaphore rc"
  shows "phases effs \<and> slots effs = 0 \<and> active_total (metric_calls effs) = 0"
proof -
  consider (waiting) "quiet effs"
    | (ran) pre1 pre2 body where "quiet pre1" "quiet pre2" "quiet body"
      "effs = pre1 @ [SemAcquired] @ pre2 @
        [Metric (GaugeAdd WarmupActivePods [pod_Namespace p, pod_NodeName p] 1)] @ body @
        [Metric (GaugeAdd WarmupActivePods [pod_Namespace p, pod_NodeName p] (- 1))] @ [SemReleased]"
    using assms by (auto simp: reconcile_trace_def metric_defs)
  then show ?thesis
  proof cases
    case waiting
    with phases_quiet [of effs "[]"] quiet_active [of effs] show ?thesis by simp
  next
    case ran
    let ?ls = "[pod_Namespace p, pod_NodeName p]"
    let ?r1 = "[Metric (GaugeAdd WarmupActivePods ?ls (- 1))] @ [SemReleased]"
    let ?r2 = "[Metric (GaugeAdd WarmupActivePods ?ls 1)] @ body @ ?r1"
    have "phases ?r1" by (simp add: phase_def)
    from phases_quiet [OF ran(3) this] have "phases (body @ ?r1)" .
    then have "phases ?r2" using quiet_active [OF ran(3)] by (simp add: phase_def)
    from phases_quiet [OF ran(2) this] have "phases (pre2 @ ?r2)" .
    then have "phases ([SemAcquired] @ pre2 @ ?r2)"
      using quiet_active [OF ran(2)] quiet_active [OF ran(3)] by (simp add: phase_def)
    from phases_quiet [OF ran(1) this] have "phases effs" unfolding ran(4) by simp
    with ran quiet_active [of pre1] quiet_active [of pre2] quiet_active [of body] show ?thesis by simp
  qed
qed

section \<open>The invariant\<close>

definition sys_inv :: "int \<Rightarrow> nat \<Rightarrow> sys \<Rightarrow> bool" where
  "sys_inv N n s \<longleftrightarrow>
     length (sys_workers s) = n \<and> list_all phases (sys_workers s) \<and>
     sys_taken s = - sum_list (map slots (sys_workers s)) \<and>
     active_total (sys_metrics s) =
       - sum_list (map (\<lambda>es. active_total (metric_calls es)) (sys_workers s)) \<and>
     sys_taken s \<le> N"

lemma sum_list_map_update:
  fixes f :: "'a \<Rightarrow> int"
  shows "i < length xs \<Longrightarrow> sum_list (map f (xs[i := y])) = sum_list (map f xs) - f (xs ! i) + f y"
proof (induction xs arbitrary: i)
  case (Cons x xs)
  then show ?case by (cases i) auto
qed simp

lemma list_all_update: "list_all P xs \<Longrightarrow> P y \<Longrightarrow> list_all P (xs[i := y])"
  by (auto simp: list_all_iff dest: set_update_subset_insert [THEN subsetD])

lemma phases_slots: "phases es \<Longrightarrow> slots es \<le> 0 \<and> slots es \<le> active_total (metric_calls es) \<and>
    active_total (metric_calls es) \<le> 0"
  using phases_phase [of es] by (auto simp: phase_def)

lemma sys_inv_act:
  assumes inv: "sys_inv N n s" and i: "i < length (sys_workers s)" "sys_workers s ! i = e # es"
    and guard: "e = SemAcquired \<Longrightarrow> sys_taken s < N"
  shows "sys_inv N n (perform e s\<lparr>sys_workers := (sys_workers s)[i := es]\<rparr>)"
proof -
  from nth_mem [OF i(1)] inv have "phases (sys_workers s ! i)" by (simp add: sys_inv_def list_all_iff)
  then have "phases es" by (simp add: i(2))
  moreover have "sys_taken s + slots [e] \<le> N"
    using inv guard by (cases e) (auto simp: sys_inv_def)
  ultimately show ?thesis
    using inv i slots_Cons [of e es] metric_calls_Cons [of e es]
    by (simp add: sys_inv_def perform_def list_all_update sum_list_map_update)
qed

lemma sys_inv_step:
  assumes "sys_step N traces s s'" and "sys_inv N n s"
    and traces: "\<And>effs. effs \<in> traces \<Longrightarrow>
      phases effs \<and> slots effs = 0 \<and> active_total (metric_calls effs) = 0"
  shows "sys_inv N n s'"
  using assms(1)
proof (cases rule: sys_step.cases)
  case (act i e es)
  with sys_inv_act [OF assms(2) act(2,3)] show ?thesis by simp
next
  case (start i effs)
  with assms(2) traces [OF start(4)] show ?thesis
    by (simp add: sys_inv_def list_all_update sum_list_map_update)
qed

lemma reachable_inv:
  assumes "reachable N traces n s" and "0 \<le> N"
    and "\<And>effs. effs \<in> traces \<Longrightarrow>
      phases effs \<and> slots effs = 0 \<and> active_total (metric_calls effs) = 0"
  shows "sys_inv N n s"
  using assms(1)
proof (induction rule: reachable.induct)
  case init
  from assms(2) show ?case by (simp add: sys_inv_def list_all_iff sum_list_replicate)
next
  case (step s s')
  with assms(3) show ?case by (blast intro: sys_inv_step)
qed

lemma sum_list_le:
  fixes f g :: "'a \<Rightarrow> int"
  shows "(\<And>x. x \<in> set xs \<Longrightarrow> f x \<le> g x) \<Longrightarrow> sum_list (map f xs) \<le> sum_list (map g xs)"
  by (induction xs) (auto intro: add_mono)

lemma sys_inv_bounds:
  assumes "sys_inv N n s"
  shows "0 \<le> active_total (sys_metrics s) \<and> active_total (sys_metrics s) \<le> sys_taken s \<and> sys_taken s \<le> N"
proof -
  let ?a = "\<lambda>es. active_total (metric_calls es)"
  from assms have ph: "x \<in> set (sys_workers s) \<Longrightarrow> slots x \<le> ?a x \<and> ?a x \<le> 0" for x
    using phases_slots by (auto simp: sys_inv_def list_all_iff)
  have "sum_list (map slots (sys_workers s)) \<le> sum_list (map ?a (sys_workers s))"
    using ph by (intro sum_list_le) blast
  moreover have "sum_list (map ?a (sys_workers s)) \<le> sum_list (map (\<lambda>_. 0) (sys_workers s))"
    using ph by (intro sum_list_le) blast
  ultimately show ?thesis using assms by (simp add: sys_inv_def)
qed

section \<open>Progress\<close>

lemma phases_acquire: "phases (SemAcquired # es) \<Longrightarrow> slots (SemAcquired # es) = 0"
  using phases_phase [of es] by (auto simp: phase_def)

lemma sys_progress:
  assumes inv: "sys_inv N n s" and "1 \<le> N" and busy: "\<exists>es \<in> set (sys_workers s). es \<noteq> []"
  shows "\<exists>s'. sys_step N {} s s' \<and>
    sum_list (map length (sys_workers s')) < sum_list (map length (sys_workers s))"
proof -
  have act: ?thesis
    if i: "i < length (sys_workers s)" "sys_workers s ! i = e # es"
      and g: "e = SemAcquired \<Longrightarrow> sys_taken s < N" for i e es
  proof -
    have "sum_list (map length ((sys_workers s)[i := es])) < sum_list (map length (sys_workers s))"
      using i elem_le_sum_list [of i "map length (sys_workers s)"]
      by (simp add: map_update sum_list_update)
    with sys_step.act [OF i g] show ?thesis
      by (intro exI [of _ "perform e s\<lparr>sys_workers := (sys_workers s)[i := es]\<rparr>"]) simp
  qed
  show ?thesis
  proof (cases "\<exists>i e es. i < length (sys_workers s) \<and> sys_workers s ! i = e # es \<and> e \<noteq> SemAcquired")
    case True
    then show ?thesis using act by blast
  next
    case False
    have "slots x = 0" if x: "x \<in> set (sys_workers s)" for x
    proof (cases x)
      case (Cons e es)
      from x obtain i where "i < length (sys_workers s)" "sys_workers s ! i = x" by (auto simp: in_set_conv_nth)
      with False Cons have "e = SemAcquired" by blast
      moreover have "phases x" using inv x by (simp add: sys_inv_def list_all_iff)
      ultimately show ?thesis using Cons phases_acquire by blast
    qed simp
    then have "map slots (sys_workers s) = map (\<lambda>_. 0) (sys_workers s)" by simp
    then have "sys_taken s = 0" using inv unfolding sys_inv_def by (simp del: map_eq_conv)
    with assms(2) have "sys_taken s < N" by simp
    moreover from busy obtain i e es where "i < length (sys_workers s)" "sys_workers s ! i = e # es"
      by (auto simp: in_set_conv_nth neq_Nil_conv)
    ultimately show ?thesis using act by blast
  qed
qed

lemma sys_finishes:
  assumes "sys_inv N n s" and "1 \<le> N"
  shows "\<exists>s'. (sys_step N {})\<^sup>*\<^sup>* s s' \<and> sys_inv N n s' \<and> list_all (\<lambda>es. es = []) (sys_workers s')"
  using assms(1)
proof (induction "sum_list (map length (sys_workers s))" arbitrary: s rule: less_induct)
  case less
  show ?case
  proof (cases "\<exists>es \<in> set (sys_workers s). es \<noteq> []")
    case False
    with less.prems show ?thesis by (intro exI [of _ s]) (auto simp: list_all_iff)
  next
    case True
    from sys_progress [OF less.prems assms(2) True] obtain s1 where
      s1: "sys_step N {} s s1" "sum_list (map length (sys_workers s1)) < sum_list (map length (sys_workers s))"
      by blast
    from sys_inv_step [OF s1(1) less.prems] have "sys_inv N n s1" by simp
    from less.hyps [OF s1(2) this] s1(1) show ?thesis by (meson converse_rtranclp_into_rtranclp)
  qed
qed

section \<open>Properties\<close>

text \<open>The effects of a reconcile that uses the semaphore.\<close>

lemma Reconcile_phases:
  assumes "Reconcile E rc ctx ns name w = Some (out, effs, w')" and "rc_WarmupSemaphore rc"
  shows "phases effs \<and> slots effs = 0 \<and> active_total (metric_calls effs) = 0"
proof (cases "k_get_pod E ctx ns name w")
  case (Pair r w1)
  show ?thesis
  proof (cases r)
    case (Inl err)
    with Pair Reconcile_not_found [OF _ assms(1)] show ?thesis by simp
  next
    case (Inr p)
    with Pair Reconcile_trace [OF _ assms(1)] reconcile_trace_phases [OF _ assms(2)] show ?thesis
      by (metis metric_calls.simps(1) active_total_simps(1) phases.simps(1) slots.simps(1))
  qed
qed

definition started :: "effect list \<Rightarrow> sys" where
  "started effs = \<lparr>sys_workers = [effs, []], sys_taken = 0, sys_metrics = []\<rparr>"

lemma started_reachable: "reachable 1 {effs} 2 (started effs)"
proof -
  have "reachable 1 {effs} 2 \<lparr>sys_workers = replicate 2 [], sys_taken = 0, sys_metrics = []\<rparr>" by (rule init)
  from reachable.step [OF this sys_step.start [of 0 _ effs]] show ?thesis
    by (simp add: started_def numeral_2_eq_2)
qed

lemma sample_trace:
  obtains effs where "\<exists>(E :: int kube) rc ctx ns name w out w'.
      rc_WarmupSemaphore rc \<and> Reconcile E rc ctx ns name w = Some (out, effs, w')" "effs \<noteq> []"
proof -
  from sample_reconcile obtain effs w' where
    run: "Reconcile sample_kube failing_reconciler Background ''default'' ''app-0'' 0 =
      Some (Return 0 None, effs, w')" by blast
  have get: "k_get_pod sample_kube Background ''default'' ''app-0'' 0 = (Inr ready_pod, 0)"
    by (simp add: sample_kube_def grpc_net.defs)
  from Reconcile_trace [OF get run] ready_pod_due reconcile_trace_last have "effs \<noteq> []" by fastforce
  moreover have "rc_WarmupSemaphore failing_reconciler" by (simp add: failing_reconciler_def)
  ultimately show thesis using that run by blast
qed

text \<open>
  C3. The semaphore limits concurrency: however the effects of any number of workers interleave, and
  whatever reconciles they run, at most \<open>N\<close> slots are taken, and the gauge of active pods, summed
  over all namespaces and nodes, is never negative and never exceeds the number of slots taken.
\<close>

theorem semaphore_limits_active_pods:
  assumes "reachable N traces n s" and "0 \<le> N"
    and "\<And>effs. effs \<in> traces \<Longrightarrow> \<exists>(E :: ('w, 'x) kube_scheme) rc ctx ns name w out w'.
      rc_WarmupSemaphore rc \<and> Reconcile E rc ctx ns name w = Some (out, effs, w')"
  shows "0 \<le> active_total (sys_metrics s) \<and> active_total (sys_metrics s) \<le> sys_taken s \<and>
    sys_taken s \<le> N"
proof -
  have "phases effs \<and> slots effs = 0 \<and> active_total (metric_calls effs) = 0" if "effs \<in> traces" for effs
    using assms(3) [OF that] by (elim exE conjE) (rule Reconcile_phases)
  from reachable_inv [OF assms(1,2) this] show ?thesis by (rule sys_inv_bounds)
qed

theorem semaphore_limits_active_pods_witness:
  "\<exists>effs. effs \<noteq> [] \<and> reachable 1 {effs} 2 (started effs) \<and> sys_taken (started effs) \<le> 1"
proof -
  obtain effs where tr: "\<exists>(E :: int kube) rc ctx ns name w out w'.
      rc_WarmupSemaphore rc \<and> Reconcile E rc ctx ns name w = Some (out, effs, w')" "effs \<noteq> []"
    by (rule sample_trace)
  have "sys_taken (started effs) \<le> 1"
    by (rule semaphore_limits_active_pods [OF started_reachable, THEN conjunct2, THEN conjunct2])
      (use tr(1) in simp_all)
  with tr(2) started_reachable show ?thesis by blast
qed

text \<open>
  C9. No deadlock: with at least one slot, from every reachable state the running reconciles can be
  carried to their end without a new one being started, and then no slot is taken and the gauge
  of active pods is back at zero. In particular a pod that waits for a slot gets one.
\<close>

theorem reconciles_can_finish:
  assumes "reachable N traces n s" and "1 \<le> N"
    and "\<And>effs. effs \<in> traces \<Longrightarrow> \<exists>(E :: ('w, 'x) kube_scheme) rc ctx ns name w out w'.
      rc_WarmupSemaphore rc \<and> Reconcile E rc ctx ns name w = Some (out, effs, w')"
  shows "\<exists>s'. (sys_step N {})\<^sup>*\<^sup>* s s' \<and> list_all (\<lambda>es. es = []) (sys_workers s') \<and>
    sys_taken s' = 0 \<and> active_total (sys_metrics s') = 0"
proof -
  have "phases effs \<and> slots effs = 0 \<and> active_total (metric_calls effs) = 0" if "effs \<in> traces" for effs
    using assms(3) [OF that] by (elim exE conjE) (rule Reconcile_phases)
  from reachable_inv [OF assms(1) _ this] assms(2) have "sys_inv N n s" by simp
  from sys_finishes [OF this assms(2)] obtain s' where
    s': "(sys_step N {})\<^sup>*\<^sup>* s s'" "sys_inv N n s'" "list_all (\<lambda>es. es = []) (sys_workers s')" by blast
  from s'(3) have "map slots (sys_workers s') = map (\<lambda>_. 0) (sys_workers s')"
    by (auto simp: list_all_iff)
  then have "sys_taken s' = 0" using s'(2) unfolding sys_inv_def by (simp del: map_eq_conv)
  with sys_inv_bounds [OF s'(2)] s' show ?thesis by (intro exI [of _ s']) auto
qed

theorem reconciles_can_finish_witness:
  "\<exists>effs s'. effs \<noteq> [] \<and> (sys_step 1 {})\<^sup>*\<^sup>* (started effs) s' \<and> sys_taken s' = 0"
proof -
  obtain effs where tr: "\<exists>(E :: int kube) rc ctx ns name w out w'.
      rc_WarmupSemaphore rc \<and> Reconcile E rc ctx ns name w = Some (out, effs, w')" "effs \<noteq> []"
    by (rule sample_trace)
  have "\<exists>s'. (sys_step 1 {})\<^sup>*\<^sup>* (started effs) s' \<and> list_all (\<lambda>es. es = []) (sys_workers s') \<and>
      sys_taken s' = 0 \<and> active_total (sys_metrics s') = 0"
    by (rule reconciles_can_finish [OF started_reachable]) (use tr(1) in simp_all)
  with tr(2) show ?thesis by blast
qed

end
