(* ===== verification/Go_Flag.thy ===== *)
theory Go_Flag
  imports Go_Num
begin

text \<open>
  Package \<^verbatim>\<open>flag\<close>: the syntax of a command line, and the values of the three kinds of flags the programs use
  (\<^verbatim>\<open>strconv.ParseBool\<close>, \<^verbatim>\<open>strconv.ParseInt(s, 0, 64)\<close>, strings). The flags of the two programs are in
  a set with \<^verbatim>\<open>ExitOnError\<close>: an error ends the process with code 2, a request for help with code 0.
\<close>

section \<open>Values\<close>

definition ParseBool :: "string \<Rightarrow> bool option" where
  "ParseBool s =
     (if s \<in> {''1'', ''t'', ''T'', ''true'', ''TRUE'', ''True''} then Some True
      else if s \<in> {''0'', ''f'', ''F'', ''false'', ''FALSE'', ''False''} then Some False
      else None)"

text \<open>
  \<^verbatim>\<open>ParseUint\<close> with base 0. A syntax error and a range error are both \<open>None\<close>: the flag package treats them
  alike. \<open>lower c\<close> is \<^verbatim>\<open>c | 0x20\<close>, on the letters.
\<close>

definition lower :: "char \<Rightarrow> nat" where
  "lower c = (let b = of_char c :: nat in if 65 \<le> b \<and> b \<le> 90 then b + 32 else b)"

definition digit_in :: "int \<Rightarrow> char \<Rightarrow> int option" where
  "digit_in base c =
     (let d = (if is_digit c then digit_val c
               else if 97 \<le> lower c \<and> lower c \<le> 122 then int (lower c) - 87 else base)
      in if d < base then Some d else None)"

fun digits_in :: "int \<Rightarrow> string \<Rightarrow> int \<Rightarrow> int option" where
  "digits_in base [] n = Some n"
| "digits_in base (c # cs) n =
     (if c = CHR ''_'' then digits_in base cs n
      else case digit_in base c of
        None \<Rightarrow> None
      | Some d \<Rightarrow> if n * base + d > 18446744073709551615 then None else digits_in base cs (n * base + d))"

definition prefixed :: "string \<Rightarrow> nat \<Rightarrow> bool" where
  "prefixed s b \<longleftrightarrow> length s \<ge> 3 \<and> s ! 0 = CHR ''0'' \<and> lower (s ! 1) = b"

definition base_of :: "string \<Rightarrow> int \<times> string" where
  "base_of s =
     (if prefixed s 98 then (2, drop 2 s)
      else if prefixed s 111 then (8, drop 2 s)
      else if prefixed s 120 then (16, drop 2 s)
      else if s ! 0 = CHR ''0'' then (8, drop 1 s)
      else (10, s))"

text \<open>\<^verbatim>\<open>underscoreOK\<close>: the loop, with what was seen last.\<close>

datatype seen = Begin | Digit | Underscore | Other

fun underscores_ok :: "bool \<Rightarrow> seen \<Rightarrow> string \<Rightarrow> bool" where
  "underscores_ok hex saw [] \<longleftrightarrow> saw \<noteq> Underscore"
| "underscores_ok hex saw (c # cs) \<longleftrightarrow>
     (if is_digit c \<or> hex \<and> 97 \<le> lower c \<and> lower c \<le> 102 then underscores_ok hex Digit cs
      else if c = CHR ''_'' then saw = Digit \<and> underscores_ok hex Underscore cs
      else saw \<noteq> Underscore \<and> underscores_ok hex Other cs)"

definition underscoreOK :: "string \<Rightarrow> bool" where
  "underscoreOK s =
     (if length s \<ge> 2 \<and> s ! 0 = CHR ''0'' \<and> lower (s ! 1) \<in> {98, 111, 120}
      then underscores_ok (lower (s ! 1) = 120) Digit (drop 2 s)
      else underscores_ok False Begin s)"

definition ParseUint0 :: "string \<Rightarrow> int option" where
  "ParseUint0 s =
     (if s = [] then None
      else let (base, digits) = base_of s
           in case digits_in base digits 0 of
                None \<Rightarrow> None
              | Some n \<Rightarrow> if CHR ''_'' \<in> set digits \<and> \<not> underscoreOK s then None else Some n)"

definition ParseInt0 :: "string \<Rightarrow> int option" where
  "ParseInt0 s =
     (if s = [] then None
      else let neg = (hd s = CHR ''-'');
               body = (if hd s = CHR ''-'' \<or> hd s = CHR ''+'' then tl s else s)
           in case ParseUint0 body of
                None \<Rightarrow> None
              | Some u \<Rightarrow>
                  if \<not> neg \<and> u \<ge> 9223372036854775808 then None
                  else if neg \<and> u > 9223372036854775808 then None
                  else Some (if neg then - u else u))"

section \<open>The command line\<close>

text \<open>
  A flag stores a value into the variables \<open>'f\<close> of the program. A flag that a library has added is a
  \<open>LibFlag\<close>: whether it is boolean and which values it accepts.
\<close>

datatype 'f flag_var =
    BoolVar "bool \<Rightarrow> 'f \<Rightarrow> 'f"
  | IntVar "int \<Rightarrow> 'f \<Rightarrow> 'f"
  | StringVar "string \<Rightarrow> 'f \<Rightarrow> 'f"
  | LibFlag bool "string \<Rightarrow> bool"

fun is_bool_flag :: "'f flag_var \<Rightarrow> bool" where
  "is_bool_flag (BoolVar _) = True"
| "is_bool_flag (LibFlag b _) = b"
| "is_bool_flag _ = False"

text \<open>\<^verbatim>\<open>Value.Set\<close>: \<open>None\<close> when the text is not a value of the flag.\<close>

fun set_flag :: "'f flag_var \<Rightarrow> string \<Rightarrow> 'f \<Rightarrow> 'f option" where
  "set_flag (BoolVar f) s v = map_option (\<lambda>b. f b v) (ParseBool s)"
| "set_flag (IntVar f) s v = map_option (\<lambda>n. f n v) (ParseInt0 s)"
| "set_flag (StringVar f) s v = Some (f s v)"
| "set_flag (LibFlag _ accepts) s v = (if accepts s then Some v else None)"

text \<open>The name of a flag and the value after the first equals sign that is not its first byte.\<close>

fun split_eq :: "string \<Rightarrow> string \<times> string option" where
  "split_eq [] = ([], None)"
| "split_eq (c # cs) =
     (if CHR ''='' \<in> set cs
      then (c # takeWhile (\<lambda>x. x \<noteq> CHR ''='') cs, Some (tl (dropWhile (\<lambda>x. x \<noteq> CHR ''='') cs)))
      else (c # cs, None))"

text \<open>
  \<^verbatim>\<open>parseOne\<close>: no more flags, an exit code of the process, or a flag stored and the arguments left.
\<close>

datatype 'f parse_step = Stop | Exit int | Next "string list" 'f

definition store_flag :: "'f flag_var \<Rightarrow> string \<Rightarrow> string list \<Rightarrow> 'f \<Rightarrow> 'f parse_step" where
  "store_flag fl x rest v = (case set_flag fl x v of None \<Rightarrow> Exit 2 | Some v' \<Rightarrow> Next rest v')"

definition parse_flag :: "'f flag_var \<Rightarrow> string option \<Rightarrow> string list \<Rightarrow> 'f \<Rightarrow> 'f parse_step" where
  "parse_flag fl value args v =
     (if is_bool_flag fl then store_flag fl (the_default ''true'' value) args v
      else case value of
        Some x \<Rightarrow> store_flag fl x args v
      | None \<Rightarrow> (case args of [] \<Rightarrow> Exit 2 | x # rest \<Rightarrow> store_flag fl x rest v))"

fun parseOne :: "(string \<Rightarrow> 'f flag_var option) \<Rightarrow> string list \<Rightarrow> 'f \<Rightarrow> 'f parse_step" where
  "parseOne formal [] v = Stop"
| "parseOne formal (s # args) v =
     (if length s < 2 \<or> s ! 0 \<noteq> CHR ''-'' \<or> s = ''--'' then Stop
      else let name0 = (if s ! 1 = CHR ''-'' then drop 2 s else drop 1 s)
           in if name0 ! 0 = CHR ''-'' \<or> name0 ! 0 = CHR ''='' then Exit 2
              else let (name, value) = split_eq name0
                   in case formal name of
                        None \<Rightarrow> if name = ''help'' \<or> name = ''h'' then Exit 0 else Exit 2
                      | Some fl \<Rightarrow> parse_flag fl value args v)"

lemma parse_flag_Next:
  "parse_flag fl value args v = Next rest v' \<Longrightarrow>
     length rest \<le> length args \<and> (\<exists>x. set_flag fl x v = Some v')"
  by (auto simp: parse_flag_def store_flag_def split: if_splits option.splits list.splits)

lemma parseOne_Next:
  assumes "parseOne formal args v = Next rest v'"
  shows "length rest < length args \<and> (\<exists>name fl x. formal name = Some fl \<and> set_flag fl x v = Some v')"
proof (cases args)
  case (Cons s as)
  with assms obtain name fl val where "formal name = Some fl" "parse_flag fl val as v = Next rest v'"
    by (auto simp: Let_def split: if_splits prod.splits option.splits)
  with parse_flag_Next [of fl val as v rest v'] Cons show ?thesis by auto
qed (use assms in simp)

text \<open>\<^verbatim>\<open>Parse\<close>; \<open>Inl\<close> is the exit code of the process.\<close>

function flag_Parse :: "(string \<Rightarrow> 'f flag_var option) \<Rightarrow> string list \<Rightarrow> 'f \<Rightarrow> int + 'f" where
  "flag_Parse formal args v =
     (case parseOne formal args v of
        Stop \<Rightarrow> Inr v
      | Exit code \<Rightarrow> Inl code
      | Next rest v' \<Rightarrow> flag_Parse formal rest v')"
  by pat_completeness auto
termination
  by (relation "measure (\<lambda>(formal, args, v). length args)") (auto dest: parseOne_Next)

declare flag_Parse.simps [simp del]

section \<open>Lemmas\<close>

lemma digit_in_ten: "is_digit c \<Longrightarrow> c \<noteq> CHR ''_'' \<and> digit_in 10 c = Some (digit_val c)"
  using digit_val_bounds [of c] by (auto simp: digit_in_def is_digit_def)

lemma digits_in_parse_uint: "parse_uint s n = Inr v \<Longrightarrow> digits_in 10 s n = Some v"
  by (induction s n rule: parse_uint.induct) (auto simp: digit_in_ten split: if_splits)

lemma hd_dec_nat_pos: "0 < n \<Longrightarrow> hd (dec_nat n) \<noteq> CHR ''0''"
proof (induction n rule: dec_nat_induct)
  case (small n)
  have "digit_val (CHR ''0'') = 0" by (simp add: digit_val_def)
  with small digit_val_digit_char [of n] have "digit_char n \<noteq> CHR ''0''" by fastforce
  with small show ?case by (simp add: dec_nat_small)
next
  case (large n)
  then show ?case by (simp add: dec_nat_large hd_append)
qed

lemma ParseUint0_dec_nat:
  assumes "int n \<le> 18446744073709551615"
  shows "ParseUint0 (dec_nat n) = Some (int n)"
proof (cases "n = 0")
  case True
  have "digit_char 0 = CHR ''0''" by code_simp
  with True have "dec_nat n = ''0''" by (simp add: dec_nat_small)
  with True show ?thesis by (simp add: ParseUint0_def base_of_def prefixed_def)
next
  case False
  then have "dec_nat n ! 0 \<noteq> CHR ''0''" using hd_dec_nat_pos [of n] by (simp add: hd_conv_nth)
  then have "base_of (dec_nat n) = (10, dec_nat n)" by (simp add: base_of_def prefixed_def)
  moreover have "CHR ''_'' \<notin> set (dec_nat n)"
    using dec_nat_digits [of n] digit_in_ten by (auto simp: list_all_iff)
  ultimately show ?thesis
    using digits_in_parse_uint [OF parse_uint_dec_nat [OF assms]] by (simp add: ParseUint0_def)
qed

lemma ParseInt0_Itoa: "in_int64 n \<Longrightarrow> ParseInt0 (Itoa n) = Some n"
  using ParseUint0_dec_nat [of "nat n"] ParseUint0_dec_nat [of "nat (- n)"] digit_not_sign [OF hd_dec_nat [of "nat n"]]
  by (cases "n < 0") (simp_all add: ParseInt0_def Itoa_dec_nat in_int64_def)

text \<open>The text of a bool that \<^verbatim>\<open>ParseBool\<close> reads back.\<close>

definition bool_text :: "bool \<Rightarrow> string" where
  "bool_text b = (if b then ''true'' else ''false'')"

lemma ParseBool_bool_text [simp]: "ParseBool (bool_text b) = Some b"
  by (simp add: bool_text_def ParseBool_def)

text \<open>A flag with its value in one argument.\<close>

definition flag_arg :: "string \<Rightarrow> string \<Rightarrow> string" where
  "flag_arg name x = ''--'' @ name @ ''='' @ x"

definition flag_name :: "string \<Rightarrow> bool" where
  "flag_name name \<longleftrightarrow> name \<noteq> [] \<and> hd name \<noteq> CHR ''-'' \<and> CHR ''='' \<notin> set name"

lemma split_eq_name: "flag_name name \<Longrightarrow> split_eq (name @ CHR ''='' # x) = (name, Some x)"
  by (cases name) (auto simp: flag_name_def takeWhile_append dropWhile_append)

lemma flag_Parse_arg:
  assumes "flag_name name" and "formal name = Some fl" and "set_flag fl x v = Some v'"
  shows "flag_Parse formal (flag_arg name x # args) v = flag_Parse formal args v'"
proof -
  from assms(1) have "(name @ CHR ''='' # x) ! 0 \<noteq> CHR ''-'' \<and> (name @ CHR ''='' # x) ! 0 \<noteq> CHR ''=''"
    by (cases name) (auto simp: flag_name_def)
  with assms split_eq_name [OF assms(1), of x]
  have "parseOne formal (flag_arg name x # args) v = Next args v'"
    by (simp add: flag_arg_def parse_flag_def store_flag_def)
  then show ?thesis by (subst flag_Parse.simps) simp
qed

text \<open>The first argument that is not a flag ends the flags, and so does the end of the arguments.\<close>

lemma flag_Parse_end:
  "flag_Parse formal [] v = Inr v"
  "s = [] \<or> hd s \<noteq> CHR ''-'' \<Longrightarrow> flag_Parse formal (s # args) v = Inr v"
  by (simp add: flag_Parse.simps, cases s) (simp_all add: flag_Parse.simps)

lemma parseOne_exit: "parseOne formal args v = Exit code \<Longrightarrow> code = 0 \<or> code = 2"
  by (cases args)
    (auto simp: Let_def parse_flag_def store_flag_def split: if_splits option.splits prod.splits list.splits)

lemma flag_Parse_exit: "flag_Parse formal args v = Inl code \<Longrightarrow> code = 0 \<or> code = 2"
proof (induction formal args v rule: flag_Parse.induct)
  case (1 formal args v)
  then show ?case
    by (cases "parseOne formal args v") (auto simp: flag_Parse.simps [of formal args] dest: parseOne_exit)
qed

lemma flag_Parse_invariant:
  assumes "\<And>name fl x v v'. formal name = Some fl \<Longrightarrow> set_flag fl x v = Some v' \<Longrightarrow> P v \<Longrightarrow> P v'"
  shows "flag_Parse formal args v = Inr v' \<Longrightarrow> P v \<Longrightarrow> P v'"
  using assms
proof (induction formal args v rule: flag_Parse.induct)
  case (1 formal args v)
  show ?case
  proof (cases "parseOne formal args v")
    case (Next rest v1)
    with "1.prems"(1) have rest: "flag_Parse formal rest v1 = Inr v'" by (simp add: flag_Parse.simps [of formal args])
    from parseOne_Next [OF Next] "1.prems"(2,3) have "P v1" by blast
    with "1.IH" [OF Next rest] "1.prems"(3) show ?thesis by blast
  qed (use "1.prems" in \<open>simp_all add: flag_Parse.simps [of formal args]\<close>)
qed

lemma digits_in_nonneg: "digits_in base s n = Some v \<Longrightarrow> 0 \<le> n \<Longrightarrow> 0 \<le> base \<Longrightarrow> 0 \<le> v"
proof (induction base s n rule: digits_in.induct)
  case (2 base c cs n)
  show ?case
  proof (cases "c = CHR ''_''")
    case False
    with "2.prems"(1) obtain d where d: "digit_in base c = Some d" "digits_in base cs (n * base + d) = Some v"
      by (auto split: option.splits if_splits)
    then have "0 \<le> d" using digit_val_bounds [of c] "2.prems"(3)
      by (auto simp: digit_in_def Let_def split: if_splits)
    from False d "2.prems"(1) have fits: "\<not> n * base + d > 18446744073709551615" by (auto split: if_splits)
    from \<open>0 \<le> d\<close> "2.prems" have "0 \<le> n * base + d" by simp
    with "2.IH"(2) [OF False d(1) fits d(2)] "2.prems"(3) show ?thesis by blast
  qed (use 2 in simp)
qed simp

lemma ParseInt0_in_int64:
  assumes "ParseInt0 s = Some n" shows "in_int64 n"
proof -
  have "0 \<le> u" if "ParseUint0 t = Some u" for t u
    using that digits_in_nonneg [of _ _ 0 u]
    by (auto simp: ParseUint0_def base_of_def split: if_splits option.splits prod.splits)
  note u = this
  from assms show ?thesis
    using u [of s n] u [of "tl s" n] u [of "tl s" "- n"]
    by (auto simp: ParseInt0_def in_int64_def Let_def split: if_splits option.splits)
qed

end
