(* ===== verification/Manager.thy ===== *)
theory Manager
  imports Concurrency Go_Flag
begin

text \<open>
  The entry point (cmd/controller/main.go) and the registration of the controller
  (PodReconciler.SetupWithManager). The command line is parsed into a record of flags; what
  main does then is the sequence of its calls on the manager, each of which may fail, and its exit code; and
  the reconciler it builds is the one of \<open>Controller\<close> with the two executors and the semaphore.
\<close>

section \<open>Flags\<close>

record flags =
  fl_metricsAddr :: string
  fl_probeAddr :: string
  fl_webhookPort :: int
  fl_certDir :: string
  fl_enableLeaderElection :: bool
  fl_showVersion :: bool
  fl_enableWebhook :: bool
  fl_enableController :: bool
  fl_nodeName :: string
  fl_maxConcurrentWarmups :: int
  fl_maxWarmupRPS :: int

definition default_flags :: flags where
  "default_flags =
     \<lparr>fl_metricsAddr = '':8080'', fl_probeAddr = '':8081'', fl_webhookPort = 9443,
      fl_certDir = ''/tmp/k8s-webhook-server/serving-certs'', fl_enableLeaderElection = False,
      fl_showVersion = False, fl_enableWebhook = True, fl_enableController = True, fl_nodeName = [],
      fl_maxConcurrentWarmups = 10, fl_maxWarmupRPS = 100\<rparr>"

text \<open>
  The flags of the program, and after them those that the libraries add to the same set (the options of zap, and
  the kubeconfig of controller-runtime), which the parameter \<open>lib\<close> stands for.
\<close>

definition main_flags :: "(string \<Rightarrow> (bool \<times> (string \<Rightarrow> bool)) option) \<Rightarrow> string \<Rightarrow> flags flag_var option" where
  "main_flags lib name =
     (case map_of
        [(''metrics-bind-address'', StringVar (\<lambda>x fl. fl\<lparr>fl_metricsAddr := x\<rparr>)),
         (''health-probe-bind-address'', StringVar (\<lambda>x fl. fl\<lparr>fl_probeAddr := x\<rparr>)),
         (''webhook-port'', IntVar (\<lambda>x fl. fl\<lparr>fl_webhookPort := x\<rparr>)),
         (''cert-dir'', StringVar (\<lambda>x fl. fl\<lparr>fl_certDir := x\<rparr>)),
         (''leader-elect'', BoolVar (\<lambda>x fl. fl\<lparr>fl_enableLeaderElection := x\<rparr>)),
         (''version'', BoolVar (\<lambda>x fl. fl\<lparr>fl_showVersion := x\<rparr>)),
         (''enable-webhook'', BoolVar (\<lambda>x fl. fl\<lparr>fl_enableWebhook := x\<rparr>)),
         (''enable-controller'', BoolVar (\<lambda>x fl. fl\<lparr>fl_enableController := x\<rparr>)),
         (''node-name'', StringVar (\<lambda>x fl. fl\<lparr>fl_nodeName := x\<rparr>)),
         (''max-concurrent-warmups'', IntVar (\<lambda>x fl. fl\<lparr>fl_maxConcurrentWarmups := x\<rparr>)),
         (''max-warmup-rps'', IntVar (\<lambda>x fl. fl\<lparr>fl_maxWarmupRPS := x\<rparr>))] name of
        Some var \<Rightarrow> Some var
      | None \<Rightarrow> map_option (\<lambda>(is_bool, accepts). LibFlag is_bool accepts) (lib name))"

section \<open>Options of the manager\<close>

record mgr_options =
  mo_MetricsBindAddress :: string
  mo_HealthProbeBindAddress :: string
  mo_LeaderElection :: bool
  mo_LeaderElectionID :: string
  mo_WebhookServer :: "(int \<times> string) option"
  mo_PodField :: "(string \<times> string) option"

definition mgrOptions :: "flags \<Rightarrow> mgr_options" where
  "mgrOptions fl =
     \<lparr>mo_MetricsBindAddress = fl_metricsAddr fl, mo_HealthProbeBindAddress = fl_probeAddr fl,
      mo_LeaderElection = fl_enableLeaderElection fl, mo_LeaderElectionID = ''kube-booster.io'',
      mo_WebhookServer = (if fl_enableWebhook fl then Some (fl_webhookPort fl, fl_certDir fl) else None),
      mo_PodField = (if fl_nodeName fl \<noteq> [] then Some (''spec.nodeName'', fl_nodeName fl) else None)\<rparr>"

section \<open>The reconciler that main builds\<close>

text \<open>\<^verbatim>\<open>float64(n)\<close> of an int.\<close>

definition int_to_float :: "int \<Rightarrow> rat" where
  "int_to_float n = (if n < 0 then - rnd64 (of_int (- n)) else rnd64 (of_int n))"

definition main_rateLimiter :: "(int \<Rightarrow> int) \<Rightarrow> flags \<Rightarrow> limiter option" where
  "main_rateLimiter oob fl = NewRequestRateLimiter oob (int_to_float (fl_maxWarmupRPS fl))"

text \<open>The slots of the semaphore; \<open>None\<close> is the nil pointer, without a limit.\<close>

definition main_semaphore :: "flags \<Rightarrow> int option" where
  "main_semaphore fl = (if fl_maxConcurrentWarmups fl > 0 then Some (fl_maxConcurrentWarmups fl) else None)"

definition main_reconciler :: "('w, 'x) kube_scheme \<Rightarrow> (int \<Rightarrow> int) \<Rightarrow> flags \<Rightarrow> 'w reconciler" where
  "main_reconciler E oob fl =
     (let rateLimiter = main_rateLimiter oob fl;
          warmupExecutor = NewWarmupExecutor [WithRateLimiter rateLimiter];
          scenarioExecutor = NewScenarioExecutor [WithScenarioRateLimiter rateLimiter]
      in \<lparr>rc_WarmupExecutor = Some (Execute E warmupExecutor),
          rc_ScenarioExecutor = Some (ExecuteScenario E scenarioExecutor),
          rc_WarmupSemaphore = (main_semaphore fl \<noteq> None)\<rparr>)"

section \<open>Registration of the controller\<close>

text \<open>
  SetupWithManager registers the controller for pods with the event filter. What it sets up, as a function:
  the key that an event puts into the workqueue, which is the namespace and name of the (new) object,
  or nothing when the filter rejects the event or the object is not a pod.
\<close>

fun event_object :: "watch_event \<Rightarrow> k8s_object" where
  "event_object (CreateEvent obj) = obj"
| "event_object (UpdateEvent old new) = new"
| "event_object (DeleteEvent obj) = obj"
| "event_object (GenericEvent obj) = obj"

definition SetupWithManager :: "watch_event \<Rightarrow> (string \<times> string) option" where
  "SetupWithManager ev =
     (case event_object ev of
        OtherObject \<Rightarrow> None
      | PodObject p \<Rightarrow> if HasReadinessGatePredicate ev then Some (pod_Namespace p, pod_Name p) else None)"

section \<open>main\<close>

datatype main_call =
    PrintVersion
  | NewManager mgr_options
  | SetupController
  | RegisterWebhook string
  | AddHealthzCheck string
  | AddReadyzCheck string
  | StartManager

text \<open>\<open>fails\<close> says which of the calls that can fail do; each failure is logged and exits with code 1.\<close>

fun can_fail :: "main_call \<Rightarrow> bool" where
  "can_fail PrintVersion = False"
| "can_fail (RegisterWebhook _) = False"
| "can_fail _ = True"

fun run_calls :: "(main_call \<Rightarrow> bool) \<Rightarrow> main_call list \<Rightarrow> main_call list \<times> int" where
  "run_calls fails [] = ([], 0)"
| "run_calls fails (c # cs) =
     (if can_fail c \<and> fails c then ([c], 1)
      else case run_calls fails cs of (done_calls, code) \<Rightarrow> (c # done_calls, code))"

definition main_calls :: "flags \<Rightarrow> main_call list" where
  "main_calls fl =
     (if fl_showVersion fl then [PrintVersion]
      else [NewManager (mgrOptions fl)] @
           (if fl_enableController fl then [SetupController] else []) @
           (if fl_enableWebhook fl then [RegisterWebhook ''/mutate-v1-pod''] else []) @
           [AddHealthzCheck ''healthz'', AddReadyzCheck ''readyz'', StartManager])"

definition main :: "(main_call \<Rightarrow> bool) \<Rightarrow> flags \<Rightarrow> main_call list \<times> int" where
  "main fails fl = run_calls fails (main_calls fl)"

text \<open>The whole process, from the command line to the exit code.\<close>

definition main_process ::
  "(string \<Rightarrow> (bool \<times> (string \<Rightarrow> bool)) option) \<Rightarrow> (main_call \<Rightarrow> bool) \<Rightarrow> string list \<Rightarrow> main_call list \<times> int" where
  "main_process lib fails args =
     (case flag_Parse (main_flags lib) args default_flags of
        Inl code \<Rightarrow> ([], code)
      | Inr fl \<Rightarrow> main fails fl)"

section \<open>Lemmas\<close>

text \<open>The command line that sets every flag.\<close>

definition flag_args :: "flags \<Rightarrow> string list" where
  "flag_args fl =
     [flag_arg ''metrics-bind-address'' (fl_metricsAddr fl),
      flag_arg ''health-probe-bind-address'' (fl_probeAddr fl),
      flag_arg ''webhook-port'' (Itoa (fl_webhookPort fl)),
      flag_arg ''cert-dir'' (fl_certDir fl),
      flag_arg ''leader-elect'' (bool_text (fl_enableLeaderElection fl)),
      flag_arg ''version'' (bool_text (fl_showVersion fl)),
      flag_arg ''enable-webhook'' (bool_text (fl_enableWebhook fl)),
      flag_arg ''enable-controller'' (bool_text (fl_enableController fl)),
      flag_arg ''node-name'' (fl_nodeName fl),
      flag_arg ''max-concurrent-warmups'' (Itoa (fl_maxConcurrentWarmups fl)),
      flag_arg ''max-warmup-rps'' (Itoa (fl_maxWarmupRPS fl))]"

definition flags_in_range :: "flags \<Rightarrow> bool" where
  "flags_in_range fl \<longleftrightarrow> in_int64 (fl_webhookPort fl) \<and> in_int64 (fl_maxConcurrentWarmups fl) \<and>
     in_int64 (fl_maxWarmupRPS fl)"

lemma flag_args_parse:
  assumes "flags_in_range fl"
  shows "flag_Parse (main_flags lib) (flag_args fl @ args) v = flag_Parse (main_flags lib) args fl"
  using assms
  by (cases v; cases fl) (simp add: flag_args_def flags_in_range_def flag_Parse_arg flag_name_def main_flags_def ParseInt0_Itoa)

lemma main_flags_range:
  "main_flags lib name = Some var \<Longrightarrow> set_flag var x fl = Some fl' \<Longrightarrow> flags_in_range fl \<Longrightarrow> flags_in_range fl'"
  by (auto simp: main_flags_def flags_in_range_def split: if_splits option.splits) (erule ParseInt0_in_int64)+

lemma run_calls_prefix: "prefix (fst (run_calls fails cs)) cs"
  by (induction cs) (auto split: prod.splits)

lemma run_calls_ok:
  "snd (run_calls fails cs) = 0 \<longleftrightarrow> (\<forall>c \<in> set cs. can_fail c \<longrightarrow> \<not> fails c)"
  by (induction cs) (auto split: prod.splits)

lemma run_calls_code: "snd (run_calls fails cs) \<in> {0, 1}"
  by (induction cs) (auto split: prod.splits)

lemma run_calls_all: "snd (run_calls fails cs) = 0 \<Longrightarrow> fst (run_calls fails cs) = cs"
  by (induction cs) (auto split: prod.splits if_splits)

lemma run_calls_last:
  "c \<notin> set cs \<Longrightarrow> c \<in> set (fst (run_calls fails (cs @ [c]))) \<longleftrightarrow> (\<forall>d \<in> set cs. can_fail d \<longrightarrow> \<not> fails d)"
  "(\<forall>d \<in> set cs. can_fail d \<longrightarrow> \<not> fails d) \<Longrightarrow> fst (run_calls fails (cs @ [c])) = cs @ [c]"
  by (induction cs) (auto split: prod.splits)

lemma main_calls_start:
  assumes "\<not> fl_showVersion fl"
  shows "main_calls fl = butlast (main_calls fl) @ [StartManager] \<and> StartManager \<notin> set (butlast (main_calls fl)) \<and>
    (SetupController \<in> set (main_calls fl) \<longleftrightarrow> fl_enableController fl) \<and>
    (RegisterWebhook ''/mutate-v1-pod'' \<in> set (main_calls fl) \<longleftrightarrow> mo_WebhookServer (mgrOptions fl) \<noteq> None)"
  using assms by (cases "fl_enableController fl"; cases "fl_enableWebhook fl")
    (simp_all add: main_calls_def mgrOptions_def)

text \<open>Conversion of an int to float64: never zero for a positive one, and exact up to \<open>2 ^ 53\<close>.\<close>

lemma ilog2_bounds: "1 \<le> n \<Longrightarrow> 0 \<le> ilog2 n \<and> 2 ^ nat (ilog2 n) \<le> n \<and> n < 2 ^ Suc (nat (ilog2 n))"
proof (induction n rule: ilog2.induct)
  case (1 n)
  show ?case
  proof (cases "n < 2")
    case True
    with 1(2) show ?thesis by (simp add: ilog2.simps)
  next
    case False
    then have "1 \<le> n div 2" by simp
    from 1(1) [OF False this] have IH: "0 \<le> ilog2 (n div 2)" "2 ^ nat (ilog2 (n div 2)) \<le> n div 2"
      "n div 2 < 2 ^ Suc (nat (ilog2 (n div 2)))" by simp_all
    have l: "ilog2 n = 1 + ilog2 (n div 2)" using False by (simp add: ilog2.simps [of n])
    have "nat (ilog2 n) = Suc (nat (ilog2 (n div 2)))" using l IH(1) by simp
    moreover have "n = 2 * (n div 2) + n mod 2" "0 \<le> n mod 2" "n mod 2 < 2" by simp_all
    ultimately show ?thesis using IH l by (simp add: power_Suc) linarith
  qed
qed

lemma exp2_of_int:
  assumes "1 \<le> n" shows "exp2_of (of_int n) = ilog2 n"
proof -
  have "(of_int (2 ^ nat (ilog2 n)) :: rat) \<le> of_int n" using ilog2_bounds [OF assms] by (simp only: of_int_le_iff)
  then have "pow2 (ilog2 n) \<le> of_int n" using ilog2_bounds [OF assms] by (simp add: pow2_def)
  then show ?thesis by (simp add: exp2_of_def ilog2.simps [of 1])
qed

lemma half_even_int [simp]: "half_even (of_int k) = k"
  by (simp add: half_even_def)

lemma half_even_ge: "of_int k \<le> x \<Longrightarrow> k \<le> half_even x"
proof -
  assume "of_int k \<le> x"
  then have "k \<le> \<lfloor>x\<rfloor>" by (simp add: le_floor_iff)
  then show ?thesis by (simp add: half_even_def Let_def)
qed

lemma rnd64_exact:
  assumes "1 \<le> n" and e: "ilog2 n \<le> 52" shows "rnd64 (of_int n) = of_int n"
proof -
  let ?k = "nat (52 - ilog2 n)"
  have u: "pow2 (max (ilog2 n - 52) (- 1074)) = 1 / 2 ^ ?k"
    using e ilog2_bounds [OF assms(1)] by (auto simp: pow2_def max_def)
  have "half_even (of_int n / (1 / 2 ^ ?k)) = half_even (of_int (n * 2 ^ ?k))" by simp
  also have "\<dots> = n * 2 ^ ?k" by (rule half_even_int)
  finally have "half_even (of_int n / (1 / 2 ^ ?k)) = n * 2 ^ ?k" .
  moreover have "rnd64 (of_int n) = of_int (half_even (of_int n / (1 / 2 ^ ?k))) * (1 / 2 ^ ?k)"
    using assms(1) by (simp add: rnd64_def exp2_of_int Let_def u)
  ultimately show ?thesis by simp
qed

lemma ilog2_53:
  assumes "1 \<le> n" and "n < 2 ^ 53" shows "ilog2 n \<le> 52"
proof -
  have "(2 :: int) ^ nat (ilog2 n) < 2 ^ 53" using ilog2_bounds [OF assms(1)] assms(2) by linarith
  then have "nat (ilog2 n) < 53" by (rule power_less_imp_less_exp [rotated]) simp
  then show ?thesis by simp
qed

lemma rnd64_pos:
  assumes "1 \<le> n" shows "rnd64 (of_int n) > 0"
proof (cases "ilog2 n \<le> 52")
  case True
  with rnd64_exact [OF assms True] assms show ?thesis by simp
next
  case False
  let ?u = "2 ^ nat (ilog2 n - 52) :: rat"
  have u: "pow2 (max (ilog2 n - 52) (- 1074)) = ?u" using False by (simp add: pow2_def)
  have "?u \<le> 2 ^ nat (ilog2 n)" by (rule power_increasing) simp_all
  also have "\<dots> = of_int (2 ^ nat (ilog2 n))" by simp
  also have "\<dots> \<le> of_int n" using ilog2_bounds [OF assms] by (simp only: of_int_le_iff)
  finally have "1 \<le> half_even (of_int n / ?u)" by (intro half_even_ge) simp
  moreover have "rnd64 (of_int n) = of_int (half_even (of_int n / ?u)) * ?u"
    using assms by (simp add: rnd64_def exp2_of_int Let_def u)
  ultimately show ?thesis by (simp add: zero_less_mult_iff)
qed

lemma int_to_float_pos: "0 < int_to_float n \<longleftrightarrow> 0 < n"
proof -
  have "rnd64 q \<ge> 0" if "q \<le> 0" for q using that by (simp add: rnd64_def)
  then show ?thesis
    using rnd64_pos [of n] rnd64_pos [of "- n"]
    by (cases "0 < n"; cases "n < 0") (auto simp: int_to_float_def rnd64_def)
qed

lemma main_rateLimiter_exact:
  assumes "1 \<le> fl_maxWarmupRPS fl" and "fl_maxWarmupRPS fl < 2 ^ 53"
  shows "main_rateLimiter oob fl =
    Some \<lparr>rl_rps = of_int (fl_maxWarmupRPS fl), rl_burst = min (fl_maxWarmupRPS fl) 100000\<rparr>"
proof -
  let ?n = "fl_maxWarmupRPS fl"
  have f: "int_to_float ?n = of_int ?n"
    using assms rnd64_exact ilog2_53 by (simp add: int_to_float_def)
  have "\<lfloor>of_int ?n + 1 / 2 :: rat\<rfloor> = ?n" by (simp add: floor_eq_iff)
  then have "math_Round (of_int ?n) = ?n" using assms(1) by (simp add: math_Round_def)
  moreover have "in_int64 ?n" using assms by (simp add: in_int64_def)
  ultimately show ?thesis
    using assms f by (simp add: main_rateLimiter_def NewRequestRateLimiter_def float_to_int_def maxBurst_def)
qed

section \<open>A reconcile that succeeds\<close>

text \<open>
  What the cluster has to do for a warmup to end: a slot of the semaphore is granted, the status update
  is accepted, the descriptors of a gRPC server can be registered, and the numbers of requests of a
  WarmupConfig add up to an int.
\<close>

definition cooperative :: "('w, 'x) kube_scheme \<Rightarrow> bool" where
  "cooperative E \<longleftrightarrow>
     (\<forall>ctx w. fst (k_acquire E ctx w) = None) \<and> (\<forall>ctx p w. fst (k_update_status E ctx p w) = None) \<and>
     (\<forall>bs. buildFileSet E bs \<noteq> None) \<and>
     (\<forall>ctx ns n w c w'. k_get_config E ctx ns n w = (Inr c, w') \<longrightarrow>
        scenario_total (spec_Steps (wc_Spec c)) \<le> max_int64)"

lemma cooperativeD:
  assumes "cooperative E"
  shows "fst (k_acquire E ctx w) = None" and "fst (k_update_status E ctx p w) = None"
    and "\<forall>bs. buildFileSet E bs \<noteq> None"
    and "k_get_config E ctx ns n w = (Inr c, w') \<Longrightarrow> scenario_total (spec_Steps (wc_Spec c)) \<le> max_int64"
  using assms unfolding cooperative_def by blast+

lemma setConditionTrue_accepted:
  assumes "cooperative E"
  shows "\<exists>up w'. setConditionTrue E ctx p res w = (None, up, w')"
proof -
  obtain t v where now: "net_now E w = (t, v)" by fastforce
  obtain err v' where up: "k_update_status E ctx (condition_set t res p) v = (err, v')" by fastforce
  with cooperativeD(2) [OF assms, of ctx "condition_set t res p" v] have "err = None" by simp
  with now up show ?thesis by (simp add: setConditionTrue_def)
qed

lemma finish_warmup_accepted:
  assumes "cooperative E" and "\<not> list_ex call_panics (if rec then result_metrics p r else [])"
  shows "\<exists>effs w'. finish_warmup E ctx p r rec w = (Return 0 None, effs, w')"
proof -
  from setConditionTrue_accepted [OF assms(1)] obtain up w' where
    "setConditionTrue E ctx p (Some r) w = (None, up, w')" by blast
  with assms(2) show ?thesis by (auto simp: finish_warmup_def)
qed

lemma main_executor_returns:
  assumes "cooperative E" and "config_wf c"
  shows "\<exists>r rec effs w'. run_executor E (main_reconciler E oob fl) ctx p c w = Some (r, rec, effs, w') \<and>
    \<not> list_ex call_panics (if rec then result_metrics p r else [])"
proof (cases "cfg_WarmupConfigName c = []")
  case True
  have ok: "(0 \<le> cfg_RequestCount c \<and> cfg_RequestCount c \<le> max_int64) \<and> (\<forall>bs. buildFileSet E bs \<noteq> None)"
    using assms cooperativeD(3) by (auto simp: config_wf_def)
  obtain r w' where
    "Execute E (NewWarmupExecutor [WithRateLimiter (main_rateLimiter oob fl)]) ctx c w = Some (r, w')"
    "\<not> list_ex call_panics (result_metrics p r)"
    by (rule simple_total.returns_recordable [OF ok]) blast
  with True show ?thesis
    by (intro exI [of _ r] exI [of _ True] exI [of _ "[]"] exI [of _ w'])
      (simp add: run_executor_def main_reconciler_def Let_def)
next
  case False
  obtain res v where get: "k_get_config E ctx (pod_Namespace p) (cfg_WarmupConfigName c) w = (res, v)"
    by fastforce
  show ?thesis
  proof (cases res)
    case (Inl err)
    have "\<not> list_ex call_panics (result_metrics p (zero_result\<lparr>res_Error := e, res_Message := m\<rparr>))" for e m
      by (simp add: result_metrics_def metric_defs zero_result_def wrap64_def)
    with False get Inl show ?thesis by (auto simp add: run_executor_def main_reconciler_def Let_def)
  next
    case (Inr wc)
    have ok: "scenario_total (spec_Steps (wc_Spec wc)) \<le> max_int64 \<and> (\<forall>bs. buildFileSet E bs \<noteq> None)"
      using cooperativeD(3,4) [OF assms(1)] get Inr by blast
    obtain r w' where
      "ExecuteScenario E (NewScenarioExecutor [WithScenarioRateLimiter (main_rateLimiter oob fl)]) ctx c
        (wc_Spec wc) v = Some (r, w')"
      "\<not> list_ex call_panics (result_metrics p r)"
      by (rule scenario_total_executor.returns_recordable [OF ok]) blast
    with False get Inr show ?thesis
      by (intro exI [of _ r] exI [of _ True] exI [of _ "[]"] exI [of _ w'])
        (simp add: run_executor_def main_reconciler_def Let_def)
  qed
qed

lemma main_warmup_body:
  assumes "cooperative E"
  shows "\<exists>effs w'. warmup_body E (main_reconciler E oob fl) ctx p w = Some (Return 0 None, effs, w')"
proof (cases "ParseConfig (Some p)")
  case (Pair c err)
  show ?thesis
  proof (cases err)
    case None
    let ?c = "c\<lparr>cfg_PodIP := pod_PodIP p, cfg_PodName := pod_Name p, cfg_PodNamespace := pod_Namespace p\<rparr>"
    from ParseConfig_wf [of "Some p"] have "config_wf ?c" by (simp add: Pair config_wf_def)
    obtain t v where now: "net_now E w = (t, v)" by fastforce
    from main_executor_returns [OF assms \<open>config_wf ?c\<close>] obtain r rec e1 v1 where
      run: "run_executor E (main_reconciler E oob fl) (WithTimeout ctx t (cfg_Timeout ?c + 5 * Second)) p ?c v =
        Some (r, rec, e1, v1)"
      and ok: "\<not> list_ex call_panics (if rec then result_metrics p r else [])" by blast
    from finish_warmup_accepted [OF assms ok] obtain e2 w' where
      "finish_warmup E ctx p r rec v1 = (Return 0 None, e2, w')" by blast
    with run show ?thesis by (simp add: warmup_body_def Pair None now Let_def)
  next
    case (Some e)
    let ?text = "cfg_error_text (net_print E) e"
    from setConditionTrue_accepted [OF assms] obtain up w' where
      "setConditionTrue E ctx p (Some (zero_result\<lparr>res_Message := ''warmup config error: '' @ ?text,
        res_Error := Some (ErrText ?text)\<rparr>)) w = (None, up, w')" by blast
    then show ?thesis by (simp add: warmup_body_def Pair Some Let_def)
  qed
qed

lemma main_with_semaphore:
  assumes "cooperative E"
  shows "\<exists>effs w'. with_semaphore E (main_reconciler E oob fl) ctx p w = Some (Return 0 None, effs, w')"
proof -
  have pod: "\<exists>effs w'. run_warmup_pod E (main_reconciler E oob fl) ctx p v = Some (Return 0 None, effs, w')" for v
    using main_warmup_body [OF assms, of oob fl ctx p v] by (auto simp: run_warmup_pod_def)
  obtain t0 w0 where n0: "net_now E w = (t0, w0)" by fastforce
  obtain e w1 where acq: "k_acquire E ctx w0 = (e, w1)" by fastforce
  obtain t1 w2 where n1: "net_now E w1 = (t1, w2)" by fastforce
  from acq cooperativeD(1) [OF assms, of ctx w0] have "e = None" by simp
  with pod [of w] pod [of w2] n0 acq n1 show ?thesis by (auto simp: with_semaphore_def)
qed

section \<open>Properties\<close>


text \<open>The cluster of the examples, with servers that send no descriptors.\<close>

definition calm_kube :: "int kube" where
  "calm_kube = sample_kube\<lparr>g_unmarshal_fdp := (\<lambda>_. Inl (ErrText []))\<rparr>"

lemma calm_kube_cooperative: "cooperative calm_kube"
proof -
  have "buildFileSet calm_kube bs \<noteq> None" for bs
    by (cases bs) (simp_all add: buildFileSet_def Let_def calm_kube_def sample_kube_def sample_grpc_def
        grpc_net.defs net.defs)
  then show ?thesis by (simp add: cooperative_def calm_kube_def sample_kube_def grpc_net.defs)
qed




text \<open>
  C31. The command line round-trips: setting every flag on the command line gives exactly these flags, whatever was
  set before (the last occurrence wins), whatever flags the libraries add, and whatever follows the first argument that
  is not a flag. Every command line either ends the process with code 0 or 2 before anything is set up, or gives
  flags whose numbers are 64-bit integers.
\<close>

theorem command_line:
  "(flags_in_range fl \<longrightarrow>
      flag_Parse (main_flags lib) (flag_args fl) v = Inr fl \<and>
      (flags_in_range fl0 \<longrightarrow> flag_Parse (main_flags lib) (flag_args fl0 @ flag_args fl) v = Inr fl) \<and>
      (\<forall>s args. s = [] \<or> hd s \<noteq> CHR ''-'' \<longrightarrow>
         flag_Parse (main_flags lib) (flag_args fl @ s # args) v = Inr fl)) \<and>
   (case flag_Parse (main_flags lib) args default_flags of
      Inl code \<Rightarrow> main_process lib fails args = ([], code) \<and> (code = 0 \<or> code = 2)
    | Inr fl \<Rightarrow> main_process lib fails args = main fails fl \<and> flags_in_range fl)"
proof -
  have "flags_in_range default_flags" by (simp add: flags_in_range_def default_flags_def in_int64_def)
  with flag_Parse_invariant [of "main_flags lib" flags_in_range args default_flags] main_flags_range
  have "flags_in_range fl'" if "flag_Parse (main_flags lib) args default_flags = Inr fl'" for fl'
    using that by blast
  moreover have "flag_Parse (main_flags lib) (flag_args fl) v = Inr fl" if "flags_in_range fl" for v
    using flag_args_parse [OF that, of lib "[]"] by (simp add: flag_Parse_end)
  ultimately show ?thesis
    using flag_Parse_exit [of "main_flags lib" args default_flags]
    by (auto simp: main_process_def flag_args_parse flag_Parse_end split: sum.split)
qed

theorem command_line_witness:
  "flags_in_range (default_flags\<lparr>fl_maxWarmupRPS := 7\<rparr>) \<and>
   flag_Parse (main_flags (\<lambda>_. None)) (flag_args (default_flags\<lparr>fl_maxWarmupRPS := 7\<rparr>)) default_flags =
     Inr (default_flags\<lparr>fl_maxWarmupRPS := 7\<rparr>)"
proof -
  have "flags_in_range (default_flags\<lparr>fl_maxWarmupRPS := 7\<rparr>)"
    by (simp add: flags_in_range_def default_flags_def in_int64_def)
  with command_line [of "default_flags\<lparr>fl_maxWarmupRPS := 7\<rparr>" "\<lambda>_. None" default_flags] show ?thesis by blast
qed



end
