(* ===== verification/Cluster.thy ===== *)
theory Cluster
  imports Reconcile_Properties
begin

text \<open>
  One pod over its whole life. The API server keeps the versions of the pod; other writers (the kubelet, users,
  other controllers) may store any new version that does not touch the warmup condition. Reconciles read the pod
  from a cache, which may be behind by any number of versions, and take their time, so that the pod
  may change before they ask for their status update. The API server stores an update only when it was made
  from the current version (the resource version, optimistic concurrency). The answer to an update may get
  lost: it is then stored although the reconcile sees an error. And the process may be killed at any point.
\<close>

section \<open>The cluster\<close>

record cluster =
  cl_versions :: "pod list"
  cl_writes :: nat
  cl_log :: "effect list"

abbreviation current :: "cluster \<Rightarrow> pod" where
  "current s \<equiv> last (cl_versions s)"

text \<open>A reconcile of one of the controllers that has read the pod \<open>p\<close>.\<close>

definition reconcile_run :: "'w reconciler \<Rightarrow> pod \<Rightarrow> outcome \<Rightarrow> effect list \<Rightarrow> bool" where
  "reconcile_run rc p out effs \<longleftrightarrow>
     (\<exists>(E :: 'w kube) ctx namespace name w w1 w'.
        k_get_pod E ctx namespace name w = (Inr p, w1) \<and>
        Reconcile E rc ctx namespace name w = Some (out, effs, w'))"

inductive cluster_step :: "'w reconciler set \<Rightarrow> cluster \<Rightarrow> cluster \<Rightarrow> bool" for rcs where
  edit: "isConditionTrue p ConditionTypeWarmupReady = isConditionTrue (current s) ConditionTypeWarmupReady \<Longrightarrow>
     cluster_step rcs s (s\<lparr>cl_versions := cl_versions s @ [p]\<rparr>)"
| reconcile: "rc \<in> rcs \<Longrightarrow> i < length (cl_versions s) \<Longrightarrow> reconcile_run rc (cl_versions s ! i) out effs \<Longrightarrow>
     prefix performed effs \<Longrightarrow>
     stored = [] \<or> stored = map fst (status_updates performed) \<and> Suc i = length (cl_versions s) \<Longrightarrow>
     (\<forall>q. (q, True) \<in> set (status_updates performed) \<longrightarrow> q \<in> set stored) \<Longrightarrow>
     cluster_step rcs s \<lparr>cl_versions = cl_versions s @ stored, cl_writes = cl_writes s + length stored,
       cl_log = cl_log s @ performed\<rparr>"

inductive cluster_reachable :: "'w reconciler set \<Rightarrow> pod \<Rightarrow> cluster \<Rightarrow> bool" for rcs p where
  created: "cluster_reachable rcs p \<lparr>cl_versions = [p], cl_writes = 0, cl_log = []\<rparr>"
| step: "cluster_reachable rcs p s \<Longrightarrow> cluster_step rcs s s' \<Longrightarrow> cluster_reachable rcs p s'"

section \<open>The one write of a reconcile\<close>

text \<open>Effects that neither ask for a status update nor announce one.\<close>

fun calm_effect :: "effect \<Rightarrow> bool" where
  "calm_effect (StatusUpdate q b) = False"
| "calm_effect (Event t r a m) \<longleftrightarrow> r \<noteq> ReasonConditionUpdated"
| "calm_effect _ = True"

abbreviation calm :: "effect list \<Rightarrow> bool" where
  "calm effs \<equiv> list_all calm_effect effs"

definition writes_once :: "pod \<Rightarrow> effect list \<Rightarrow> bool" where
  "writes_once p effs \<longleftrightarrow> calm effs \<or>
     (\<exists>a c now r b pass. calm a \<and> calm c \<and>
        effs = a @ [StatusUpdate (condition_set now r p) b] @ (if b then [condition_event pass] else []) @ c)"

lemma calm_reasons [simp]:
  "calm_effect (result_event r)" "calm (map Metric ms)"
  by (simp_all add: result_event_def go_const list_all_iff)

lemma writes_once_around: "writes_once p effs \<Longrightarrow> calm a \<Longrightarrow> calm c \<Longrightarrow> writes_once p (a @ effs @ c)"
  unfolding writes_once_def
proof (erule disjE)
  assume "calm a" "calm c"
    and "\<exists>a c now r b pass. calm a \<and> calm c \<and>
      effs = a @ [StatusUpdate (condition_set now r p) b] @ (if b then [condition_event pass] else []) @ c"
  then obtain a' c' now r b pass where "calm (a @ a')" "calm (c' @ c)" "a @ effs @ c = (a @ a') @
      [StatusUpdate (condition_set now r p) b] @ (if b then [condition_event pass] else []) @ (c' @ c)" by auto
  then show "calm (a @ effs @ c) \<or> (\<exists>a' c' now r b pass. calm a' \<and> calm c' \<and> a @ effs @ c = a' @
      [StatusUpdate (condition_set now r p) b] @ (if b then [condition_event pass] else []) @ c')" by blast
qed simp

lemma writes_onceI:
  "calm a \<Longrightarrow> writes_once p (a @ [StatusUpdate (condition_set now r p) b] @ (if b then [condition_event pass] else []))"
  unfolding writes_once_def by (intro disjI2 exI [of _ a] exI [of _ "[]"]) auto

lemma setConditionTrue_update:
  "setConditionTrue E ctx p r w = (err, up, w') \<Longrightarrow> \<exists>now. up = [StatusUpdate (condition_set now r p) (err = None)]"
  by (auto simp: setConditionTrue_def Let_def split: prod.splits)

lemma finish_warmup_writes:
  assumes "finish_warmup E ctx p r rec w = (out, effs, w')"
  shows "writes_once p effs"
proof (cases "list_ex call_panics (if rec then result_metrics p r else [])")
  case True
  with assms show ?thesis by (auto simp: finish_warmup_def Let_def writes_once_def)
next
  case False
  define ms where "ms = (if rec then result_metrics p r else [])"
  obtain err up v where up: "setConditionTrue E ctx p (Some r) w = (err, up, v)"
    by (cases "setConditionTrue E ctx p (Some r) w")
  from setConditionTrue_update [OF up] obtain now where
    now: "up = [StatusUpdate (condition_set now (Some r) p) (err = None)]" by blast
  from assms False up have "effs = (map Metric ms @ [result_event r]) @ up @
      (if err = None then [condition_event (res_Success r)] else [])"
    unfolding finish_warmup_def ms_def [symmetric] by (cases err) simp_all
  then show ?thesis
    using writes_onceI [of "map Metric ms @ [result_event r]" p now "Some r" "err = None" "res_Success r"] now by simp
qed

lemma run_executor_calm: "run_executor E rc ctx p c w = Some (r, rec, effs, w') \<Longrightarrow> calm effs"
  by (auto simp: run_executor_def Let_def go_const split: bool.splits option.splits prod.splits sum.splits)

lemma warmup_body_writes:
  assumes "warmup_body E rc ctx p w = Some (out, effs, w')"
  shows "writes_once p effs"
proof (cases "snd (ParseConfig (Some p))")
  case None
  then obtain c where c: "ParseConfig (Some p) = (c, None)" by (metis prod.collapse)
  from assms obtain ctx' c' v r rec e1 e2 v1 where
    run: "run_executor E rc ctx' p c' v = Some (r, rec, e1, v1)"
    and fin: "finish_warmup E ctx p r rec v1 = (out, e2, w')" and effs: "effs = e1 @ e2"
    by (auto simp: warmup_body_def c Let_def split: option.splits prod.splits)
  from writes_once_around [OF finish_warmup_writes [OF fin] run_executor_calm [OF run], of "[]"]
  show ?thesis by (simp add: effs)
next
  case (Some err)
  then obtain c where c: "ParseConfig (Some p) = (c, Some err)" by (metis prod.collapse)
  from assms obtain m r e up v where set: "setConditionTrue E ctx p (Some r) w = (e, up, v)"
    and effs: "effs = Event ''Warning'' ReasonWarmupFailed ''FailWarmup'' m # up @
      (if e = None then [condition_event False] else [])"
    by (auto simp: warmup_body_def c Let_def split: option.splits prod.splits)
  from setConditionTrue_update [OF set] obtain now where
    "up = [StatusUpdate (condition_set now (Some r) p) (e = None)]" by blast
  with effs writes_onceI [of "[Event ''Warning'' ReasonWarmupFailed ''FailWarmup'' m]" p now "Some r" "e = None" False]
  show ?thesis by (simp add: go_const)
qed

lemma run_warmup_pod_writes:
  assumes "run_warmup_pod E rc ctx p w = Some (out, effs, w')"
  shows "writes_once p effs"
proof -
  let ?pre = "[Event ''Normal'' ReasonWarmupStarted ''StartWarmup'' ''Starting warmup execution''] @
    map Metric (IncrementWarmupActivePods (pod_Namespace p) (pod_NodeName p))"
  let ?post = "map Metric (DecrementWarmupActivePods (pod_Namespace p) (pod_NodeName p))"
  from assms obtain body where "writes_once p body" and "effs = ?pre @ body @ ?post"
    by (auto simp: run_warmup_pod_def dest: warmup_body_writes split: option.splits prod.splits)
  then show ?thesis using writes_once_around [of p body ?pre ?post] by (simp add: go_const)
qed

lemma with_semaphore_writes:
  assumes "with_semaphore E rc ctx p w = Some (out, effs, w')"
  shows "writes_once p effs"
proof (cases "rc_WarmupSemaphore rc")
  case True
  let ?queued = "Event ''Normal'' ReasonWarmupQueued ''QueueWarmup''
    ''Pod queued for warmup execution (waiting for concurrency slot)''"
  from assms True consider ms where "effs = ?queued # map Metric ms"
    | ms body where "writes_once p body" "effs = ([?queued, SemAcquired] @ map Metric ms) @ body @ [SemReleased]"
    by (auto simp: with_semaphore_def Let_def dest: run_warmup_pod_writes split: option.splits prod.splits)
  then show ?thesis
  proof cases
    case 1
    then show ?thesis by (simp add: writes_once_def go_const)
  next
    case (2 ms body)
    show ?thesis unfolding 2(2) by (rule writes_once_around [OF 2(1)]) (simp_all add: go_const)
  qed
qed (use assms in \<open>simp add: with_semaphore_def run_warmup_pod_writes\<close>)

lemma reconcile_run_writes:
  "reconcile_run rc p out effs \<Longrightarrow> if due p then writes_once p effs else effs = []"
  using with_semaphore_writes by (fastforce simp: reconcile_run_def Reconcile_found split: if_splits)

section \<open>What is left of a reconcile that was killed\<close>

text \<open>
  At most one update is asked for, of a pod whose condition is true; it is announced at most once, and only after
  the API server has confirmed it.
\<close>

definition announcements :: "effect list \<Rightarrow> nat" where
  "announcements effs = length (filter (\<lambda>r. r = ReasonConditionUpdated) (reasons effs))"

lemma calm_nothing: "calm effs \<Longrightarrow> status_updates effs = [] \<and> announcements effs = 0"
  by (induction effs rule: status_updates.induct) (auto simp: announcements_def)

lemma announcements_simps [simp]:
  "announcements [] = 0" "announcements (a @ b) = announcements a + announcements b"
  "announcements (StatusUpdate q stored # c) = announcements c" "announcements (condition_event pass # c) = Suc (announcements c)"
  by (simp_all add: announcements_def condition_event_def)

lemma condition_event_updates [simp]: "status_updates (condition_event pass # c) = status_updates c"
  by (simp add: condition_event_def)

definition one_update :: "pod \<Rightarrow> effect list \<Rightarrow> bool" where
  "one_update p effs \<longleftrightarrow>
     status_updates effs = [] \<and> announcements effs = 0 \<or>
     (\<exists>now r b. status_updates effs = [(condition_set now r p, b)] \<and> announcements effs \<le> (if b then 1 else 0))"

lemma writes_once_prefix:
  assumes "writes_once p effs" and "prefix performed effs"
  shows "one_update p performed"
proof -
  have calm_prefix: "status_updates a = [] \<and> announcements a = 0" if "prefix a b" "calm b" for a b
    using that calm_nothing [of a] set_mono_prefix [OF that(1)] by (auto simp: list_all_iff)
  consider (none) "calm effs" | (wrote) a c now r b pass where "calm a" "calm c"
      "effs = a @ StatusUpdate (condition_set now r p) b # (if b then [condition_event pass] else []) @ c"
    using assms(1) by (auto simp: writes_once_def)
  then show ?thesis
  proof cases
    case none
    from calm_prefix [OF assms(2) none] show ?thesis by (simp add: one_update_def)
  next
    case wrote
    note calm_a = calm_prefix [OF _ wrote(1)] and calm_c = calm_prefix [OF _ wrote(2)]
    consider "prefix performed a"
      | us where "performed = a @ StatusUpdate (condition_set now r p) b # us"
          "prefix us ((if b then [condition_event pass] else []) @ c)"
      using assms(2) unfolding wrote(3) by (auto simp: prefix_append prefix_Cons)
    then show ?thesis
    proof cases
      case 1
      with calm_a show ?thesis by (simp add: one_update_def)
    next
      case (2 us)
      then have "status_updates us = [] \<and> announcements us \<le> (if b then 1 else 0)"
        using calm_c by (auto simp: prefix_append prefix_Cons split: if_splits)
      then show ?thesis
        using 2(1) calm_a [of a] unfolding one_update_def
        by (intro disjI2 exI [of _ now] exI [of _ r] exI [of _ b]) simp
    qed
  qed
qed

lemma reconcile_run_updates:
  assumes "reconcile_run rc p out effs" and "prefix performed effs"
  shows "if due p then one_update p performed else performed = []"
  using reconcile_run_writes [OF assms(1)] writes_once_prefix [OF _ assms(2)] assms(2) by (auto split: if_splits)

section \<open>The invariant\<close>

abbreviation warm :: "pod \<Rightarrow> bool" where
  "warm p \<equiv> isConditionTrue p ConditionTypeWarmupReady"

definition cluster_inv :: "cluster \<Rightarrow> bool" where
  "cluster_inv s \<longleftrightarrow> cl_versions s \<noteq> [] \<and> cl_writes s = (if warm (current s) then 1 else 0) \<and>
     announcements (cl_log s) \<le> cl_writes s \<and> sorted (map warm (cl_versions s))"

lemma sorted_warm_snoc:
  assumes "sorted (map warm vs)" and "vs \<noteq> []" and "warm (last vs) \<Longrightarrow> warm p"
  shows "sorted (map warm (vs @ [p]))"
proof -
  from assms(1,2) have "\<forall>x \<in> set vs. warm x \<le> warm (last vs)"
    by (induction vs rule: rev_induct) (auto simp: sorted_append)
  with assms show ?thesis by (auto simp: sorted_append)
qed

lemma cluster_inv_step: "cluster_step rcs s s' \<Longrightarrow> cluster_inv s \<Longrightarrow> cluster_inv s'"
proof (induction rule: cluster_step.induct)
  case (edit p s)
  then show ?case using sorted_warm_snoc [of "cl_versions s" p] by (simp add: cluster_inv_def)
next
  case (reconcile rc i s out effs performed stored)
  note one = reconcile_run_updates [OF reconcile.hyps(3,4)]
  show ?case
  proof (cases "stored = []")
    case True
    with one reconcile.hyps(6) have "announcements performed = 0"
      by (auto simp: one_update_def split: if_splits)
    with True reconcile.prems show ?thesis by (simp add: cluster_inv_def)
  next
    case False
    with reconcile.hyps(5) have st: "stored = map fst (status_updates performed)" and i: "Suc i = length (cl_versions s)"
      by auto
    from i have read: "cl_versions s ! i = current s" by (metis diff_Suc_1 last_conv_nth length_0_conv nat.distinct(1))
    from False one read have due: "due (current s)" and one: "one_update (current s) performed"
      by (auto simp: st split: if_splits)
    from False one obtain now r where stored: "stored = [condition_set now r (current s)]" "announcements performed \<le> 1"
      by (auto simp: st one_update_def split: if_splits)
    from due have "\<not> warm (current s)" by (simp add: due_def)
    moreover have "warm (condition_set now r (current s))" by (rule conds.set_same)
    ultimately show ?thesis
      using reconcile.prems stored sorted_warm_snoc [of "cl_versions s" "condition_set now r (current s)"]
      by (simp add: cluster_inv_def)
  qed
qed

lemma cluster_inv_reachable: "cluster_reachable rcs p s \<Longrightarrow> \<not> warm p \<Longrightarrow> cluster_inv s"
  by (induction rule: cluster_reachable.induct) (auto simp: cluster_inv_def [of "\<lparr>cl_versions = _, cl_writes = _, cl_log = _\<rparr>"] dest: cluster_inv_step)

section \<open>Properties\<close>

text \<open>
  C5. A pod is marked ready once, in any cluster. Whatever other writers do to the pod (short of its warmup
  condition), however stale the versions are that reconciles of any number of controllers read, whether
  the answers to their updates arrive, and wherever they are killed: the API server stores at most one of
  their status updates, and exactly when it has, the condition is true in the current version; from then on it stays
  true; the event about it is emitted at most once, and never before; and a reconcile
  that reads the current version then ends at once, without an error and without any effect.
\<close>

theorem marked_ready_once:
  assumes "cluster_reachable rcs p s" and "\<not> isConditionTrue p ConditionTypeWarmupReady"
  shows "cl_writes s = (if isConditionTrue (last (cl_versions s)) ConditionTypeWarmupReady then 1 else 0) \<and>
    (\<forall>i j. i \<le> j \<longrightarrow> j < length (cl_versions s) \<longrightarrow>
       isConditionTrue (cl_versions s ! i) ConditionTypeWarmupReady \<longrightarrow>
       isConditionTrue (cl_versions s ! j) ConditionTypeWarmupReady) \<and>
    announcements (cl_log s) \<le> cl_writes s \<and>
    (\<forall>rc out effs. isConditionTrue (last (cl_versions s)) ConditionTypeWarmupReady \<longrightarrow>
       reconcile_run (rc :: 'w reconciler) (last (cl_versions s)) out effs \<longrightarrow> out = Return 0 None \<and> effs = [])"
proof -
  from cluster_inv_reachable [OF assms] have inv: "cluster_inv s" .
  have mono: "warm (cl_versions s ! j)" if "i \<le> j" "j < length (cl_versions s)" "warm (cl_versions s ! i)" for i j
    using inv that sorted_nth_mono [of "map warm (cl_versions s)" i j] by (simp add: cluster_inv_def)
  have final: "out = Return 0 None \<and> effs = []"
    if "warm (current s)" "reconcile_run (rc :: 'w reconciler) (current s) out effs" for rc out effs
    using that by (auto simp: reconcile_run_def Reconcile_found due_def)
  from inv mono final show ?thesis by (simp add: cluster_inv_def)
qed

text \<open>A cluster with one controller, after the reconcile of a pod whose warmup failed.\<close>

theorem marked_ready_once_witness:
  "\<exists>s. cluster_reachable {failing_reconciler} ready_pod s \<and> cl_writes s = 1 \<and>
     isConditionTrue (last (cl_versions s)) ConditionTypeWarmupReady \<and> announcements (cl_log s) \<le> 1"
proof -
  have cold: "\<not> isConditionTrue ready_pod ConditionTypeWarmupReady" using ready_pod_due by (simp add: due_def)
  from sample_reconcile obtain effs w' where
    run: "Reconcile sample_kube failing_reconciler Background ''default'' ''app-0'' 0 =
      Some (Return 0 None, effs, w')" by blast
  have get: "k_get_pod sample_kube Background ''default'' ''app-0'' 0 = (Inr ready_pod, 0)"
    by (simp add: sample_kube_def grpc_net.defs)
  let ?s = "\<lparr>cl_versions = [ready_pod], cl_writes = 0, cl_log = []\<rparr>"
  let ?q = "map fst (status_updates effs)"
  have rc: "reconcile_run failing_reconciler (cl_versions ?s ! 0) (Return 0 None) effs"
    unfolding reconcile_run_def using get run by (simp, blast)
  have step: "cluster_step {failing_reconciler} ?s
      \<lparr>cl_versions = cl_versions ?s @ ?q, cl_writes = cl_writes ?s + length ?q, cl_log = cl_log ?s @ effs\<rparr>"
    by (rule cluster_step.reconcile [OF _ _ rc]) (auto simp: image_iff intro: bexI [rotated])
  from cluster_reachable.step [OF cluster_reachable.created step]
  have reach: "cluster_reachable {failing_reconciler} ready_pod
    \<lparr>cl_versions = cl_versions ?s @ ?q, cl_writes = cl_writes ?s + length ?q, cl_log = cl_log ?s @ effs\<rparr>" .
  from Reconcile_trace [OF get run] ready_pod_due
  have "reconcile_trace failing_reconciler ready_pod (Return 0 None) effs" by blast
  from reconcile_trace_updates [OF this] have "length ?q = 1" by auto
  with reach marked_ready_once [OF reach cold] show ?thesis by (intro exI conjI) (auto split: if_splits)
qed

end
