(* ===== verification/Deep_Copy.thy ===== *)
theory Deep_Copy
  imports Api_Types
begin

text \<open>
  Deep copies of the WarmupConfig resource (pkg/api/v1alpha1/deepcopy.go), on an explicit store. A Go
  map and the array behind a slice are cells of the store; a field that holds one is a reference, \<open>None\<close>
  for nil. \<^verbatim>\<open>*out = *in\<close> copies references, so that the fields which are not copied again are shared.

  The contract of a deep copy is the locale \<open>deep_copy\<close>: the copy has the same value, in cells that did not exist
  before. It is proved once for slices of copyable elements and once for structs with a copyable field,
  and each type of the resource is an instance. Object metadata is copied by apimachinery and is a value here.
\<close>

section \<open>The store\<close>

record heap_request =
  hq_Name :: string
  hq_Protocol :: string
  hq_Endpoint :: string
  hq_Method :: string
  hq_Headers :: "nat option"
  hq_Body :: string
  hq_GRPCMethod :: string
  hq_GRPCPayload :: string
  hq_Count :: int
  hq_Extract :: "nat option"
  hq_ExpectedStatus :: int

record heap_step =
  hs_Name :: string
  hs_Timeout :: string
  hs_Requests :: "nat option"

record heap_spec =
  hp_Timeout :: string
  hp_Steps :: "nat option"

record heap_config =
  hc_Meta :: string
  hc_Spec :: heap_spec

record heap_config_list =
  hl_Meta :: string
  hl_Items :: "nat option"

datatype cell =
  MapCell string_map | RequestsCell "heap_request list" | StepsCell "heap_step list"
  | ConfigsCell "heap_config list"

record heap =
  cells :: "nat \<Rightarrow> cell option"
  next_addr :: nat

definition alloc :: "cell \<Rightarrow> heap \<Rightarrow> nat option \<times> heap" where
  "alloc c h = (Some (next_addr h), h\<lparr>cells := (cells h)(next_addr h \<mapsto> c), next_addr := Suc (next_addr h)\<rparr>)"

definition load :: "(cell \<Rightarrow> 'a option) \<Rightarrow> heap \<Rightarrow> nat option \<Rightarrow> 'a option" where
  "load dest h r = Option.bind r (\<lambda>a. Option.bind (cells h a) dest)"

fun map_cell :: "cell \<Rightarrow> string_map option" where
  "map_cell (MapCell m) = Some m" | "map_cell _ = None"
fun requests_cell :: "cell \<Rightarrow> heap_request list option" where
  "requests_cell (RequestsCell m) = Some m" | "requests_cell _ = None"
fun steps_cell :: "cell \<Rightarrow> heap_step list option" where
  "steps_cell (StepsCell m) = Some m" | "steps_cell _ = None"
fun configs_cell :: "cell \<Rightarrow> heap_config list option" where
  "configs_cell (ConfigsCell m) = Some m" | "configs_cell _ = None"

section \<open>The copies\<close>

text \<open>\<^verbatim>\<open>if in.M != nil { *out = make(map...); for k, v := range *in { (*out)[k] = v } }\<close>\<close>

definition copy_map :: "nat option \<Rightarrow> heap \<Rightarrow> nat option \<times> heap" where
  "copy_map r h =
     (case load map_cell h r of
        None \<Rightarrow> (r, h)
      | Some m \<Rightarrow> alloc (MapCell (map (\<lambda>(k, v). (k, v)) m)) h)"

fun copy_list :: "('a \<Rightarrow> heap \<Rightarrow> 'a \<times> heap) \<Rightarrow> 'a list \<Rightarrow> heap \<Rightarrow> 'a list \<times> heap" where
  "copy_list copy [] h = ([], h)"
| "copy_list copy (x # xs) h =
     (let (y, h) = copy x h; (ys, h) = copy_list copy xs h in (y # ys, h))"

text \<open>\<^verbatim>\<open>if in.S != nil { *out = make([]T, len(*in)); for i := range *in { (*in)[i].DeepCopyInto(&(*out)[i]) } }\<close>\<close>

definition copy_slice ::
  "('a \<Rightarrow> heap \<Rightarrow> 'a \<times> heap) \<Rightarrow> ('a list \<Rightarrow> cell) \<Rightarrow> (cell \<Rightarrow> 'a list option) \<Rightarrow>
     nat option \<Rightarrow> heap \<Rightarrow> nat option \<times> heap" where
  "copy_slice copy mk dest r h =
     (case load dest h r of
        None \<Rightarrow> (r, h)
      | Some xs \<Rightarrow> (let (ys, h) = copy_list copy xs h in alloc (mk ys) h))"

definition copy_request :: "heap_request \<Rightarrow> heap \<Rightarrow> heap_request \<times> heap" where
  "copy_request q h =
     (let (headers, h) = copy_map (hq_Headers q) h; (extract, h) = copy_map (hq_Extract q) h
      in (q\<lparr>hq_Headers := headers, hq_Extract := extract\<rparr>, h))"

definition copy_step :: "heap_step \<Rightarrow> heap \<Rightarrow> heap_step \<times> heap" where
  "copy_step s h =
     (let (r, h) = copy_slice copy_request RequestsCell requests_cell (hs_Requests s) h
      in (s\<lparr>hs_Requests := r\<rparr>, h))"

definition copy_spec :: "heap_spec \<Rightarrow> heap \<Rightarrow> heap_spec \<times> heap" where
  "copy_spec s h =
     (let (r, h) = copy_slice copy_step StepsCell steps_cell (hp_Steps s) h in (s\<lparr>hp_Steps := r\<rparr>, h))"

definition copy_config :: "heap_config \<Rightarrow> heap \<Rightarrow> heap_config \<times> heap" where
  "copy_config c h = (let (s, h) = copy_spec (hc_Spec c) h in (c\<lparr>hc_Spec := s\<rparr>, h))"

definition copy_config_list :: "heap_config_list \<Rightarrow> heap \<Rightarrow> heap_config_list \<times> heap" where
  "copy_config_list l h =
     (let (r, h) = copy_slice copy_config ConfigsCell configs_cell (hl_Items l) h
      in (l\<lparr>hl_Items := r\<rparr>, h))"

text \<open>\<^verbatim>\<open>DeepCopy\<close> and \<^verbatim>\<open>DeepCopyObject\<close> of a pointer that may be nil.\<close>

definition WarmupConfig_DeepCopy :: "heap_config option \<Rightarrow> heap \<Rightarrow> heap_config option \<times> heap" where
  "WarmupConfig_DeepCopy p h =
     (case p of None \<Rightarrow> (None, h) | Some c \<Rightarrow> (let (c', h) = copy_config c h in (Some c', h)))"

definition WarmupConfigList_DeepCopyObject ::
  "heap_config_list option \<Rightarrow> heap \<Rightarrow> heap_config_list option \<times> heap" where
  "WarmupConfigList_DeepCopyObject p h =
     (case p of None \<Rightarrow> (None, h) | Some l \<Rightarrow> (let (l', h) = copy_config_list l h in (Some l', h)))"

section \<open>The contract of a deep copy\<close>

definition extends :: "heap \<Rightarrow> heap \<Rightarrow> bool" where
  "extends h h' \<longleftrightarrow> next_addr h \<le> next_addr h' \<and> (\<forall>a < next_addr h. cells h' a = cells h a)"

definition fresh :: "heap \<Rightarrow> heap \<Rightarrow> nat set" where
  "fresh h h' = {next_addr h ..< next_addr h'}"

lemma extends_refl [simp]: "extends h h"
  by (simp add: extends_def)

lemma extends_trans: "extends h g \<Longrightarrow> extends g k \<Longrightarrow> extends h k"
  by (auto simp: extends_def)

lemma extends_alloc: "alloc c h = (r, h') \<Longrightarrow> extends h h'"
  by (auto simp: alloc_def extends_def)

lemma fresh_mono: "extends h g \<Longrightarrow> extends g k \<Longrightarrow> fresh g k \<subseteq> fresh h k \<and> fresh h g \<subseteq> fresh h k"
  by (auto simp: extends_def fresh_def)

text \<open>
  \<open>fp h x\<close> are the cells that \<open>x\<close> reaches, \<open>ok h x\<close> says that they all exist, and \<open>read h x\<close> is the value.
\<close>

locale deep_copy =
  fixes copy :: "'a \<Rightarrow> heap \<Rightarrow> 'a \<times> heap" and read :: "heap \<Rightarrow> 'a \<Rightarrow> 'v"
    and ok :: "heap \<Rightarrow> 'a \<Rightarrow> bool" and fp :: "heap \<Rightarrow> 'a \<Rightarrow> nat set"
  assumes copy_extends: "copy x h = (y, h') \<Longrightarrow> extends h h'"
    and copy_ok: "ok h x \<Longrightarrow> copy x h = (y, h') \<Longrightarrow>
      read h' y = read h x \<and> ok h' y \<and> fp h' y \<subseteq> fresh h h'"
    and fp_exists: "ok h x \<Longrightarrow> fp h x \<subseteq> {..< next_addr h}"
    and frame: "\<forall>a \<in> fp h x. cells g a = cells h a \<Longrightarrow> read g x = read h x \<and> fp g x = fp h x"
    and ok_frame: "ok h x \<Longrightarrow> \<forall>a \<in> fp h x. cells g a = cells h a \<Longrightarrow> next_addr h \<le> next_addr g \<Longrightarrow> ok g x"
begin

lemma extend:
  assumes "ok h x" and "extends h g"
  shows "ok g x \<and> read g x = read h x \<and> fp g x = fp h x"
proof -
  have same: "\<forall>a \<in> fp h x. cells g a = cells h a"
    using fp_exists [OF assms(1)] assms(2) by (auto simp: extends_def)
  have "ok g x" by (rule ok_frame [OF assms(1) same]) (use assms(2) in \<open>simp add: extends_def\<close>)
  with frame [OF same] show ?thesis by blast
qed

text \<open>After a copy the two share nothing: overwriting the cells of one leaves the other's value.\<close>

lemma independent:
  assumes "ok h x" and "copy x h = (y, h')"
  shows "fp h' x \<inter> fp h' y = {} \<and> read h' x = read h x \<and> read h' y = read h x \<and>
    (\<forall>g. (\<forall>a. a \<notin> fp h' y \<longrightarrow> cells g a = cells h' a) \<longrightarrow> read g x = read h x) \<and>
    (\<forall>g. (\<forall>a. a \<notin> fp h' x \<longrightarrow> cells g a = cells h' a) \<longrightarrow> read g y = read h x)"
proof -
  from extend [OF assms(1) copy_extends [OF assms(2)]] have x: "read h' x = read h x" "fp h' x = fp h x"
    by auto
  have low: "fp h' x \<subseteq> {..< next_addr h}" using fp_exists [OF assms(1)] unfolding x(2) .
  have high: "fp h' y \<subseteq> fresh h h'" using copy_ok [OF assms] by blast
  have disj: "fp h' x \<inter> fp h' y = {}"
  proof (rule equals0I)
    fix a assume "a \<in> fp h' x \<inter> fp h' y"
    with low high have "a < next_addr h" "a \<in> fresh h h'" by blast+
    then show False by (simp add: fresh_def)
  qed
  have "read g x = read h x" if "\<forall>a. a \<notin> fp h' y \<longrightarrow> cells g a = cells h' a" for g
    using frame [of h' x g] that disj x(1) by auto
  moreover have "read g y = read h x" if "\<forall>a. a \<notin> fp h' x \<longrightarrow> cells g a = cells h' a" for g
    using frame [of h' y g] that disj copy_ok [OF assms] by auto
  ultimately show ?thesis
    using disj x(1) copy_ok [OF assms] by (intro conjI allI impI) simp_all
qed

lemma copy_list_ok:
  "copy_list copy xs h = (ys, h') \<Longrightarrow>
     extends h h' \<and> (list_all (ok h) xs \<longrightarrow>
       map (read h') ys = map (read h) xs \<and> list_all (ok h') ys \<and> (\<forall>y \<in> set ys. fp h' y \<subseteq> fresh h h'))"
proof (induction xs arbitrary: h ys)
  case Nil
  then show ?case by simp
next
  case (Cons x xs)
  from Cons.prems obtain y h1 ys' where y: "copy x h = (y, h1)" and
    ys': "copy_list copy xs h1 = (ys', h')" and ys: "ys = y # ys'"
    by (auto simp: Let_def split: prod.splits)
  note e1 = copy_extends [OF y] and e2 = Cons.IH [OF ys', THEN conjunct1]
  note fr = fresh_mono [OF e1 e2]
  {
    assume all: "list_all (ok h) (x # xs)"
    then have "ok h x" by simp
    note cx = copy_ok [OF this y]
    from all extend [OF _ e1] have rest: "list_all (ok h1) xs" "map (read h1) xs = map (read h) xs"
      by (auto simp: list_all_iff)
    moreover from cx extend [OF _ e2] have "ok h' y" "read h' y = read h x" "fp h' y = fp h1 y" by auto
    moreover from rest(1) Cons.IH [OF ys'] have IH: "map (read h') ys' = map (read h1) xs"
      "list_all (ok h') ys'" "\<forall>z \<in> set ys'. fp h' z \<subseteq> fresh h1 h'" by simp_all
    moreover have "\<forall>z \<in> set ys. fp h' z \<subseteq> fresh h h'"
      using IH(3) cx fr \<open>fp h' y = fp h1 y\<close> unfolding ys by (simp, blast)
    ultimately have "map (read h') ys = map (read h) (x # xs) \<and> list_all (ok h') ys \<and>
        (\<forall>z \<in> set ys. fp h' z \<subseteq> fresh h h')"
      unfolding ys by simp
  }
  with extends_trans [OF e1 e2] show ?case by blast
qed

end

section \<open>Slices and structs\<close>

definition read_slice :: "(cell \<Rightarrow> 'a list option) \<Rightarrow> (heap \<Rightarrow> 'a \<Rightarrow> 'v) \<Rightarrow> heap \<Rightarrow> nat option \<Rightarrow> 'v list option" where
  "read_slice dest read h r = map_option (map (read h)) (load dest h r)"

definition ok_slice :: "(cell \<Rightarrow> 'a list option) \<Rightarrow> (heap \<Rightarrow> 'a \<Rightarrow> bool) \<Rightarrow> heap \<Rightarrow> nat option \<Rightarrow> bool" where
  "ok_slice dest ok h r \<longleftrightarrow>
     (case r of None \<Rightarrow> True
      | Some a \<Rightarrow> a < next_addr h \<and> (case load dest h r of None \<Rightarrow> False | Some xs \<Rightarrow> list_all (ok h) xs))"

definition fp_slice :: "(cell \<Rightarrow> 'a list option) \<Rightarrow> (heap \<Rightarrow> 'a \<Rightarrow> nat set) \<Rightarrow> heap \<Rightarrow> nat option \<Rightarrow> nat set" where
  "fp_slice dest fp h r =
     (case r of None \<Rightarrow> {}
      | Some a \<Rightarrow> insert a (case load dest h r of None \<Rightarrow> {} | Some xs \<Rightarrow> \<Union> (fp h ` set xs)))"

locale slice_copy = deep_copy copy read ok fp
  for copy :: "'a \<Rightarrow> heap \<Rightarrow> 'a \<times> heap" and read :: "heap \<Rightarrow> 'a \<Rightarrow> 'v" and ok fp +
  fixes mk :: "'a list \<Rightarrow> cell" and dest :: "cell \<Rightarrow> 'a list option"
  assumes dest_mk: "dest (mk xs) = Some xs"
begin

lemma slice_ok:
  assumes "ok_slice dest ok h r" and "copy_slice copy mk dest r h = (r', h')"
  shows "read_slice dest read h' r' = read_slice dest read h r \<and> ok_slice dest ok h' r' \<and>
    fp_slice dest fp h' r' \<subseteq> fresh h h'"
proof (cases r)
  case None
  with assms(2) show ?thesis
    by (auto simp: copy_slice_def load_def read_slice_def ok_slice_def fp_slice_def)
next
  case (Some a)
  with assms(1) obtain xs where xs: "load dest h r = Some xs" "list_all (ok h) xs"
    by (auto simp: ok_slice_def split: option.splits)
  obtain ys h1 where ys: "copy_list copy xs h = (ys, h1)" by fastforce
  from assms(2) xs ys have al: "alloc (mk ys) h1 = (r', h')" by (simp add: copy_slice_def)
  then have r': "r' = Some (next_addr h1)" "load dest h' r' = Some ys" "next_addr h' = Suc (next_addr h1)"
    by (auto simp: alloc_def load_def dest_mk)
  note c = copy_list_ok [OF ys] and e = extends_alloc [OF al]
  from c xs(2) have ok: "list_all (ok h1) ys" "map (read h1) ys = map (read h) xs"
    "\<forall>y \<in> set ys. fp h1 y \<subseteq> fresh h h1" by auto
  from ok(1) extend [OF _ e] have e': "\<forall>y \<in> set ys. ok h' y \<and> read h' y = read h1 y \<and> fp h' y = fp h1 y"
    by (auto simp: list_all_iff)
  then have "map (read h') ys = map (read h) xs" using ok(2) by (metis map_eq_conv)
  moreover have "fp_slice dest fp h' r' \<subseteq> fresh h h'"
  proof -
    have "fresh h h1 \<subseteq> fresh h h'" using c e fresh_mono by blast
    moreover have "next_addr h1 \<in> fresh h h'" using c r'(3) by (auto simp: fresh_def extends_def)
    moreover have "fp_slice dest fp h' r' = insert (next_addr h1) (\<Union> (fp h1 ` set ys))"
      using r' e' by (simp add: fp_slice_def)
    moreover have "\<Union> (fp h1 ` set ys) \<subseteq> fresh h h1" using ok(3) by blast
    ultimately show ?thesis by (simp add: order_trans)
  qed
  ultimately show ?thesis
    using r' e' xs by (simp add: read_slice_def ok_slice_def list_all_iff)
qed

lemma slice_frame:
  assumes "\<forall>a \<in> fp_slice dest fp h r. cells g a = cells h a"
  shows "load dest g r = load dest h r \<and>
    (\<forall>xs. load dest h r = Some xs \<longrightarrow> (\<forall>x \<in> set xs. \<forall>a \<in> fp h x. cells g a = cells h a))"
  using assms by (cases r) (auto simp: fp_slice_def load_def)

lemma slice_frame_value:
  assumes "\<forall>a \<in> fp_slice dest fp h r. cells g a = cells h a"
  shows "read_slice dest read g r = read_slice dest read h r \<and> fp_slice dest fp g r = fp_slice dest fp h r"
proof (cases "load dest h r")
  case None
  with slice_frame [OF assms] show ?thesis by (cases r) (auto simp: read_slice_def fp_slice_def)
next
  case (Some xs)
  then obtain a where a: "r = Some a" by (cases r) (simp_all add: load_def)
  from Some slice_frame [OF assms] have l: "load dest g r = Some xs"
    and "\<forall>x \<in> set xs. \<forall>a \<in> fp h x. cells g a = cells h a" by simp_all
  then have "\<forall>x \<in> set xs. read g x = read h x \<and> fp g x = fp h x" by (blast dest: frame)
  with Some l show ?thesis by (simp add: a read_slice_def fp_slice_def)
qed

lemma slice_ok_frame:
  assumes "ok_slice dest ok h r" and "\<forall>a \<in> fp_slice dest fp h r. cells g a = cells h a"
    and "next_addr h \<le> next_addr g"
  shows "ok_slice dest ok g r"
proof (cases r)
  case (Some a)
  with assms(1) obtain xs where xs: "a < next_addr h" "load dest h r = Some xs" "\<forall>x \<in> set xs. ok h x"
    by (auto simp: ok_slice_def list_all_iff split: option.splits)
  with slice_frame [OF assms(2)] have "load dest g r = Some xs"
    "\<forall>x \<in> set xs. \<forall>a \<in> fp h x. cells g a = cells h a" by simp_all
  moreover from this(2) xs(3) have "\<forall>x \<in> set xs. ok g x"
    using ok_frame [OF _ _ assms(3)] by blast
  ultimately show ?thesis using xs(1) assms(3) Some by (simp add: ok_slice_def list_all_iff)
qed (simp add: ok_slice_def)

end

sublocale slice_copy \<subseteq> slice: deep_copy "copy_slice copy mk dest" "read_slice dest read"
    "ok_slice dest ok" "fp_slice dest fp"
proof
  fix r h r' h' assume c: "copy_slice copy mk dest r h = (r', h')"
  show "extends h h'"
  proof (cases "load dest h r")
    case (Some xs)
    obtain ys h1 where ys: "copy_list copy xs h = (ys, h1)" by fastforce
    with Some c have "alloc (mk ys) h1 = (r', h')" by (simp add: copy_slice_def)
    with copy_list_ok [OF ys] extends_alloc extends_trans show ?thesis by blast
  qed (use c in \<open>simp add: copy_slice_def\<close>)
next
  show "ok_slice dest ok h r \<Longrightarrow> fp_slice dest fp h r \<subseteq> {..<next_addr h}" for h r
    using fp_exists by (fastforce simp: ok_slice_def fp_slice_def list_all_iff split: option.splits)
qed (use slice_ok slice_frame_value slice_ok_frame in blast)+

text \<open>A struct whose other fields are values: \<open>val\<close> puts the value of the field into the struct's.\<close>

locale field_copy = deep_copy copy read ok fp
  for copy :: "'f \<Rightarrow> heap \<Rightarrow> 'f \<times> heap" and read :: "heap \<Rightarrow> 'f \<Rightarrow> 'v" and ok fp +
  fixes get :: "'s \<Rightarrow> 'f" and put :: "'f \<Rightarrow> 's \<Rightarrow> 's" and val :: "'s \<Rightarrow> 'v \<Rightarrow> 'u"
  assumes get_put: "get (put f s) = f" and val_put: "val (put f s) v = val s v"

sublocale field_copy \<subseteq> struct: deep_copy "\<lambda>s h. (let (f, h) = copy (get s) h in (put f s, h))"
    "\<lambda>h s. val s (read h (get s))" "\<lambda>h s. ok h (get s)" "\<lambda>h s. fp h (get s)"
proof
  fix s h y h' assume c: "(let (f, h) = copy (get s) h in (put f s, h)) = (y, h')"
  then obtain f where f: "copy (get s) h = (f, h')" "y = put f s" by (auto split: prod.splits)
  show "extends h h'" using copy_extends f(1) by blast
  show "val y (read h' (get y)) = val s (read h (get s)) \<and> ok h' (get y) \<and> fp h' (get y) \<subseteq> fresh h h'"
    if "ok h (get s)"
    using copy_ok [OF that f(1)] f(2) by (simp add: get_put val_put)
next
  show "val s (read g (get s)) = val s (read h (get s)) \<and> fp g (get s) = fp h (get s)"
    if "\<forall>a \<in> fp h (get s). cells g a = cells h a" for h s g
    using frame [OF that] by simp
qed (use fp_exists ok_frame in \<open>blast+\<close>)

text \<open>Two fields copied one after the other.\<close>

definition copy_pair ::
  "('a \<Rightarrow> heap \<Rightarrow> 'a \<times> heap) \<Rightarrow> ('b \<Rightarrow> heap \<Rightarrow> 'b \<times> heap) \<Rightarrow> 'a \<times> 'b \<Rightarrow> heap \<Rightarrow> ('a \<times> 'b) \<times> heap" where
  "copy_pair copy1 copy2 p h =
     (let (x, h) = copy1 (fst p) h; (y, h) = copy2 (snd p) h in ((x, y), h))"

locale pair_copy = a: deep_copy copy1 read1 ok1 fp1 + b: deep_copy copy2 read2 ok2 fp2
  for copy1 :: "'a \<Rightarrow> heap \<Rightarrow> 'a \<times> heap" and read1 :: "heap \<Rightarrow> 'a \<Rightarrow> 'v" and ok1 fp1
    and copy2 :: "'b \<Rightarrow> heap \<Rightarrow> 'b \<times> heap" and read2 :: "heap \<Rightarrow> 'b \<Rightarrow> 'w" and ok2 fp2
begin

lemma pair_split:
  assumes "copy_pair copy1 copy2 p h = (q, h')"
  obtains h1 where "copy1 (fst p) h = (fst q, h1)" and "copy2 (snd p) h1 = (snd q, h')"
    and "extends h h1" and "extends h1 h'"
proof -
  from assms obtain x h1 y where "copy1 (fst p) h = (x, h1)" "copy2 (snd p) h1 = (y, h')" "q = (x, y)"
    by (auto simp: copy_pair_def split: prod.splits)
  then show thesis using that a.copy_extends b.copy_extends by (metis fst_conv snd_conv)
qed

lemma pair_ok:
  assumes ok: "ok1 h (fst p) \<and> ok2 h (snd p)" and "copy_pair copy1 copy2 p h = (q, h')"
  shows "(read1 h' (fst q), read2 h' (snd q)) = (read1 h (fst p), read2 h (snd p)) \<and>
    (ok1 h' (fst q) \<and> ok2 h' (snd q)) \<and> fp1 h' (fst q) \<union> fp2 h' (snd q) \<subseteq> fresh h h'"
proof -
  from assms(2) obtain h1 where c: "copy1 (fst p) h = (fst q, h1)" "copy2 (snd p) h1 = (snd q, h')"
    and e: "extends h h1" "extends h1 h'" by (rule pair_split)
  note 1 = a.copy_ok [OF conjunct1 [OF ok] c(1)]
  note 2 = b.extend [OF conjunct2 [OF ok] e(1)]
  note 3 = b.copy_ok [OF conjunct1 [OF 2] c(2)]
  note 4 = a.extend [OF conjunct1 [OF conjunct2 [OF 1]] e(2)]
  from 1 3 4 fresh_mono [OF e] have "fp1 h' (fst q) \<union> fp2 h' (snd q) \<subseteq> fresh h h'" by blast
  with 1 2 3 4 show ?thesis by simp
qed

end

sublocale pair_copy \<subseteq> pair: deep_copy "copy_pair copy1 copy2" "\<lambda>h p. (read1 h (fst p), read2 h (snd p))"
    "\<lambda>h p. ok1 h (fst p) \<and> ok2 h (snd p)" "\<lambda>h p. fp1 h (fst p) \<union> fp2 h (snd p)"
proof
  show "extends h h'" if "copy_pair copy1 copy2 p h = (q, h')" for p h q h'
    using that by (rule pair_split) (rule extends_trans)
  show "fp1 h (fst p) \<union> fp2 h (snd p) \<subseteq> {..<next_addr h}" if "ok1 h (fst p) \<and> ok2 h (snd p)" for h p
    using that a.fp_exists b.fp_exists by (meson Un_least)
  show "(read1 g (fst p), read2 g (snd p)) = (read1 h (fst p), read2 h (snd p)) \<and>
      fp1 g (fst p) \<union> fp2 g (snd p) = fp1 h (fst p) \<union> fp2 h (snd p)"
    if "\<forall>a \<in> fp1 h (fst p) \<union> fp2 h (snd p). cells g a = cells h a" for h p g
    using that a.frame [of h "fst p" g] b.frame [of h "snd p" g] by simp
  show "ok1 g (fst p) \<and> ok2 g (snd p)"
    if "ok1 h (fst p) \<and> ok2 h (snd p)" "\<forall>a \<in> fp1 h (fst p) \<union> fp2 h (snd p). cells g a = cells h a"
      "next_addr h \<le> next_addr g" for h p g
    using that a.ok_frame [of h "fst p" g] b.ok_frame [of h "snd p" g] by simp
qed (rule pair_ok)

section \<open>The types of the resource\<close>

text \<open>What each type holds, with nil and empty told apart, and whether and which cells it reaches.\<close>

definition share :: "'a \<Rightarrow> heap \<Rightarrow> 'a \<times> heap" where
  "share x h = (x, h)"

lemma copy_list_share [simp]: "copy_list share xs h = (xs, h)"
  by (induction xs) (simp_all add: share_def)

lemma copy_map_slice: "copy_map = copy_slice share MapCell map_cell"
  by (intro ext) (simp add: copy_map_def copy_slice_def split: option.split)

definition read_map :: "heap \<Rightarrow> nat option \<Rightarrow> string_map option" where
  "read_map = read_slice map_cell (\<lambda>h x. x)"
definition ok_map :: "heap \<Rightarrow> nat option \<Rightarrow> bool" where
  "ok_map = ok_slice map_cell (\<lambda>h x. True)"
definition fp_map :: "heap \<Rightarrow> nat option \<Rightarrow> nat set" where
  "fp_map = fp_slice map_cell (\<lambda>h x. {})"

interpretation entries: slice_copy share "\<lambda>h x. x" "\<lambda>h x. True" "\<lambda>h x. {}" MapCell map_cell
  by unfold_locales (simp_all add: share_def)

interpretation maps: deep_copy copy_map read_map ok_map fp_map
  unfolding copy_map_slice read_map_def ok_map_def fp_map_def by (rule entries.slice.deep_copy_axioms)

type_synonym request_value = "heap_request \<times> string_map option \<times> string_map option"

definition read_request :: "heap \<Rightarrow> heap_request \<Rightarrow> request_value" where
  "read_request h q =
     (q\<lparr>hq_Headers := None, hq_Extract := None\<rparr>, read_map h (hq_Headers q), read_map h (hq_Extract q))"
definition ok_request :: "heap \<Rightarrow> heap_request \<Rightarrow> bool" where
  "ok_request h q \<longleftrightarrow> ok_map h (hq_Headers q) \<and> ok_map h (hq_Extract q)"
definition fp_request :: "heap \<Rightarrow> heap_request \<Rightarrow> nat set" where
  "fp_request h q = fp_map h (hq_Headers q) \<union> fp_map h (hq_Extract q)"

interpretation map_pair: pair_copy copy_map read_map ok_map fp_map copy_map read_map ok_map fp_map ..

interpretation request_fields: field_copy "copy_pair copy_map copy_map"
    "\<lambda>h p. (read_map h (fst p), read_map h (snd p))" "\<lambda>h p. ok_map h (fst p) \<and> ok_map h (snd p)"
    "\<lambda>h p. fp_map h (fst p) \<union> fp_map h (snd p)" "\<lambda>q. (hq_Headers q, hq_Extract q)"
    "\<lambda>p q. q\<lparr>hq_Headers := fst p, hq_Extract := snd p\<rparr>"
    "\<lambda>q v. (q\<lparr>hq_Headers := None, hq_Extract := None\<rparr>, v)"
  by unfold_locales simp_all

lemma copy_request_fields:
  "copy_request = (\<lambda>q h. (let (p, h) = copy_pair copy_map copy_map (hq_Headers q, hq_Extract q) h
     in (q\<lparr>hq_Headers := fst p, hq_Extract := snd p\<rparr>, h)))"
  by (intro ext) (simp add: copy_request_def copy_pair_def Let_def split: prod.split)

lemma read_request_fields:
  "read_request = (\<lambda>h q. (q\<lparr>hq_Headers := None, hq_Extract := None\<rparr>,
     read_map h (fst (hq_Headers q, hq_Extract q)), read_map h (snd (hq_Headers q, hq_Extract q))))"
  "ok_request = (\<lambda>h q. ok_map h (fst (hq_Headers q, hq_Extract q)) \<and> ok_map h (snd (hq_Headers q, hq_Extract q)))"
  "fp_request = (\<lambda>h q. fp_map h (fst (hq_Headers q, hq_Extract q)) \<union> fp_map h (snd (hq_Headers q, hq_Extract q)))"
  by (intro ext; simp add: read_request_def ok_request_def fp_request_def)+

interpretation requests: slice_copy copy_request read_request ok_request fp_request RequestsCell requests_cell
proof (rule slice_copy.intro)
  show "deep_copy copy_request read_request ok_request fp_request"
    unfolding copy_request_fields read_request_fields by (rule request_fields.struct.deep_copy_axioms)
qed (unfold_locales, simp)

type_synonym step_value = "string \<times> string \<times> request_value list option"
type_synonym spec_value = "string \<times> step_value list option"
type_synonym config_value = "string \<times> spec_value"

definition read_step :: "heap \<Rightarrow> heap_step \<Rightarrow> step_value" where
  "read_step h s = (hs_Name s, hs_Timeout s, read_slice requests_cell read_request h (hs_Requests s))"
definition ok_step :: "heap \<Rightarrow> heap_step \<Rightarrow> bool" where
  "ok_step h s = ok_slice requests_cell ok_request h (hs_Requests s)"
definition fp_step :: "heap \<Rightarrow> heap_step \<Rightarrow> nat set" where
  "fp_step h s = fp_slice requests_cell fp_request h (hs_Requests s)"

interpretation step_field: field_copy "copy_slice copy_request RequestsCell requests_cell" "read_slice requests_cell read_request"
    "ok_slice requests_cell ok_request" "fp_slice requests_cell fp_request" hs_Requests
    "\<lambda>r s. s\<lparr>hs_Requests := r\<rparr>" "\<lambda>s v. (hs_Name s, hs_Timeout s, v)"
  by unfold_locales simp_all

lemma step_is_field:
  "copy_step = (\<lambda>s h. (let (r, h) = copy_slice copy_request RequestsCell requests_cell (hs_Requests s) h in (s\<lparr>hs_Requests := r\<rparr>, h)))"
  "read_step = (\<lambda>h s. (hs_Name s, hs_Timeout s, read_slice requests_cell read_request h (hs_Requests s)))"
  "ok_step = (\<lambda>h s. ok_slice requests_cell ok_request h (hs_Requests s))" "fp_step = (\<lambda>h s. fp_slice requests_cell fp_request h (hs_Requests s))"
  by (intro ext; simp add: copy_step_def read_step_def ok_step_def fp_step_def)+

interpretation steps: slice_copy copy_step read_step ok_step fp_step StepsCell steps_cell
proof (rule slice_copy.intro)
  show "deep_copy copy_step read_step ok_step fp_step"
    unfolding step_is_field by (rule step_field.struct.deep_copy_axioms)
qed (unfold_locales, simp)

definition read_spec :: "heap \<Rightarrow> heap_spec \<Rightarrow> spec_value" where
  "read_spec h s = (hp_Timeout s, read_slice steps_cell read_step h (hp_Steps s))"
definition ok_spec :: "heap \<Rightarrow> heap_spec \<Rightarrow> bool" where
  "ok_spec h s = ok_slice steps_cell ok_step h (hp_Steps s)"
definition fp_spec :: "heap \<Rightarrow> heap_spec \<Rightarrow> nat set" where
  "fp_spec h s = fp_slice steps_cell fp_step h (hp_Steps s)"

interpretation spec_field: field_copy "copy_slice copy_step StepsCell steps_cell" "read_slice steps_cell read_step"
    "ok_slice steps_cell ok_step" "fp_slice steps_cell fp_step" hp_Steps
    "\<lambda>r s. s\<lparr>hp_Steps := r\<rparr>" "\<lambda>s v. (hp_Timeout s, v)"
  by unfold_locales simp_all

lemma spec_is_field:
  "copy_spec = (\<lambda>s h. (let (r, h) = copy_slice copy_step StepsCell steps_cell (hp_Steps s) h in (s\<lparr>hp_Steps := r\<rparr>, h)))"
  "read_spec = (\<lambda>h s. (hp_Timeout s, read_slice steps_cell read_step h (hp_Steps s)))"
  "ok_spec = (\<lambda>h s. ok_slice steps_cell ok_step h (hp_Steps s))" "fp_spec = (\<lambda>h s. fp_slice steps_cell fp_step h (hp_Steps s))"
  by (intro ext; simp add: copy_spec_def read_spec_def ok_spec_def fp_spec_def)+

interpretation specs: deep_copy copy_spec read_spec ok_spec fp_spec
  unfolding spec_is_field by (rule spec_field.struct.deep_copy_axioms)

definition read_config :: "heap \<Rightarrow> heap_config \<Rightarrow> config_value" where
  "read_config h s = (hc_Meta s, read_spec h (hc_Spec s))"
definition ok_config :: "heap \<Rightarrow> heap_config \<Rightarrow> bool" where
  "ok_config h s = ok_spec h (hc_Spec s)"
definition fp_config :: "heap \<Rightarrow> heap_config \<Rightarrow> nat set" where
  "fp_config h s = fp_spec h (hc_Spec s)"

interpretation config_field: field_copy "copy_spec" "read_spec"
    "ok_spec" "fp_spec" hc_Spec
    "\<lambda>r s. s\<lparr>hc_Spec := r\<rparr>" "\<lambda>s v. (hc_Meta s, v)"
  by unfold_locales simp_all

lemma config_is_field:
  "copy_config = (\<lambda>s h. (let (r, h) = copy_spec (hc_Spec s) h in (s\<lparr>hc_Spec := r\<rparr>, h)))"
  "read_config = (\<lambda>h s. (hc_Meta s, read_spec h (hc_Spec s)))"
  "ok_config = (\<lambda>h s. ok_spec h (hc_Spec s))" "fp_config = (\<lambda>h s. fp_spec h (hc_Spec s))"
  by (intro ext; simp add: copy_config_def read_config_def ok_config_def fp_config_def)+

interpretation configs: slice_copy copy_config read_config ok_config fp_config ConfigsCell configs_cell
proof (rule slice_copy.intro)
  show "deep_copy copy_config read_config ok_config fp_config"
    unfolding config_is_field by (rule config_field.struct.deep_copy_axioms)
qed (unfold_locales, simp)

definition read_config_list :: "heap \<Rightarrow> heap_config_list \<Rightarrow> string \<times> config_value list option" where
  "read_config_list h s = (hl_Meta s, read_slice configs_cell read_config h (hl_Items s))"
definition ok_config_list :: "heap \<Rightarrow> heap_config_list \<Rightarrow> bool" where
  "ok_config_list h s = ok_slice configs_cell ok_config h (hl_Items s)"
definition fp_config_list :: "heap \<Rightarrow> heap_config_list \<Rightarrow> nat set" where
  "fp_config_list h s = fp_slice configs_cell fp_config h (hl_Items s)"

interpretation config_list_field: field_copy "copy_slice copy_config ConfigsCell configs_cell" "read_slice configs_cell read_config"
    "ok_slice configs_cell ok_config" "fp_slice configs_cell fp_config" hl_Items
    "\<lambda>r s. s\<lparr>hl_Items := r\<rparr>" "\<lambda>s v. (hl_Meta s, v)"
  by unfold_locales simp_all

lemma config_list_is_field:
  "copy_config_list = (\<lambda>s h. (let (r, h) = copy_slice copy_config ConfigsCell configs_cell (hl_Items s) h in (s\<lparr>hl_Items := r\<rparr>, h)))"
  "read_config_list = (\<lambda>h s. (hl_Meta s, read_slice configs_cell read_config h (hl_Items s)))"
  "ok_config_list = (\<lambda>h s. ok_slice configs_cell ok_config h (hl_Items s))" "fp_config_list = (\<lambda>h s. fp_slice configs_cell fp_config h (hl_Items s))"
  by (intro ext; simp add: copy_config_list_def read_config_list_def ok_config_list_def fp_config_list_def)+

interpretation config_lists: deep_copy copy_config_list read_config_list ok_config_list fp_config_list
  unfolding config_list_is_field by (rule config_list_field.struct.deep_copy_axioms)

section \<open>Independence of a copy\<close>

lemma WarmupConfig_DeepCopy_SomeE:
  assumes "WarmupConfig_DeepCopy (Some c) h = (p, h')"
  obtains c' where "p = Some c'" and "copy_config c h = (c', h')"
  using assms by (auto simp: WarmupConfig_DeepCopy_def split: prod.splits)

text \<open>
  C16. \<^verbatim>\<open>WarmupConfig.DeepCopy\<close> of a config whose maps and slices all exist: the copy holds the same
  values (nil and empty told apart), every map and slice it reaches is new, the original is unchanged, and
  afterwards whatever is written to the maps and slices of one leaves the value of the other.
\<close>

theorem WarmupConfig_DeepCopy_independent:
  assumes "ok_config h c"
  shows "\<exists>c' h'. WarmupConfig_DeepCopy (Some c) h = (Some c', h') \<and>
    read_config h' c' = read_config h c \<and> read_config h' c = read_config h c \<and>
    fp_config h' c' \<subseteq> fresh h h' \<and> fp_config h' c \<inter> fp_config h' c' = {} \<and>
    (\<forall>g. (\<forall>a. a \<notin> fp_config h' c' \<longrightarrow> cells g a = cells h' a) \<longrightarrow> read_config g c = read_config h c) \<and>
    (\<forall>g. (\<forall>a. a \<notin> fp_config h' c \<longrightarrow> cells g a = cells h' a) \<longrightarrow> read_config g c' = read_config h c)"
proof -
  obtain p h' where p: "WarmupConfig_DeepCopy (Some c) h = (p, h')" by fastforce
  then obtain c' where c': "p = Some c'" "copy_config c h = (c', h')"
    by (rule WarmupConfig_DeepCopy_SomeE)
  from configs.copy_ok [OF assms c'(2)] configs.independent [OF assms c'(2)]
  show ?thesis using p c'(1) by (intro exI [of _ c'] exI [of _ h'] conjI) auto
qed

definition sample_store :: heap where
  "sample_store =
     \<lparr>cells = Map.empty(0 \<mapsto> MapCell [(''k'', ''v'')],
        1 \<mapsto> RequestsCell [\<lparr>hq_Name = [], hq_Protocol = [], hq_Endpoint = ''/'', hq_Method = [], hq_Headers = Some 0,
          hq_Body = [], hq_GRPCMethod = [], hq_GRPCPayload = [], hq_Count = 1, hq_Extract = None,
          hq_ExpectedStatus = 0\<rparr>],
        2 \<mapsto> StepsCell [\<lparr>hs_Name = ''s'', hs_Timeout = [], hs_Requests = Some 1\<rparr>]),
      next_addr = 3\<rparr>"

definition sample_resource :: heap_config where
  "sample_resource = \<lparr>hc_Meta = ''c'', hc_Spec = \<lparr>hp_Timeout = [], hp_Steps = Some 2\<rparr>\<rparr>"

theorem WarmupConfig_DeepCopy_independent_witness:
  "ok_config sample_store sample_resource \<and> fp_config sample_store sample_resource = {0, 1, 2} \<and>
   (\<exists>c' h'. WarmupConfig_DeepCopy (Some sample_resource) sample_store = (Some c', h') \<and>
      fp_config h' sample_resource \<inter> fp_config h' c' = {})"
proof -
  have ok: "ok_config sample_store sample_resource" "fp_config sample_store sample_resource = {0, 1, 2}"
    by (auto simp: ok_config_def ok_spec_def ok_step_def ok_request_def ok_map_def ok_slice_def
        fp_config_def fp_spec_def fp_step_def fp_request_def fp_map_def fp_slice_def load_def
        sample_store_def sample_resource_def)
  with WarmupConfig_DeepCopy_independent [OF ok(1)] show ?thesis by blast
qed

text \<open>
  \<^verbatim>\<open>WarmupConfigList.DeepCopyObject\<close>: nil gives nil and allocates nothing; a list whose items exist is copied
  with the same value into new cells only, and no write to the cells of the original changes the copy.
\<close>

lemma WarmupConfigList_DeepCopyObject_fresh:
  "WarmupConfigList_DeepCopyObject None h = (None, h) \<and>
   (ok_config_list h l \<longrightarrow>
     (\<exists>l' h'. WarmupConfigList_DeepCopyObject (Some l) h = (Some l', h') \<and>
        read_config_list h' l' = read_config_list h l \<and> ok_config_list h' l' \<and>
        fp_config_list h' l' \<subseteq> fresh h h' \<and> extends h h' \<and>
        (\<forall>g. (\<forall>a. a \<notin> fp_config_list h' l \<longrightarrow> cells g a = cells h' a) \<longrightarrow>
           read_config_list g l' = read_config_list h l)))"
proof (intro conjI impI)
  assume ok: "ok_config_list h l"
  obtain l' h' where c: "copy_config_list l h = (l', h')" by fastforce
  from config_lists.copy_ok [OF ok c] config_lists.independent [OF ok c] config_lists.copy_extends [OF c] c
  show "\<exists>l' h'. WarmupConfigList_DeepCopyObject (Some l) h = (Some l', h') \<and>
        read_config_list h' l' = read_config_list h l \<and> ok_config_list h' l' \<and>
        fp_config_list h' l' \<subseteq> fresh h h' \<and> extends h h' \<and>
        (\<forall>g. (\<forall>a. a \<notin> fp_config_list h' l \<longrightarrow> cells g a = cells h' a) \<longrightarrow>
           read_config_list g l' = read_config_list h l)"
    by (intro exI [of _ l'] exI [of _ h'] conjI) (auto simp: WarmupConfigList_DeepCopyObject_def)
qed (simp add: WarmupConfigList_DeepCopyObject_def)

end
