(* ===== verification/Scheme.thy ===== *)
theory Scheme
  imports Sender
begin

text \<open>
  Registration of the resource types (pkg/api/v1alpha1/register.go) and the scheme that main sets up in
  \<^verbatim>\<open>init\<close> (cmd/controller/main.go). The scheme itself belongs to apimachinery: its operations are the record
  \<open>apimachinery\<close> over a type variable \<open>'s\<close>, and what is used of their documented behaviour is \<open>scheme_law\<close>.
\<close>

section \<open>The library\<close>

record group_version =
  gv_Group :: string
  gv_Version :: string

text \<open>A Go type is the name that the scheme takes as its kind.\<close>

record 's apimachinery =
  am_AddKnownTypes :: "group_version \<Rightarrow> string list \<Rightarrow> 's \<Rightarrow> 's"
  am_AddToScheme :: "('s \<Rightarrow> go_error option \<times> 's) list \<Rightarrow> 's \<Rightarrow> go_error option \<times> 's"
  am_Recognizes :: "'s \<Rightarrow> group_version \<Rightarrow> string \<Rightarrow> bool"
  am_GroupResource :: "group_version \<Rightarrow> string \<Rightarrow> string \<times> string"

text \<open>
  Known types are recognized from then on, and nothing is forgotten; a builder applies its functions in order and
  stops at the first error; a group resource is the group and the name.
\<close>

definition scheme_law :: "('s, 'x) apimachinery_scheme \<Rightarrow> bool" where
  "scheme_law A \<longleftrightarrow>
     (\<forall>gv ts s gv' k. am_Recognizes A (am_AddKnownTypes A gv ts s) gv' k \<longleftrightarrow>
        gv' = gv \<and> k \<in> set ts \<or> am_Recognizes A s gv' k) \<and>
     (\<forall>s. am_AddToScheme A [] s = (None, s)) \<and>
     (\<forall>f fs s. am_AddToScheme A (f # fs) s =
        (case f s of (Some e, s') \<Rightarrow> (Some e, s') | (None, s') \<Rightarrow> am_AddToScheme A fs s')) \<and>
     (\<forall>gv r. am_GroupResource A gv r = (gv_Group gv, r))"

section \<open>register.go\<close>

definition SchemeGroupVersion :: group_version where
  "SchemeGroupVersion = \<lparr>gv_Group = ''kube-booster.io'', gv_Version = ''v1alpha1''\<rparr>"

definition addKnownTypes :: "('s, 'x) apimachinery_scheme \<Rightarrow> 's \<Rightarrow> go_error option \<times> 's" where
  "addKnownTypes A scheme =
     (None, am_AddKnownTypes A SchemeGroupVersion [''WarmupConfig'', ''WarmupConfigList''] scheme)"

definition SchemeBuilder :: "('s, 'x) apimachinery_scheme \<Rightarrow> ('s \<Rightarrow> go_error option \<times> 's) list" where
  "SchemeBuilder A = [addKnownTypes A]"

definition AddToScheme :: "('s, 'x) apimachinery_scheme \<Rightarrow> 's \<Rightarrow> go_error option \<times> 's" where
  "AddToScheme A = am_AddToScheme A (SchemeBuilder A)"

definition Resource :: "('s, 'x) apimachinery_scheme \<Rightarrow> string \<Rightarrow> string \<times> string" where
  "Resource A resource = am_GroupResource A SchemeGroupVersion resource"

section \<open>init\<close>

text \<open>\<^verbatim>\<open>utilruntime.Must\<close> panics on an error, which is \<open>None\<close> here.\<close>

definition Must :: "('s \<Rightarrow> go_error option \<times> 's) \<Rightarrow> 's \<Rightarrow> 's option" where
  "Must add s = (case add s of (Some e, s') \<Rightarrow> None | (None, s') \<Rightarrow> Some s')"

definition main_init ::
  "('s, 'x) apimachinery_scheme \<Rightarrow> ('s \<Rightarrow> go_error option \<times> 's) \<Rightarrow> ('s \<Rightarrow> go_error option \<times> 's) \<Rightarrow> 's \<Rightarrow> 's option" where
  "main_init A clientgo_add corev1_add scheme =
     (case Must clientgo_add scheme of
        None \<Rightarrow> None
      | Some s1 \<Rightarrow> (case Must corev1_add s1 of None \<Rightarrow> None | Some s2 \<Rightarrow> Must (AddToScheme A) s2))"

section \<open>Properties\<close>

lemma Must_AddToScheme:
  "scheme_law A \<Longrightarrow>
     Must (AddToScheme A) s = Some (am_AddKnownTypes A SchemeGroupVersion [''WarmupConfig'', ''WarmupConfigList''] s)"
  by (simp add: Must_def AddToScheme_def SchemeBuilder_def addKnownTypes_def scheme_law_def)

text \<open>
  Once the types of Kubernetes are registered, init does not panic, and the scheme knows the two kinds of this
  program and what it knew before, nothing else.
\<close>

lemma main_init_recognizes:
  assumes "scheme_law A" and "clientgo_add s = (None, s1)" and "corev1_add s1 = (None, s2)"
  shows "\<exists>s3. main_init A clientgo_add corev1_add s = Some s3 \<and>
    (\<forall>gv k. am_Recognizes A s3 gv k \<longleftrightarrow>
       gv = SchemeGroupVersion \<and> k \<in> {''WarmupConfig'', ''WarmupConfigList''} \<or> am_Recognizes A s2 gv k)"
  using assms Must_AddToScheme [OF assms(1), of s2]
  by (simp add: main_init_def Must_def [of clientgo_add] Must_def [of corev1_add] scheme_law_def)

lemma Resource_group: "scheme_law A \<Longrightarrow> Resource A r = (''kube-booster.io'', r)"
  by (simp add: Resource_def SchemeGroupVersion_def scheme_law_def)

text \<open>The laws hold of a scheme that is the list of its kinds.\<close>

fun apply_all :: "('s \<Rightarrow> go_error option \<times> 's) list \<Rightarrow> 's \<Rightarrow> go_error option \<times> 's" where
  "apply_all [] s = (None, s)"
| "apply_all (f # fs) s = (case f s of (Some e, s') \<Rightarrow> (Some e, s') | (None, s') \<Rightarrow> apply_all fs s')"

definition list_scheme :: "(group_version \<times> string) list apimachinery" where
  "list_scheme =
     \<lparr>am_AddKnownTypes = (\<lambda>gv ts s. map (Pair gv) ts @ s), am_AddToScheme = apply_all,
      am_Recognizes = (\<lambda>s gv k. (gv, k) \<in> set s), am_GroupResource = (\<lambda>gv r. (gv_Group gv, r))\<rparr>"

lemma list_scheme_law: "scheme_law list_scheme"
  by (auto simp: scheme_law_def list_scheme_def split: prod.split option.split)

end
