(* ===== verification/Demo_Server.thy ===== *)
theory Demo_Server
  imports Go_Flag Go_Fmt
begin

text \<open>
  The gRPC server of the demo (hack/grpc-demo-server/main.go): the port it listens on, from the environment and
  the command line, and the sequence of calls on the gRPC library. \<^verbatim>\<open>fmt.Sscanf(v, "%d", &p)\<close> reads an optional sign and
  the digits that follow any white space, and does not look at the rest of the text.
\<close>

section \<open>Sscanf\<close>

definition rune_space :: "nat \<Rightarrow> bool" where
  "rune_space r \<longleftrightarrow> cont 9 13 r \<or> r \<in> {32, 133, 160, 5760, 8232, 8233, 8239, 8287, 12288} \<or> cont 8192 8202 r"

text \<open>\<^verbatim>\<open>SkipSpace\<close>; \<open>None\<close> is the error "unexpected newline".\<close>

function skip_space :: "string \<Rightarrow> string option" where
  "skip_space s =
     (if s = [] then Some []
      else let (r, w) = decode_rune s; rest = drop (max 1 w) s
           in if r = 13 \<and> rest \<noteq> [] \<and> hd rest = CHR 0x0A then skip_space rest
              else if r = 10 then None
              else if \<not> rune_space r then Some s
              else skip_space rest)"
  by pat_completeness auto
termination
  by (relation "measure length") auto

declare skip_space.simps [simp del]

definition Sscanf_d :: "string \<Rightarrow> int option" where
  "Sscanf_d v =
     (case skip_space v of
        None \<Rightarrow> None
      | Some s \<Rightarrow>
          let sgn = (if s \<noteq> [] \<and> (hd s = CHR ''+'' \<or> hd s = CHR ''-'') then [hd s] else []);
              digits = takeWhile is_digit (drop (length sgn) s)
          in if digits = [] then None
             else case Atoi (sgn @ digits) of Inl _ \<Rightarrow> None | Inr n \<Rightarrow> Some n)"

section \<open>The program\<close>

text \<open>The argument is the value of GRPC_PORT, the empty string when it is not set.\<close>

definition defaultPort :: "string \<Rightarrow> int" where
  "defaultPort v =
     (if v \<noteq> []
      then case Sscanf_d v of None \<Rightarrow> 50051 | Some p \<Rightarrow> if p > 0 then p else 50051
      else 50051)"

definition demo_flags :: "string \<Rightarrow> int flag_var option" where
  "demo_flags name = (if name = ''port'' then Some (IntVar (\<lambda>x port. x)) else None)"

datatype demo_call =
  Listen string string | NewServer | RegisterHealthServer | SetServingStatus string | RegisterReflection | Serve

text \<open>The calls made and the exit code; Listen and Serve may fail, which is fatal.\<close>

definition demo_main :: "(demo_call \<Rightarrow> bool) \<Rightarrow> string \<Rightarrow> string list \<Rightarrow> demo_call list \<times> int" where
  "demo_main fails env args =
     (case flag_Parse demo_flags args (defaultPort env) of
        Inl code \<Rightarrow> ([], code)
      | Inr port \<Rightarrow>
          let listen = Listen ''tcp'' ('':'' @ Itoa port)
          in if fails listen then ([listen], 1)
             else ([listen, NewServer, RegisterHealthServer, SetServingStatus [], RegisterReflection, Serve],
                   if fails Serve then 1 else 0))"

section \<open>Properties\<close>

lemma decode_rune_ascii: "byte c < 128 \<Longrightarrow> decode_rune (c # s) = (byte c, 1)"
  by (simp add: decode_rune_def byte_at_def)

lemma skip_space_digit:
  assumes "is_digit c"
  shows "skip_space (c # s) = Some (c # s)"
proof -
  from assms have "48 \<le> byte c" "byte c \<le> 57" by (auto simp: is_digit_def byte_def)
  then show ?thesis by (simp add: skip_space.simps [of "c # s"] decode_rune_ascii rune_space_def cont_def)
qed

text \<open>Any text that starts with the decimal digits of a number is read as that number, whatever follows.\<close>

lemma Sscanf_d_Itoa:
  assumes n: "0 \<le> n" "in_int64 n" and rest: "rest = [] \<or> \<not> is_digit (hd rest)"
  shows "Sscanf_d (Itoa n @ rest) = Some n"
proof -
  have Itoa: "Itoa n = dec_nat (nat n)" using n by (simp add: Itoa_dec_nat)
  obtain c cs where c: "Itoa n = c # cs" by (cases "Itoa n") simp_all
  have digits: "list_all is_digit (Itoa n)" by (simp add: Itoa dec_nat_digits)
  have "takeWhile is_digit rest = []" using rest by (cases rest) auto
  with digits have taken: "takeWhile is_digit (Itoa n @ rest) = Itoa n"
    by (simp add: takeWhile_append2 list_all_iff)
  from digits c have "is_digit c" by simp
  with c have skip: "skip_space (Itoa n @ rest) = Some (Itoa n @ rest)" by (simp add: skip_space_digit)
  show ?thesis
    unfolding Sscanf_d_def skip
    using taken c \<open>is_digit c\<close> digit_not_sign [OF \<open>is_digit c\<close>] Atoi_Itoa [OF n(2)] by simp
qed

lemma defaultPort_pos: "0 < defaultPort v"
  by (simp add: defaultPort_def split: option.split)

lemma defaultPort_Itoa:
  "0 < n \<Longrightarrow> in_int64 n \<Longrightarrow> rest = [] \<or> \<not> is_digit (hd rest) \<Longrightarrow> defaultPort (Itoa n @ rest) = n"
  using Sscanf_d_Itoa [of n rest] by (simp add: defaultPort_def)

lemma defaultPort_in_int64: "in_int64 (defaultPort v)"
proof -
  have "in_int64 p" if "Sscanf_d v = Some p" for p
    using that Atoi_in_int64 by (auto simp: Sscanf_d_def Let_def split: option.splits if_splits sum.splits)
  moreover have "in_int64 50051" by (simp add: in_int64_def)
  ultimately show ?thesis by (auto simp: defaultPort_def split: option.split)
qed

text \<open>
  The port on the command line takes precedence over the environment, and the environment over 50051; the
  server is marked as serving, with reflection, before it accepts a connection.
\<close>

lemma demo_main_listens:
  "demo_main fails env [] = demo_main fails env2 [flag_arg ''port'' (Itoa (defaultPort env))]"
  by (simp add: demo_main_def flag_Parse_arg [where fl = "IntVar (\<lambda>x port. x)"] flag_name_def demo_flags_def
      ParseInt0_Itoa defaultPort_in_int64 flag_Parse_end)

lemma demo_main_serves_last:
  assumes "Serve \<in> set (fst (demo_main fails env args))"
  shows "\<exists>a. fst (demo_main fails env args) =
    [Listen ''tcp'' a, NewServer, RegisterHealthServer, SetServingStatus [], RegisterReflection, Serve]"
  using assms by (auto simp: demo_main_def Let_def split: sum.splits if_splits)

end
