(* ===== verification/Spec2Isabelle.thy ===== *)
theory Spec2Isabelle
  imports Manager Cluster Deep_Copy Scheme Demo_Server
begin

text \<open>
  kube-booster warms up pods before they receive traffic. A pod opts in by an annotation; an admission
  webhook gives it a readiness gate; a controller waits until its containers are ready, sends warmup
  requests to it over HTTP or gRPC, and then sets the condition of the gate to true, whether or not the warmup
  succeeded. This development models the program function by function and proves what makes it correct.

  \<^bold>\<open>The parts of the program and the theories that model them.\<close>

  \<^item> Language and standard library: \<open>Prelude\<close> (lists, options, machine integers, the collection of
    constants \<open>go_const\<close>), \<open>Go_Std\<close> and \<open>Go_Num\<close> (package strings, strconv), \<open>Go_Time\<close> (durations,
    float64 rounding, contexts with deadlines), \<open>Go_Json\<close> (encoding/json: validity and decoding), \<open>Go_Fmt\<close>
    (the verbs of package fmt that the program uses), \<open>Go_Flag\<close> (package flag).
  \<^item> \<open>Api_Types\<close>: the WarmupConfig resource (pkg/api/v1alpha1/types.go) and the fields of a pod. \<open>Deep_Copy\<close>:
    pkg/api/v1alpha1/deepcopy.go on an explicit store of maps and slices. \<open>Scheme\<close>: pkg/api/v1alpha1/register.go and
    the scheme that main sets up in init.
  \<^item> \<open>Webhook\<close>: pkg/webhook, PodMutator.Handle.
  \<^item> \<open>Config\<close> and \<open>Config_Error\<close>: pkg/warmup/config.go, one definition per annotation, and the texts of its errors.
  \<^item> \<open>Sender\<close> (pkg/warmup/sender.go, http_sender.go), \<open>Reflection\<close> and \<open>Grpc_Sender\<close> (grpc_sender.go: the
    reflection client, the registration of descriptors, the cached method), \<open>Rate_Limiter\<close>
    (rate_limiter.go), \<open>Result\<close> (result.go).
  \<^item> \<open>Warmup_Executor\<close> (warmup_executor.go), \<open>Session\<close> (session.go) and \<open>Scenario_Executor\<close>
    (scenario_executor.go), with the mocks of mock.go.
  \<^item> \<open>Metrics\<close> (pkg/metrics), \<open>Controller\<close> (pkg/controller: predicates and Reconcile),
    \<open>Reconcile_Properties\<close>, \<open>Concurrency\<close> (reconciles of many pods that share the semaphore and the metrics),
    \<open>Cluster\<close> (one pod over its life: stale reads, conflicting writers, lost answers, kills), and
    \<open>Manager\<close> (cmd/controller/main.go: command line, options, wiring, exit code).
  \<^item> \<open>Demo_Server\<close>: hack/grpc-demo-server/main.go, the server that the demo warms up over gRPC.

  \<^bold>\<open>How code becomes definitions.\<close> Structs are records, errors are values of sum or option types, an \<^verbatim>\<open>int\<close> is an
  \<open>int\<close> with \<open>wrap64\<close> where a sum may leave 64 bits. The world is a type variable \<open>'w\<close>: everything outside
  the program (clock, HTTP client, gRPC connection, token bucket, Kubernetes client, the order in which a map is
  ranged over) is an operation of the records \<open>net\<close>, \<open>grpc_net\<close> and \<open>kube\<close>, each extending the one
  before, that takes and returns the world. Theorems hold for all such operations; where they need a law of
  one (a clock that does not run backwards, a decoder that inverts the encoder, a registry that finds exactly the
  files registered with it) it is a hypothesis, with an instance for which it holds. Reconcile returns
  its outcome and the list of its effects (events, metric calls, semaphore, status updates) in order;
  \<open>Concurrency\<close> interleaves these lists, and \<open>Cluster\<close> cuts them at any point.

  \<^bold>\<open>Loops.\<close> The loops of the executors recurse over the requests still to be made, which bounds them: no fuel is
  needed. Registration of descriptors may recurse without end in Go: \<open>g_depth\<close> is the depth of calls that the
  stack has room for, a parameter, and \<open>None\<close> is the process dying when it is exceeded.
  \<open>buildFileSet_returns\<close> says which depth is enough when the imports have no cycle, and
  \<open>buildFileSet_cycle_diverges\<close> that with a cycle none is. The JSON parser has fuel that depends on the length of
  its input; more never changes what it returns. \<open>Execute_returns\<close>,
  \<open>ExecuteScenario_returns\<close> and \<open>due_pod_becomes_ready\<close> are about totality, not partial correctness.

  \<^bold>\<open>Interfaces.\<close> Where a component relies on another, the contract is a locale, interpreted on the definitions:
  \<open>readiness_gate\<close> (webhook and controller), \<open>condition_store\<close> (conditions of a pod), \<open>executor\<close> and
  \<open>total_executor\<close> (both executors, as the controller needs them), \<open>deep_copy\<close> with \<open>slice_copy\<close>,
  \<open>pair_copy\<close> and \<open>field_copy\<close> (one instance per type of the resource), and those of the senders.

  \<^bold>\<open>What is shown.\<close>

  \<^item> Admission: the gate is injected exactly once and nothing else changes; admission is idempotent; webhook,
    event filter and controller agree on which pods are warmed up (\<open>admission_decides_warmup\<close> below).
  \<^item> Configuration: ParseConfig refines a specification by annotation; every result is within the limits; numbers
    round-trip.
  \<^item> Senders and executors: what is sent, what is counted, that no request is lost, percentiles, bounds on the
    counters, termination; the life cycle of the gRPC sender; soundness of descriptor registration.
  \<^item> Scenarios: session, interpolation as simultaneous substitution (and where it is not), extraction, timeouts.
  \<^item> Controller: fail-open, a pod is marked ready at most once in any cluster, balance of semaphore and gauge on every path, order
    of events, well-typed metrics, the limit on concurrent warmups, absence of deadlock, and that a due pod becomes ready.
  \<^item> Deep copies share nothing with their original. Startup: the command line, exit codes and limits.
    The demo server: which port it listens on, and that it accepts connections last.

  \<^bold>\<open>Not modelled.\<close> Log lines and their options; help texts of metrics and flags; the text that package flag prints for a
  wrong command line. Flags that zap and controller-runtime add are a parameter, and so is the scheme of
  apimachinery. Object metadata is copied by apimachinery and is one value in \<open>Deep_Copy\<close>. The cache filter by node
  name is recorded in the options, its effect is that of the library. A stale read can lead to a second run of the
  warmup requests, whose status update the API server then refuses: \<open>Cluster\<close> allows it and counts updates, not runs.
\<close>

section \<open>From admission to warmup\<close>

text \<open>
  The pod that the API server stores after the webhook has answered: the patched one, or the one that was
  sent when the webhook allows it without a patch; \<open>None\<close> when it is rejected or cannot be read.
\<close>

definition admitted :: "(string \<Rightarrow> 'e + pod) \<Rightarrow> (pod \<Rightarrow> 'e + string) \<Rightarrow> string \<Rightarrow> pod option" where
  "admitted decode marshal raw =
     (case Handle decode marshal raw of
        Errored code err \<Rightarrow> None
      | Allowed reason \<Rightarrow> (case decode raw of Inl e \<Rightarrow> None | Inr p \<Rightarrow> Some p)
      | PatchResponseFromRaw raw' m \<Rightarrow> (case decode m of Inl e \<Rightarrow> None | Inr p \<Rightarrow> Some p))"

text \<open>The controller's predicate and the gate that the webhook injects are the same test.\<close>

lemma hasReadinessGate_gate [simp]: "hasReadinessGate (PodObject p) \<longleftrightarrow> gate_present p"
  by (simp add: hasReadinessGate_def gate_present_def)

lemma Reconcile_no_gate:
  "k_get_pod E ctx ns name w = (Inr p, w1) \<Longrightarrow> \<not> gate_present p \<Longrightarrow>
     Reconcile E rc ctx ns name w = Some (Return 0 None, [], w1)"
  by (simp add: Reconcile_found due_def)

lemma admitted_cases:
  assumes "\<And>p m. marshal p = Inr m \<Longrightarrow> decode m = Inr p" and "decode raw = Inr p"
    and "marshal (inject_gate p) = Inr m"
  shows "admitted decode marshal raw =
    Some (if annotation_or_empty p AnnotationWarmupEnabled = WarmupEnabledValue then gate.ensure p else p)"
  using assms(1) [OF assms(3)] assms(2,3) by (simp add: admitted_def Handle_def gate.ensure_def)

text \<open>
  C4. The webhook, the event filter and the controller agree on which pods are warmed up. When the decoder
  reads back what the encoder wrote, a pod is admitted with nothing but its readiness gates changed; the controller is
  notified of its creation and of every update that keeps the gates exactly when it opted in by the annotation
  or already carried the gate; and a pod the filter drops is one for which a reconcile would do nothing:
  it returns without an error and without any effect.
\<close>

theorem admission_decides_warmup:
  assumes "\<And>p m. marshal p = Inr m \<Longrightarrow> decode m = Inr p" and "decode raw = Inr p"
    and "marshal (inject_gate p) = Inr m"
  shows "\<exists>q. admitted decode marshal raw = Some q \<and> q = p\<lparr>pod_ReadinessGates := pod_ReadinessGates q\<rparr> \<and>
    (HasReadinessGatePredicate (CreateEvent (PodObject q)) \<longleftrightarrow>
       annotation_or_empty p AnnotationWarmupEnabled = WarmupEnabledValue \<or>
       ReadinessGateName \<in> set (pod_ReadinessGates p)) \<and>
    (\<forall>old new. pod_ReadinessGates new = pod_ReadinessGates q \<longrightarrow>
       SetupWithManager (UpdateEvent old (PodObject new)) =
         (if HasReadinessGatePredicate (CreateEvent (PodObject q))
          then Some (pod_Namespace new, pod_Name new) else None)) \<and>
    (\<not> HasReadinessGatePredicate (CreateEvent (PodObject q)) \<longrightarrow>
       (\<forall>(E :: ('w, 'x) kube_scheme) rc ctx ns name w w1.
          k_get_pod E ctx ns name w = (Inr q, w1) \<longrightarrow>
          Reconcile E rc ctx ns name w = Some (Return 0 None, [], w1)))"
proof -
  define q where "q =
    (if annotation_or_empty p AnnotationWarmupEnabled = WarmupEnabledValue then gate.ensure p else p)"
  have adm: "admitted decode marshal raw = Some q"
    unfolding q_def by (rule admitted_cases) (use assms in blast)+
  have fields: "q = p\<lparr>pod_ReadinessGates := pod_ReadinessGates q\<rparr>"
    by (simp add: q_def gate.ensure_def inject_gate_def)
  have gates: "gate_present q \<longleftrightarrow> annotation_or_empty p AnnotationWarmupEnabled = WarmupEnabledValue \<or>
      ReadinessGateName \<in> set (pod_ReadinessGates p)"
    using gate.has_ensure [of p] by (auto simp: q_def gate_present_iff)
  have upd: "SetupWithManager (UpdateEvent old (PodObject new)) =
      (if gate_present q then Some (pod_Namespace new, pod_Name new) else None)"
    if "pod_ReadinessGates new = pod_ReadinessGates q" for old new
    using that by (simp add: SetupWithManager_def gate_present_def)
  have quiet: "Reconcile E rc ctx ns name w = Some (Return 0 None, [], w1)"
    if "\<not> gate_present q" "k_get_pod E ctx ns name w = (Inr q, w1)"
    for E :: "('w, 'x) kube_scheme" and rc ctx ns name w w1
    using that(2,1) by (rule Reconcile_no_gate)
  show ?thesis
    unfolding HasReadinessGatePredicate.simps hasReadinessGate_gate
    by (intro exI [of _ q] conjI allI impI) (rule adm fields gates upd quiet; assumption)+
qed

theorem admission_decides_warmup_witness:
  "\<exists>q. admitted sample_decode sample_marshal ''original'' = Some q \<and>
     HasReadinessGatePredicate (CreateEvent (PodObject q))"
proof -
  have codec: "\<And>p m. sample_marshal p = Inr m \<Longrightarrow> sample_decode m = Inr p"
    by (auto simp: sample_marshal_def sample_decode_def split: if_splits)
  have raw: "sample_decode ''original'' = Inr sample_pod" "sample_marshal (inject_gate sample_pod) = Inr ''patched''"
    by (simp_all add: sample_decode_def sample_marshal_def)
  have "annotation_or_empty sample_pod AnnotationWarmupEnabled = WarmupEnabledValue"
    by (simp add: sample_pod_def annotation_or_empty_def annotation_def)
  with admission_decides_warmup [of sample_marshal sample_decode, OF codec raw, where 'w = int and 'x = unit]
  show ?thesis by blast
qed

end
